theory Spec2Isabelle
  imports Main
begin

section \<open>Strings\<close>

text \<open>
  A JavaScript string is modelled as a \<^typ>\<open>string\<close> whose characters are the code units
  below 256 (ISO Latin-1). \<open>toLowerCase\<close> maps the 26 ASCII capitals and the 30 Latin-1
  capitals (U+00C0 to U+00DE without the multiplication sign) to their small letters.
  \<open>toUpperCase\<close> maps the small letters back and turns the sharp s (U+00DF) into \<open>SS\<close>;
  the two small letters whose capitals lie beyond U+00FF (the micro sign U+00B5 and
  U+00FF) stay as they are: letter and capital alike are no ASCII character, no white
  space and no word character, and the source only tests upper-cased text against ASCII
  patterns. White space (\<open>\s\<close> in a regular expression, and what \<open>trim\<close> removes) is tab,
  line feed, vertical tab, form feed, carriage return, space and the no-break space
  U+00A0. A word character (\<open>\w\<close>, and what \<open>\b\<close> looks at) is an ASCII letter, a digit or
  an underscore.
\<close>

definition lowerLetters :: string where
  "lowerLetters = ''abcdefghijklmnopqrstuvwxyz''"

definition upperLetters :: string where
  "upperLetters = ''ABCDEFGHIJKLMNOPQRSTUVWXYZ''"

definition lowerLatin :: string where
  "lowerLatin = [CHR 0xE0, CHR 0xE1, CHR 0xE2, CHR 0xE3, CHR 0xE4, CHR 0xE5, CHR 0xE6, CHR 0xE7, CHR 0xE8, CHR 0xE9, CHR 0xEA, CHR 0xEB, CHR 0xEC, CHR 0xED, CHR 0xEE, CHR 0xEF, CHR 0xF0, CHR 0xF1, CHR 0xF2, CHR 0xF3, CHR 0xF4, CHR 0xF5, CHR 0xF6, CHR 0xF8, CHR 0xF9, CHR 0xFA, CHR 0xFB, CHR 0xFC, CHR 0xFD, CHR 0xFE]"

definition upperLatin :: string where
  "upperLatin = [CHR 0xC0, CHR 0xC1, CHR 0xC2, CHR 0xC3, CHR 0xC4, CHR 0xC5, CHR 0xC6, CHR 0xC7, CHR 0xC8, CHR 0xC9, CHR 0xCA, CHR 0xCB, CHR 0xCC, CHR 0xCD, CHR 0xCE, CHR 0xCF, CHR 0xD0, CHR 0xD1, CHR 0xD2, CHR 0xD3, CHR 0xD4, CHR 0xD5, CHR 0xD6, CHR 0xD8, CHR 0xD9, CHR 0xDA, CHR 0xDB, CHR 0xDC, CHR 0xDD, CHR 0xDE]"

definition digitChars :: string where
  "digitChars = ''0123456789''"

text \<open>
  The capital of one character, where it is one character; this is also how a regular
  expression with the flag \<open>i\<close> compares characters.
\<close>

definition toUpperChar :: "char \<Rightarrow> char" where
  "toUpperChar c =
     (case map_of (zip (lowerLetters @ lowerLatin) (upperLetters @ upperLatin)) c of
        Some u \<Rightarrow> u | None \<Rightarrow> c)"

definition toLowerChar :: "char \<Rightarrow> char" where
  "toLowerChar c =
     (case map_of (zip (upperLetters @ upperLatin) (lowerLetters @ lowerLatin)) c of
        Some l \<Rightarrow> l | None \<Rightarrow> c)"

definition upperOf :: "char \<Rightarrow> string" where
  "upperOf c = (if c = CHR 0xDF then ''SS'' else [toUpperChar c])"

definition toUpperCase :: "string \<Rightarrow> string" where
  "toUpperCase s = concat (map upperOf s)"

definition toLowerCase :: "string \<Rightarrow> string" where
  "toLowerCase s = map toLowerChar s"

definition isSpace :: "char \<Rightarrow> bool" where
  "isSpace c = (c \<in> set [CHR 0x09, CHR 0x0A, CHR 0x0B, CHR 0x0C, CHR 0x0D, CHR '' '', CHR 0xA0])"

definition isWordChar :: "char \<Rightarrow> bool" where
  "isWordChar c = (c \<in> set lowerLetters \<or> c \<in> set upperLetters \<or> c \<in> set digitChars \<or> c = CHR ''_'')"

definition trim :: "string \<Rightarrow> string" where
  "trim s = rev (dropWhile isSpace (rev (dropWhile isSpace s)))"

definition startsWith :: "string \<Rightarrow> string \<Rightarrow> bool" where
  "startsWith s p = (take (length p) s = p)"

definition endsWith :: "string \<Rightarrow> string \<Rightarrow> bool" where
  "endsWith s p = (length p \<le> length s \<and> drop (length s - length p) s = p)"

text \<open>\<open>String.prototype.indexOf\<close>: the first index at which \<open>p\<close> occurs, \<open>None\<close> for \<open>-1\<close>.\<close>

fun indexOf :: "string \<Rightarrow> string \<Rightarrow> nat option" where
  "indexOf [] p = (if p = [] then Some 0 else None)"
| "indexOf (c # cs) p =
     (if startsWith (c # cs) p then Some 0 else map_option Suc (indexOf cs p))"

definition includesStr :: "string \<Rightarrow> string \<Rightarrow> bool" where
  "includesStr s p = (indexOf s p \<noteq> None)"

text \<open>Decimal notation of a number, as a template literal prints it.\<close>

fun showNat :: "nat \<Rightarrow> string" where
  "showNat n = (if n < 10 then [digitChars ! n] else showNat (n div 10) @ [digitChars ! (n mod 10)])"

fun joinWith :: "string \<Rightarrow> string list \<Rightarrow> string" where
  "joinWith sep [] = []"
| "joinWith sep [x] = x"
| "joinWith sep (x # y # ys) = x @ sep @ joinWith sep (y # ys)"

section \<open>The permission policy of the web application (lib/table-permissions.ts)\<close>

datatype AccessLevel = Full | Read | NoAccess

text \<open>
  \<open>NoAccess\<close> is the access level \<open>'none'\<close>. An optional field of the TypeScript
  interface is an \<open>option\<close>: \<open>None\<close> is \<open>undefined\<close>. The interface of the agent
  package declares the fields \<open>table\<close>, \<open>schema\<close>, \<open>accessLevel\<close> and \<open>blockedColumns\<close>
  only; its functions read no other field, so one record serves both packages.
\<close>

record TablePermission =
  table :: string
  schema :: string
  accessLevel :: AccessLevel
  allowedColumns :: "string list option"
  blockedColumns :: "string list option"
  description :: "string option"

record TablePermissionsConfig =
  defaultAccess :: AccessLevel
  tables :: "TablePermission list"
  updatedAt :: nat

text \<open>
  \<open>getTableAccess\<close>: \<open>Array.prototype.find\<close> with the strict equalities of the source;
  the declared result \<open>TablePermission | null\<close> is an \<open>option\<close>, although no path
  returns \<open>null\<close>.
\<close>

definition getTableAccess :: "TablePermissionsConfig \<Rightarrow> string \<Rightarrow> string \<Rightarrow> TablePermission option" where
  "getTableAccess config tableName schemaName =
     (case find (\<lambda>t. table t = tableName \<and> schema t = schemaName) (tables config) of
        Some permission \<Rightarrow> Some permission
      | None \<Rightarrow> Some \<lparr> table = tableName, schema = schemaName,
                       accessLevel = defaultAccess config,
                       allowedColumns = None, blockedColumns = None, description = None \<rparr>)"

definition canAccessTable :: "TablePermissionsConfig \<Rightarrow> string \<Rightarrow> string \<Rightarrow> bool" where
  "canAccessTable config tableName schemaName =
     (case getTableAccess config tableName schemaName of
        None \<Rightarrow> False
      | Some permission \<Rightarrow> accessLevel permission \<noteq> NoAccess)"

definition canAccessColumn :: "TablePermissionsConfig \<Rightarrow> string \<Rightarrow> string \<Rightarrow> string \<Rightarrow> bool" where
  "canAccessColumn config tableName columnName schemaName =
     (case getTableAccess config tableName schemaName of
        None \<Rightarrow> False
      | Some permission \<Rightarrow>
          if accessLevel permission = NoAccess then False
          else if (case blockedColumns permission of None \<Rightarrow> False | Some bs \<Rightarrow> columnName \<in> set bs)
            then False
          else (case allowedColumns permission of
                  None \<Rightarrow> True
                | Some as \<Rightarrow> if length as > 0 then columnName \<in> set as else True))"

definition filterAccessibleTables ::
  "TablePermissionsConfig \<Rightarrow> (string \<times> string) list \<Rightarrow> (string \<times> string) list" where
  "filterAccessibleTables config ts = filter (\<lambda>(t, s). canAccessTable config t s) ts"

text \<open>The permission that resolution yields; \<open>getTableAccess\<close> never returns \<open>null\<close>.\<close>

definition resolved :: "TablePermissionsConfig \<Rightarrow> string \<Rightarrow> string \<Rightarrow> TablePermission" where
  "resolved config tableName schemaName = the (getTableAccess config tableName schemaName)"

definition listOrEmpty :: "string list option \<Rightarrow> string list" where
  "listOrEmpty xs = (case xs of None \<Rightarrow> [] | Some ys \<Rightarrow> ys)"

section \<open>The SQL safety validator (packages/agent/src/validation.ts)\<close>

record SQLValidationResult =
  valid :: bool
  error :: "string option"
  warnings :: "string list option"

definition BLOCKED_KEYWORDS :: "string list" where
  "BLOCKED_KEYWORDS = [''INSERT'', ''UPDATE'', ''DELETE'', ''DROP'', ''CREATE'', ''ALTER'',
     ''TRUNCATE'', ''GRANT'', ''REVOKE'', ''EXECUTE'', ''EXEC'', ''CALL'']"

definition WARNING_KEYWORDS :: "string list" where
  "WARNING_KEYWORDS = [''TRUNCATE'', ''CASCADE'', ''FORCE'']"

text \<open>
  The regular expression \<open>(^|;\s*)KEYWORD\b\<close> with the flag \<open>i\<close>, tested against a text.
  \<open>keywordHere\<close> is \<open>KEYWORD\b\<close> matched at the head of a text: the keyword's letters, compared
  character by character ignoring case, then a word boundary (the end of the text, or a character that is no word
  character, since the keyword ends in a letter). Every keyword starts with a letter, so the
  greedy \<open>\s*\<close> after a semicolon has to take the whole run of white space.
\<close>

definition keywordHere :: "string \<Rightarrow> string \<Rightarrow> bool" where
  "keywordHere keyword s =
     (length keyword \<le> length s
      \<and> map toUpperChar (take (length keyword) s) = map toUpperChar keyword
      \<and> (case drop (length keyword) s of [] \<Rightarrow> True | c # _ \<Rightarrow> \<not> isWordChar c))"

fun keywordAfterSemicolon :: "string \<Rightarrow> string \<Rightarrow> bool" where
  "keywordAfterSemicolon keyword [] = False"
| "keywordAfterSemicolon keyword (c # cs) =
     ((c = CHR '';'' \<and> keywordHere keyword (dropWhile isSpace cs)) \<or> keywordAfterSemicolon keyword cs)"

definition blockedPattern :: "string \<Rightarrow> string \<Rightarrow> bool" where
  "blockedPattern keyword s = (keywordHere keyword s \<or> keywordAfterSemicolon keyword s)"

definition blockedKeywordError :: "string \<Rightarrow> string" where
  "blockedKeywordError keyword =
     ''SQL contains blocked keyword: '' @ keyword @ ''. Only SELECT queries are allowed.''"

definition multipleStatementsError :: string where
  "multipleStatementsError = ''Multiple SQL statements are not allowed''"

definition mustStartError :: string where
  "mustStartError = ''Query must start with SELECT or WITH (CTE)''"

definition commentWarnings :: "string \<Rightarrow> string list" where
  "commentWarnings normalizedSQL =
     (if includesStr normalizedSQL ''--'' \<and> (case indexOf normalizedSQL ''--'' of None \<Rightarrow> False | Some i \<Rightarrow> i > 0)
      then [''SQL contains comment syntax which may indicate injection attempt''] else [])"

definition laterWarnings :: "string \<Rightarrow> string list" where
  "laterWarnings normalizedSQL =
     map (\<lambda>keyword. ''Query contains '' @ [CHR 0x27] @ keyword @ [CHR 0x27] @ '' which may indicate risky operation'')
         (filter (\<lambda>keyword. includesStr normalizedSQL keyword) WARNING_KEYWORDS)
     @ (if \<not> includesStr normalizedSQL ''LIMIT'' \<and> \<not> includesStr normalizedSQL ''TOP''
        then [''Query has no LIMIT clause. Consider adding one for large tables.''] else [])
     @ (if includesStr normalizedSQL ''SELECT *''
        then [''Using SELECT * may return more data than needed''] else [])"

definition validateSQL :: "string \<Rightarrow> SQLValidationResult" where
  "validateSQL sql =
     (let normalizedSQL = trim (toUpperCase sql) in
      case find (\<lambda>keyword. blockedPattern keyword normalizedSQL) BLOCKED_KEYWORDS of
        Some keyword \<Rightarrow> \<lparr> valid = False, error = Some (blockedKeywordError keyword), warnings = None \<rparr>
      | None \<Rightarrow>
          let ws = commentWarnings normalizedSQL in
          if includesStr normalizedSQL '';''
             \<and> (case indexOf normalizedSQL '';'' of None \<Rightarrow> False
                 | Some i \<Rightarrow> int i < int (length normalizedSQL) - 1)
          then \<lparr> valid = False, error = Some multipleStatementsError, warnings = None \<rparr>
          else if \<not> startsWith normalizedSQL ''SELECT'' \<and> \<not> startsWith normalizedSQL ''WITH''
          then \<lparr> valid = False, error = Some mustStartError, warnings = None \<rparr>
          else
            let ws' = ws @ laterWarnings normalizedSQL in
            \<lparr> valid = True, error = None, warnings = (if length ws' > 0 then Some ws' else None) \<rparr>)"

text \<open>
  \<open>sanitizeSQL\<close>: the loop removes one trailing semicolon and trims again, as long as the
  text ends with a semicolon. \<open>n\<close> bounds the number of rounds; the text's length is
  enough, as each round shortens the text: the result never ends with a semicolon
  (\<open>stripSemicolons_done\<close> below), so it is the loop's own test that ends it.
\<close>

fun stripSemicolons :: "nat \<Rightarrow> string \<Rightarrow> string" where
  "stripSemicolons 0 sanitized = sanitized"
| "stripSemicolons (Suc n) sanitized =
     (if endsWith sanitized '';'' then stripSemicolons n (trim (butlast sanitized)) else sanitized)"

definition sanitizeSQL :: "string \<Rightarrow> string" where
  "sanitizeSQL sql = (let sanitized = trim sql in stripSemicolons (length sanitized) sanitized)"

definition addDefaultLimit :: "string \<Rightarrow> nat \<Rightarrow> string" where
  "addDefaultLimit sql limit =
     (let upperSQL = toUpperCase sql in
      if \<not> includesStr upperSQL ''LIMIT'' then sql @ '' LIMIT '' @ showNat limit else sql)"

subsection \<open>The three rules of the validator, in the words of the specification\<close>

text \<open>
  \<open>leadingToken keyword s\<close>: the keyword occurs in \<open>s\<close> as a statement-leading, word-bounded
  token. It stands at some index \<open>i\<close> that is the start of the text or comes after a
  semicolon (with nothing but white space between), and the keyword ends the text or is
  followed by a character that is no word character.
\<close>

definition leadingToken :: "string \<Rightarrow> string \<Rightarrow> bool" where
  "leadingToken keyword s =
     (\<exists>i \<in> {0..length s}.
        (i = 0 \<or> (\<exists>j \<in> {0..<i}. s ! j = CHR '';'' \<and> (\<forall>k \<in> {j<..<i}. isSpace (s ! k))))
        \<and> take (length keyword) (drop i s) = keyword
        \<and> (drop (i + length keyword) s = [] \<or> \<not> isWordChar (s ! (i + length keyword))))"

text \<open>A semicolon appears somewhere before the final character.\<close>

definition semicolonBeforeFinal :: "string \<Rightarrow> bool" where
  "semicolonBeforeFinal s = (\<exists>i \<in> {0..<length s - 1}. s ! i = CHR '';'')"

definition beginsWithSelectOrWith :: "string \<Rightarrow> bool" where
  "beginsWithSelectOrWith s = (take 6 s = ''SELECT'' \<or> take 4 s = ''WITH'')"

section \<open>The agent's tools (packages/agent/src/tools.ts)\<close>

subsection \<open>Values, errors and the backend\<close>

text \<open>
  A value of a query result; a row (\<open>Record<string, unknown>\<close>) lists its keys in
  insertion order, and reading an absent key gives \<open>None\<close> (\<open>undefined\<close>).
\<close>

datatype jsval = JString string | JBool bool | JNumber int | JNull

type_synonym row = "(string \<times> jsval) list"

definition field :: "row \<Rightarrow> string \<Rightarrow> jsval option" where
  "field r k = map_of r k"

text \<open>
  What a \<open>throw\<close> carries: an \<open>Error\<close> object with its message (a \<open>TypeError\<close> is one),
  or some other value. A function that may throw returns \<open>thrown + 'a\<close>.
\<close>

datatype thrown = ErrorObj string | OtherValue

text \<open>
  The backend is \<open>supabase.rpc('execute_readonly_query', ...)\<close>: for a query text it
  resolves to \<open>{data, error}\<close> or rejects, after some milliseconds. \<open>DataArray\<close> is an
  array of rows, \<open>DataRow\<close> a single truthy value, \<open>DataNull\<close> a falsy one.
\<close>

datatype rpc_data = DataArray "row list" | DataRow row | DataNull

datatype rpc_result = RpcError string | RpcData rpc_data | RpcRejects thrown

record rpc_reply =
  result :: rpc_result
  latency :: nat

text \<open>
  What a tool does to the outside, in order: the console line of a permission check
  (\<open>[Permission Check] Table: ..., Access Level: ...\<close>) and a query sent to the backend.
\<close>

datatype effect = PermissionCheck string AccessLevel | Query string

record ColumnReference =
  ref_table :: "jsval option"
  ref_column :: "jsval option"

record ColumnInfo =
  name :: "jsval option"
  type :: "jsval option"
  nullable :: "jsval option"
  defaultValue :: "jsval option"
  isPrimaryKey :: bool
  isForeignKey :: bool
  references :: "ColumnReference option"

record TableInfo =
  ti_name :: string
  ti_schema :: "string option"
  columns :: "ColumnInfo list"

record QueryResult =
  data :: "row list"
  rowCount :: nat
  result_columns :: "string list"
  executionTime :: nat

record SupabaseToolsConfig =
  supabaseUrl :: string
  supabaseKey :: string
  cfg_queryTimeout :: "nat option"
  cfg_maxRows :: "nat option"
  cfg_permissions :: "TablePermissionsConfig option"

text \<open>
  The variables that the functions of \<open>createSupabaseTools\<close> close over. The agent's
  configuration type has no \<open>updatedAt\<close>; the default configuration carries \<open>0\<close> there,
  and no function of the agent reads it.
\<close>

record tools =
  rpc :: "string \<Rightarrow> rpc_reply"
  queryTimeout :: nat
  maxRows :: nat
  permissions :: TablePermissionsConfig

definition createSupabaseTools :: "SupabaseToolsConfig \<Rightarrow> (string \<Rightarrow> rpc_reply) \<Rightarrow> tools" where
  "createSupabaseTools config backend =
     \<lparr> rpc = backend,
       queryTimeout = (case cfg_queryTimeout config of None \<Rightarrow> 30000 | Some t \<Rightarrow> t),
       maxRows = (case cfg_maxRows config of None \<Rightarrow> 1000 | Some m \<Rightarrow> m),
       permissions = (case cfg_permissions config of
                        None \<Rightarrow> \<lparr> defaultAccess = Read, tables = [], updatedAt = 0 \<rparr>
                      | Some p \<Rightarrow> p) \<rparr>"

subsection \<open>Identifiers and literals\<close>

definition escapeSQLString :: "string \<Rightarrow> string" where
  "escapeSQLString v =
     concat (map (\<lambda>c. if c = CHR 0x27 then [CHR 0x27, CHR 0x27] else [c])
       (concat (map (\<lambda>c. if c = CHR 0x5C then [CHR 0x5C, CHR 0x5C] else [c]) v)))"

definition isIdentStart :: "char \<Rightarrow> bool" where
  "isIdentStart c = (c \<in> set lowerLetters \<or> c \<in> set upperLetters \<or> c = CHR ''_'')"

text \<open>An absent argument (\<open>undefined\<close>) is no string, and so no valid identifier.\<close>

definition isValidSQLIdentifier :: "string option \<Rightarrow> bool" where
  "isValidSQLIdentifier v =
     (case v of
        None \<Rightarrow> False
      | Some s \<Rightarrow>
          if length s = 0 \<or> length s > 128 then False
          else (case s of [] \<Rightarrow> False | c # cs \<Rightarrow> isIdentStart c \<and> list_all isWordChar cs))"

definition invalidIdentifierError :: "string \<Rightarrow> string option \<Rightarrow> string" where
  "invalidIdentifierError identifierType v =
     ''Invalid '' @ identifierType @ '': '' @ [CHR 0x22] @ (case v of None \<Rightarrow> ''undefined'' | Some s \<Rightarrow> s) @ [CHR 0x22] @ ''. ''
     @ ''Identifiers must contain only letters, numbers, and underscores, and start with a letter or underscore.''"

definition validateSQLIdentifier :: "string option \<Rightarrow> string \<Rightarrow> thrown + string" where
  "validateSQLIdentifier v identifierType =
     (if \<not> isValidSQLIdentifier v then Inl (ErrorObj (invalidIdentifierError identifierType v))
      else Inr (the v))"

subsection \<open>Permission helpers\<close>

text \<open>A parameter with a default (\<open>schema: string = 'public'\<close>) takes \<open>None\<close> for an omitted argument.\<close>

definition orPublic :: "string option \<Rightarrow> string" where
  "orPublic schemaArg = (case schemaArg of None \<Rightarrow> ''public'' | Some s \<Rightarrow> s)"

definition getTablePermission :: "tools \<Rightarrow> string \<Rightarrow> string option \<Rightarrow> TablePermission" where
  "getTablePermission env tableName schemaArg =
     (let schemaName = orPublic schemaArg;
          lowerTableName = toLowerCase tableName;
          lowerSchema = toLowerCase schemaName
      in case find (\<lambda>t. toLowerCase (table t) = lowerTableName \<and> toLowerCase (schema t) = lowerSchema)
                   (tables (permissions env)) of
           Some explicit \<Rightarrow> explicit
         | None \<Rightarrow> \<lparr> table = tableName, schema = schemaName,
                        accessLevel = defaultAccess (permissions env),
                        allowedColumns = None, blockedColumns = None, description = None \<rparr>)"

definition tools_canAccessTable :: "tools \<Rightarrow> string \<Rightarrow> string option \<Rightarrow> bool" where
  "tools_canAccessTable env tableName schemaArg =
     (accessLevel (getTablePermission env tableName schemaArg) \<noteq> NoAccess)"

definition checkEffect :: "tools \<Rightarrow> string \<Rightarrow> string option \<Rightarrow> effect" where
  "checkEffect env tableName schemaArg =
     PermissionCheck tableName (accessLevel (getTablePermission env tableName schemaArg))"

subsection \<open>The table extractor\<close>

text \<open>
  One attempt to match \<open>\bKEYWORD\s+([a-z_][a-z0-9_]*(?:\.[a-z_][a-z0-9_]*)?)\<close>, flags
  \<open>gi\<close>, at the head of the text \<open>s\<close>, where \<open>prev\<close> is the character before it (\<open>None\<close>
  at the start). The keyword starts with a letter, so the word boundary asks that \<open>prev\<close>
  is no word character; the captured name starts with a letter or an underscore, so the
  greedy \<open>\s+\<close> takes the whole run of white space; the greedy \<open>*\<close> takes the whole run of
  word characters. The result is the captured name and the length of the match.
\<close>

definition matchHere :: "string \<Rightarrow> char option \<Rightarrow> string \<Rightarrow> (string \<times> nat) option" where
  "matchHere keyword prev s =
     (if (case prev of None \<Rightarrow> False | Some p \<Rightarrow> isWordChar p) then None
      else if \<not> (length keyword \<le> length s \<and> toLowerCase (take (length keyword) s) = toLowerCase keyword) then None
      else
        let rest = drop (length keyword) s;
            spaces = takeWhile isSpace rest
        in if spaces = [] then None
           else (case dropWhile isSpace rest of
                   [] \<Rightarrow> None
                 | c # cs \<Rightarrow>
                     if \<not> isIdentStart c then None
                     else
                       let first = c # takeWhile isWordChar cs;
                           captured = (case dropWhile isWordChar cs of
                                      d # e # es \<Rightarrow>
                                        if d = CHR ''.'' \<and> isIdentStart e
                                        then first @ [d] @ (e # takeWhile isWordChar es)
                                        else first
                                    | _ \<Rightarrow> first)
                       in Some (captured, length keyword + length spaces + length captured)))"

text \<open>
  The loop \<open>while ((match = regex.exec(sql)) !== null)\<close>: the matches from left to right,
  each search starting where the match before ended. \<open>skip\<close> counts the characters of the
  last match that are still to pass.
\<close>

fun allMatches :: "string \<Rightarrow> char option \<Rightarrow> nat \<Rightarrow> string \<Rightarrow> string list" where
  "allMatches keyword prev skip [] = []"
| "allMatches keyword prev skip (c # cs) =
     (if skip > 0 then allMatches keyword (Some c) (skip - 1) cs
      else (case matchHere keyword prev (c # cs) of
              Some (captured, n) \<Rightarrow> captured # allMatches keyword (Some c) (n - 1) cs
            | None \<Rightarrow> allMatches keyword (Some c) 0 cs))"

text \<open>\<open>match[1].split('.').pop()?.toLowerCase()\<close>: what follows the last dot, in lower case.\<close>

definition lastSegment :: "string \<Rightarrow> string" where
  "lastSegment captured = toLowerCase (rev (takeWhile (\<lambda>c. c \<noteq> CHR ''.'') (rev captured)))"

definition pushNew :: "string list \<Rightarrow> string \<Rightarrow> string list" where
  "pushNew found tableName =
     (if tableName \<noteq> [] \<and> tableName \<notin> set found then found @ [tableName] else found)"

text \<open>The source computes a normalised text and then runs both expressions on \<open>sql\<close> itself.\<close>

definition extractTablesFromSQL :: "string \<Rightarrow> string list" where
  "extractTablesFromSQL sql =
     (let afterFrom = foldl pushNew [] (map lastSegment (allMatches ''from'' None 0 sql))
      in foldl pushNew afterFrom (map lastSegment (allMatches ''join'' None 0 sql)))"

record AccessValidation =
  allowed :: bool
  blockedTables :: "string list"

definition validateTableAccess :: "tools \<Rightarrow> string \<Rightarrow> effect list \<times> AccessValidation" where
  "validateTableAccess env sql =
     (let found = extractTablesFromSQL sql;
          blocked = filter (\<lambda>t. \<not> tools_canAccessTable env t None) found
      in (map (\<lambda>t. checkEffect env t None) found,
          \<lparr> allowed = (length blocked = 0), blockedTables = blocked \<rparr>))"

subsection \<open>Queries\<close>

definition runQuery :: "tools \<Rightarrow> string \<Rightarrow> thrown + row list" where
  "runQuery env sql =
     (case result (rpc env sql) of
        RpcRejects e \<Rightarrow> Inl e
      | RpcError message \<Rightarrow> Inl (ErrorObj (''Query failed: '' @ message))
      | RpcData (DataArray rows) \<Rightarrow> Inr rows
      | RpcData (DataRow r) \<Rightarrow> Inr [r]
      | RpcData DataNull \<Rightarrow> Inr [])"

definition quoted :: "string \<Rightarrow> string" where
  "quoted s = [CHR 0x27] @ s @ [CHR 0x27]"

definition listTablesSQL :: "string \<Rightarrow> string" where
  "listTablesSQL safeSchema =
     ''SELECT table_name as name, table_schema as schema FROM information_schema.tables WHERE table_schema = ''
     @ quoted (escapeSQLString safeSchema) @ '' AND table_type = '' @ quoted ''BASE TABLE'' @ '' ORDER BY table_name''"

text \<open>
  \<open>canAccessTable(t.name as string, t.schema as string)\<close> on a row of the catalog: the
  casts check nothing, and \<open>toLowerCase\<close> of a value that is no string is a \<open>TypeError\<close>
  (an absent schema takes the default).
\<close>

definition rowTable :: "row \<Rightarrow> thrown + (string \<times> string option)" where
  "rowTable t =
     (case field t ''name'' of
        Some (JString n) \<Rightarrow>
          (case field t ''schema'' of
             None \<Rightarrow> Inr (n, None)
           | Some (JString s) \<Rightarrow> Inr (n, Some s)
           | Some _ \<Rightarrow> Inl (ErrorObj ''schema.toLowerCase is not a function''))
      | _ \<Rightarrow> Inl (ErrorObj ''tableName.toLowerCase is not a function''))"

fun accessibleRows :: "tools \<Rightarrow> row list \<Rightarrow> effect list \<times> (thrown + (string \<times> string option) list)" where
  "accessibleRows env [] = ([], Inr [])"
| "accessibleRows env (t # ts) =
     (case rowTable t of
        Inl e \<Rightarrow> ([], Inl e)
      | Inr (n, s) \<Rightarrow>
          (case accessibleRows env ts of
             (fx, Inl e) \<Rightarrow> (checkEffect env n s # fx, Inl e)
           | (fx, Inr kept) \<Rightarrow>
               (checkEffect env n s # fx,
                Inr (if tools_canAccessTable env n s then (n, s) # kept else kept))))"

definition listTables :: "tools \<Rightarrow> string option \<Rightarrow> effect list \<times> (thrown + TableInfo list)" where
  "listTables env schemaArg =
     (case validateSQLIdentifier (Some (orPublic schemaArg)) ''schema name'' of
        Inl e \<Rightarrow> ([], Inl e)
      | Inr safeSchema \<Rightarrow>
          let sql = listTablesSQL safeSchema in
          (case runQuery env sql of
             Inl e \<Rightarrow> ([Query sql], Inr [])
           | Inr found \<Rightarrow>
               (case accessibleRows env found of
                  (fx, Inl e) \<Rightarrow> (Query sql # fx, Inr [])
                | (fx, Inr accessibleTables) \<Rightarrow>
                    (Query sql # fx,
                     Inr (map (\<lambda>(n, s). \<lparr> ti_name = n, ti_schema = s, columns = [] \<rparr>) accessibleTables)))))"

definition tableAccessDenied :: "string \<Rightarrow> string" where
  "tableAccessDenied safeTableName =
     ''ACCESS_DENIED: You don'' @ [CHR 0x27] @ ''t have permission to access the table '' @ quoted safeTableName @ ''. ''
     @ ''This table has been restricted in Security Settings. ''
     @ ''To access this data, please go to Security Settings to update table permissions, ''
     @ ''or contact your administrator to request access.''"

definition columnsSQL :: "string \<Rightarrow> string \<Rightarrow> string" where
  "columnsSQL escapedTableName escapedSchema =
     ''SELECT c.column_name as name, c.data_type as type, (c.is_nullable = '' @ quoted ''YES''
     @ '') as nullable, c.column_default as default_value FROM information_schema.columns c WHERE c.table_name = ''
     @ quoted escapedTableName @ '' AND c.table_schema = '' @ quoted escapedSchema
     @ '' ORDER BY c.ordinal_position''"

definition pkSQL :: "string \<Rightarrow> string \<Rightarrow> string" where
  "pkSQL escapedTableName escapedSchema =
     ''SELECT ccu.column_name FROM information_schema.table_constraints tc JOIN information_schema.constraint_column_usage ccu ON tc.constraint_name = ccu.constraint_name WHERE tc.table_name = ''
     @ quoted escapedTableName @ '' AND tc.table_schema = '' @ quoted escapedSchema
     @ '' AND tc.constraint_type = '' @ quoted ''PRIMARY KEY''"

definition fkSQL :: "string \<Rightarrow> string \<Rightarrow> string" where
  "fkSQL escapedTableName escapedSchema =
     ''SELECT kcu.column_name, ccu.table_name AS foreign_table, ccu.column_name AS foreign_column FROM information_schema.table_constraints AS tc JOIN information_schema.key_column_usage AS kcu ON tc.constraint_name = kcu.constraint_name JOIN information_schema.constraint_column_usage AS ccu ON ccu.constraint_name = tc.constraint_name WHERE tc.constraint_type = ''
     @ quoted ''FOREIGN KEY'' @ '' AND tc.table_name = '' @ quoted escapedTableName
     @ '' AND tc.table_schema = '' @ quoted escapedSchema"

text \<open>\<open>blockedColumns.includes(col.name as string)\<close>: only a string can be in the list.\<close>

definition isBlockedColumn :: "string list \<Rightarrow> row \<Rightarrow> bool" where
  "isBlockedColumn blocked col =
     (case field col ''name'' of Some (JString n) \<Rightarrow> n \<in> set blocked | _ \<Rightarrow> False)"

definition toColumnInfo :: "row list \<Rightarrow> row list \<Rightarrow> row \<Rightarrow> ColumnInfo" where
  "toColumnInfo pkData fkData col =
     (let fk = find (\<lambda>f. field f ''column_name'' = field col ''name'') fkData in
      \<lparr> name = field col ''name'',
        type = field col ''type'',
        nullable = field col ''nullable'',
        defaultValue = field col ''default_value'',
        isPrimaryKey = (field col ''name'' \<in> set (map (\<lambda>pk. field pk ''column_name'') pkData)),
        isForeignKey = (fk \<noteq> None),
        references = map_option (\<lambda>f. \<lparr> ref_table = field f ''foreign_table'',
                                       ref_column = field f ''foreign_column'' \<rparr>) fk \<rparr>)"

definition getTableSchema ::
  "tools \<Rightarrow> string option \<Rightarrow> string option \<Rightarrow> effect list \<times> (thrown + TableInfo)" where
  "getTableSchema env tableName schemaArg =
     (case validateSQLIdentifier tableName ''table name'' of
        Inl e \<Rightarrow> ([], Inl e)
      | Inr safeTableName \<Rightarrow>
     (case validateSQLIdentifier (Some (orPublic schemaArg)) ''schema name'' of
        Inl e \<Rightarrow> ([], Inl e)
      | Inr safeSchema \<Rightarrow>
     let check = checkEffect env safeTableName (Some safeSchema) in
     if \<not> tools_canAccessTable env safeTableName (Some safeSchema)
     then ([check], Inl (ErrorObj (tableAccessDenied safeTableName)))
     else
       let tablePermission = getTablePermission env safeTableName (Some safeSchema);
           blocked = (case blockedColumns tablePermission of None \<Rightarrow> [] | Some bs \<Rightarrow> bs);
           escapedTableName = escapeSQLString safeTableName;
           escapedSchema = escapeSQLString safeSchema;
           q1 = columnsSQL escapedTableName escapedSchema;
           q2 = pkSQL escapedTableName escapedSchema;
           q3 = fkSQL escapedTableName escapedSchema
       in
       (case runQuery env q1 of
          Inl e \<Rightarrow> ([check, Query q1], Inl e)
        | Inr columnsData \<Rightarrow>
       (case runQuery env q2 of
          Inl e \<Rightarrow> ([check, Query q1, Query q2], Inl e)
        | Inr pkData \<Rightarrow>
       (case runQuery env q3 of
          Inl e \<Rightarrow> ([check, Query q1, Query q2, Query q3], Inl e)
        | Inr fkData \<Rightarrow>
            ([check, Query q1, Query q2, Query q3],
             Inr \<lparr> ti_name = safeTableName, ti_schema = Some safeSchema,
                   columns = map (toColumnInfo pkData fkData)
                               (filter (\<lambda>col. \<not> isBlockedColumn blocked col) columnsData) \<rparr>))))))"

subsection \<open>The guarded query executor\<close>

definition queryAccessDenied :: "string list \<Rightarrow> string" where
  "queryAccessDenied blocked =
     ''ACCESS_DENIED: You don'' @ [CHR 0x27] @ ''t have permission to query the following table(s): ''
     @ joinWith '', '' blocked @ ''. ''
     @ ''These tables have been restricted in Security Settings. ''
     @ ''To access this data, please go to Security Settings to update table permissions, ''
     @ ''or contact your administrator to request access.''"

definition validationFailed :: "string option \<Rightarrow> string" where
  "validationFailed err =
     ''SQL validation failed: '' @ (case err of None \<Rightarrow> ''undefined'' | Some m \<Rightarrow> m)"

definition queryTimedOut :: "nat \<Rightarrow> string" where
  "queryTimedOut ms = ''Query timeout after '' @ showNat ms @ ''ms''"

text \<open>
  \<open>Promise.race([queryPromise, timeoutPromise])\<close>: the query is sent, and its outcome
  counts when the reply takes less than \<open>queryTimeout\<close> milliseconds; otherwise the timer
  rejects first. The elapsed time is the reply's latency.
\<close>

definition raceQuery :: "tools \<Rightarrow> string \<Rightarrow> thrown + row list" where
  "raceQuery env sql =
     (if latency (rpc env sql) < queryTimeout env then runQuery env sql
      else Inl (ErrorObj (queryTimedOut (queryTimeout env))))"

definition executeSQL :: "tools \<Rightarrow> string \<Rightarrow> effect list \<times> (thrown + QueryResult)" where
  "executeSQL env sql =
     (let validation = validateSQL sql in
      if \<not> valid validation then ([], Inl (ErrorObj (validationFailed (error validation))))
      else
        let (checks, accessValidation) = validateTableAccess env sql in
        if \<not> allowed accessValidation
        then (checks, Inl (ErrorObj (queryAccessDenied (blockedTables accessValidation))))
        else
          let sanitizedSQL = sanitizeSQL sql;
              limitedSQL = addDefaultLimit sanitizedSQL (maxRows env)
          in (checks @ [Query limitedSQL],
              case raceQuery env limitedSQL of
                Inl e \<Rightarrow> Inl e
              | Inr rows \<Rightarrow>
                  Inr \<lparr> data = rows, rowCount = length rows,
                        result_columns = (if length rows > 0 then map fst (hd rows) else []),
                        executionTime = latency (rpc env limitedSQL) \<rparr>))"

subsection \<open>The dispatch of a tool call\<close>

text \<open>
  The input of a tool call, with the fields the tools read; the tool catalogue declares
  each of them a string, and each may be absent.
\<close>

record tool_input =
  in_schema :: "string option"
  in_table_name :: "string option"
  in_sql :: "string option"
  in_params :: "string list option"

text \<open>
  The envelope that \<open>handleToolCall\<close> serialises with \<open>JSON.stringify\<close>:
  \<open>{success: true, ...payload}\<close> or \<open>{success: false, error}\<close>.
\<close>

datatype payload =
    TablesPayload "(string \<times> nat) list"
  | TablePayload TableInfo
  | ResultPayload QueryResult

datatype envelope = Success payload | Failure string

definition schemaOrPublic :: "string option \<Rightarrow> string" where
  "schemaOrPublic v = (case v of None \<Rightarrow> ''public'' | Some s \<Rightarrow> if s = [] then ''public'' else s)"

text \<open>The body of the \<open>try\<close> block: it may throw.\<close>

definition dispatch :: "tools \<Rightarrow> string \<Rightarrow> tool_input \<Rightarrow> effect list \<times> (thrown + envelope)" where
  "dispatch env toolName toolInput =
     (if toolName = ''list_tables'' then
        (case listTables env (Some (schemaOrPublic (in_schema toolInput))) of
           (fx, Inl e) \<Rightarrow> (fx, Inl e)
         | (fx, Inr found) \<Rightarrow>
             (fx, Inr (Success (TablesPayload (map (\<lambda>t. (ti_name t, length (columns t))) found)))))
      else if toolName = ''get_table_schema'' then
        (case getTableSchema env (in_table_name toolInput) (Some (schemaOrPublic (in_schema toolInput))) of
           (fx, Inl e) \<Rightarrow> (fx, Inl e)
         | (fx, Inr tableInfo) \<Rightarrow> (fx, Inr (Success (TablePayload tableInfo))))
      else if toolName = ''execute_sql'' then
        (case in_sql toolInput of
           None \<Rightarrow> ([], Inl (ErrorObj (''Cannot read properties of undefined (reading '' @ quoted ''toUpperCase'' @ '')'')))
         | Some sql \<Rightarrow>
             (case executeSQL env sql of
                (fx, Inl e) \<Rightarrow> (fx, Inl e)
              | (fx, Inr r) \<Rightarrow> (fx, Inr (Success (ResultPayload r)))))
      else ([], Inr (Failure (''Unknown tool: '' @ toolName))))"

text \<open>The \<open>catch\<close> clause: the message of an \<open>Error\<close>, a fixed text for any other value.\<close>

definition caught :: "thrown \<Rightarrow> envelope" where
  "caught e = Failure (case e of ErrorObj message \<Rightarrow> message | OtherValue \<Rightarrow> ''Unknown error occurred'')"

definition handleToolCall :: "tools \<Rightarrow> string \<Rightarrow> tool_input \<Rightarrow> effect list \<times> (thrown + envelope)" where
  "handleToolCall env toolName toolInput =
     (case dispatch env toolName toolInput of
        (fx, Inl e) \<Rightarrow> (fx, Inr (caught e))
      | (fx, Inr r) \<Rightarrow> (fx, Inr r))"

section \<open>Updating a permission (lib/table-permissions.ts)\<close>

text \<open>
  \<open>updateTablePermission\<close> copies the array of the configuration and writes to the copy.
  To tell a write to the copy from a write to the argument, arrays live in a store: an
  address is an index into the list of all arrays, and a configuration object holds the
  address of its \<open>tables\<close>. \<open>new Date()\<close> is the argument \<open>now\<close>.
\<close>

type_synonym store = "TablePermission list list"

record ConfigObject =
  obj_defaultAccess :: AccessLevel
  obj_tables :: nat
  obj_updatedAt :: nat

definition readConfig :: "store \<Rightarrow> ConfigObject \<Rightarrow> TablePermissionsConfig" where
  "readConfig h config =
     \<lparr> defaultAccess = obj_defaultAccess config, tables = h ! obj_tables config,
       updatedAt = obj_updatedAt config \<rparr>"

text \<open>\<open>Array.prototype.findIndex\<close>, with \<open>None\<close> for \<open>-1\<close>.\<close>

fun findIndex :: "('a \<Rightarrow> bool) \<Rightarrow> 'a list \<Rightarrow> nat option" where
  "findIndex P [] = None"
| "findIndex P (x # xs) = (if P x then Some 0 else map_option Suc (findIndex P xs))"

definition updateTablePermission ::
  "nat \<Rightarrow> store \<Rightarrow> ConfigObject \<Rightarrow> TablePermission \<Rightarrow> store \<times> ConfigObject" where
  "updateTablePermission now h config permission =
     (let existingIndex = findIndex (\<lambda>t. table t = table permission \<and> schema t = schema permission)
                            (h ! obj_tables config);
          newTables = length h;
          h1 = h @ [h ! obj_tables config];
          h2 = (case existingIndex of
                  Some i \<Rightarrow> h1[newTables := (h1 ! newTables)[i := permission]]
                | None \<Rightarrow> h1[newTables := (h1 ! newTables) @ [permission]])
      in (h2, \<lparr> obj_defaultAccess = obj_defaultAccess config, obj_tables = newTables,
                obj_updatedAt = now \<rparr>))"

text \<open>
  The invariant of a configuration: no two entries with the same (schema, table) key.
  \<open>uniqueKeys\<close> compares keys as \<open>updateTablePermission\<close> does, \<open>uniqueKeysIgnoringCase\<close>
  compares them ignoring letter case.
\<close>

definition uniqueKeys :: "TablePermission list \<Rightarrow> bool" where
  "uniqueKeys ts = distinct (map (\<lambda>t. (schema t, table t)) ts)"

definition uniqueKeysIgnoringCase :: "TablePermission list \<Rightarrow> bool" where
  "uniqueKeysIgnoringCase ts = distinct (map (\<lambda>t. (toLowerCase (schema t), toLowerCase (table t))) ts)"

section \<open>The streaming orchestrator (packages/agent/src/analyst.ts)\<close>

datatype event_type =
    EvReasoning | EvText | EvSql | EvToolCall | EvToolResult | EvData | EvChart | EvInsights
  | EvPermissionDenied | EvError | EvDone

text \<open>
  The content of an event is a string, the serialised envelope of a tool call, or
  \<open>undefined\<close> (the \<open>sql\<close> of an input without one). The data of an event is the input of
  a tool call, the result of a query, or a block that \<open>parseResponse\<close> found in the text.
\<close>

datatype event_content = Text string | Serialized envelope | Undefined

datatype event_data = InputData tool_input | ResultData QueryResult | BlockData string

record StreamEvent =
  ev_type :: event_type
  ev_content :: event_content
  ev_data :: "event_data option"

datatype content_block = TextBlock string | ToolUseBlock string string tool_input

datatype stop_reason = EndTurn | OtherStop

datatype message =
    UserMessage string
  | AssistantMessage "content_block list"
  | ToolResultMessage string envelope

text \<open>
  What the model collaborator does with one request. \<open>CallFailed\<close>: the call
  \<open>messages.stream\<close> throws. Otherwise the stream delivers \<open>items\<close>, then throws if
  \<open>broken\<close> says so, and \<open>finalMessage()\<close> gives the content and the stop reason, or throws.
\<close>

datatype stream_item =
    TextDelta string
  | InputJsonDelta
  | ToolUseStart string string
  | OtherBlockStart
  | BlockStop
  | OtherItem

record model_stream =
  items :: "stream_item list"
  broken :: "thrown option"
  finalMessage :: "thrown + (content_block list \<times> stop_reason)"

datatype model_reply = CallFailed thrown | Stream model_stream

text \<open>
  What \<open>parseResponse\<close> finds of the three blocks that \<open>chatStream\<close> reads: for each
  the content of its event (the key answer, the chart type, the message) and the block.
  The parser is a parameter of the model: it reads text with regular expressions and
  \<open>JSON.parse\<close>, inside \<open>try\<close> blocks of its own.
\<close>

record parsed_response =
  insights :: "(string \<times> string) option"
  chartSuggestion :: "(string \<times> string) option"
  permissionDenied :: "(string \<times> string) option"

record AnalystConfig =
  config_tools :: tools
  config_maxIterations :: "nat option"

record DataAnalyst =
  analyst_tools :: tools
  maxIterations :: nat
  conversationHistory :: "message list"

text \<open>\<open>config.maxIterations || 10\<close>: an absent number and \<open>0\<close> both give \<open>10\<close>.\<close>

definition newDataAnalyst :: "AnalystConfig \<Rightarrow> DataAnalyst" where
  "newDataAnalyst config =
     \<lparr> analyst_tools = config_tools config,
       maxIterations = (case config_maxIterations config of
                          None \<Rightarrow> 10 | Some n \<Rightarrow> if n = 0 then 10 else n),
       conversationHistory = [] \<rparr>"

definition emptyInput :: tool_input where
  "emptyInput = \<lparr> in_schema = None, in_table_name = None, in_sql = None, in_params = None \<rparr>"

text \<open>The \<open>for await\<close> loop over the stream: the text events, the text, the tool blocks.\<close>

fun consume :: "stream_item list \<Rightarrow> StreamEvent list \<times> string \<times> (string \<times> string \<times> tool_input) list" where
  "consume [] = ([], [], [])"
| "consume (item # rest) =
     (let (evs, currentText, toolUseBlocks) = consume rest in
      case item of
        TextDelta t \<Rightarrow>
          if t \<noteq> [] then (\<lparr> ev_type = EvText, ev_content = Text t, ev_data = None \<rparr> # evs,
                            t @ currentText, toolUseBlocks)
          else (evs, currentText, toolUseBlocks)
      | ToolUseStart i n \<Rightarrow> (evs, currentText, (i, n, emptyInput) # toolUseBlocks)
      | _ \<Rightarrow> (evs, currentText, toolUseBlocks))"

definition parsedEvents :: "parsed_response \<Rightarrow> StreamEvent list" where
  "parsedEvents parsed =
     (case insights parsed of None \<Rightarrow> []
      | Some (c, d) \<Rightarrow> [\<lparr> ev_type = EvInsights, ev_content = Text c, ev_data = Some (BlockData d) \<rparr>])
     @ (case chartSuggestion parsed of None \<Rightarrow> []
        | Some (c, d) \<Rightarrow> [\<lparr> ev_type = EvChart, ev_content = Text c, ev_data = Some (BlockData d) \<rparr>])
     @ (case permissionDenied parsed of None \<Rightarrow> []
        | Some (c, d) \<Rightarrow> [\<lparr> ev_type = EvPermissionDenied, ev_content = Text c, ev_data = Some (BlockData d) \<rparr>])"

text \<open>\<open>toolUseBlocks.find(t => t.id === block.id)\<close>, then the write to the block found.\<close>

fun setInput :: "string \<Rightarrow> tool_input \<Rightarrow> (string \<times> string \<times> tool_input) list \<Rightarrow> (string \<times> string \<times> tool_input) list" where
  "setInput i inp [] = []"
| "setInput i inp ((j, n, old) # rest) =
     (if j = i then (j, n, inp) # rest else (j, n, old) # setInput i inp rest)"

definition finalInputs ::
  "content_block list \<Rightarrow> (string \<times> string \<times> tool_input) list \<Rightarrow> (string \<times> string \<times> tool_input) list" where
  "finalInputs content toolUseBlocks =
     foldl (\<lambda>blocks b. case b of ToolUseBlock i n inp \<Rightarrow> setInput i inp blocks | TextBlock t \<Rightarrow> blocks)
       toolUseBlocks content"

text \<open>
  The loop over the tool blocks: the events of the calls, the history with the results
  appended, and what was thrown, if anything was.
\<close>

fun runTools ::
  "tools \<Rightarrow> (string \<times> string \<times> tool_input) list \<Rightarrow> message list
     \<Rightarrow> StreamEvent list \<times> message list \<times> thrown option" where
  "runTools env [] hist = ([], hist, None)"
| "runTools env ((i, n, inp) # rest) hist =
     (let before =
            \<lparr> ev_type = EvToolCall, ev_content = Text n, ev_data = Some (InputData inp) \<rparr>
            # (if n = ''execute_sql''
               then [\<lparr> ev_type = EvSql,
                       ev_content = (case in_sql inp of None \<Rightarrow> Undefined | Some q \<Rightarrow> Text q),
                       ev_data = None \<rparr>]
               else [])
      in case snd (handleToolCall env n inp) of
           Inl e \<Rightarrow> (before, hist, Some e)
         | Inr r \<Rightarrow>
             let after =
                   \<lparr> ev_type = EvToolResult, ev_content = Serialized r, ev_data = None \<rparr>
                   # (case r of
                        Success (ResultPayload q) \<Rightarrow>
                          [\<lparr> ev_type = EvData, ev_content = Text ''Query executed successfully'',
                             ev_data = Some (ResultData q) \<rparr>]
                      | _ \<Rightarrow> []);
                 (evs, hist', failure) = runTools env rest (hist @ [ToolResultMessage i r])
             in (before @ after @ evs, hist', failure))"

text \<open>
  What a request to the model throws, if it throws: the call itself, then the stream
  while it is read, then \<open>finalMessage()\<close>.
\<close>

definition replyFailure :: "model_reply \<Rightarrow> thrown option" where
  "replyFailure reply =
     (case reply of
        CallFailed e \<Rightarrow> Some e
      | Stream s \<Rightarrow>
          (case broken s of
             Some e \<Rightarrow> Some e
           | None \<Rightarrow> (case finalMessage s of Inl e \<Rightarrow> Some e | Inr final \<Rightarrow> None)))"

text \<open>
  The outcome of a turn: the events yielded, the histories sent to the model, one for
  each request and in order, their number, the history at the end, and what the generator
  threw, if it threw.
\<close>

record turn =
  events :: "StreamEvent list"
  requests :: "message list list"
  modelCalls :: nat
  history :: "message list"
  failure :: "thrown option"

text \<open>
  The \<open>while (iterations < this.maxIterations)\<close> loop, by the number of iterations that
  are left. A turn that throws keeps the events it has yielded.
\<close>

fun iterate ::
  "(message list \<Rightarrow> model_reply) \<Rightarrow> (string \<Rightarrow> parsed_response) \<Rightarrow> tools \<Rightarrow> nat \<Rightarrow> message list \<Rightarrow> turn" where
  "iterate model parseResponse env 0 hist =
     \<lparr> events = [], requests = [], modelCalls = 0, history = hist, failure = None \<rparr>"
| "iterate model parseResponse env (Suc left) hist =
     (case model hist of
        CallFailed e \<Rightarrow>
          \<lparr> events = [], requests = [hist], modelCalls = 1, history = hist, failure = Some e \<rparr>
      | Stream s \<Rightarrow>
          let (textEvents, currentText, toolUseBlocks) = consume (items s) in
          (case broken s of
             Some e \<Rightarrow>
               \<lparr> events = textEvents, requests = [hist], modelCalls = 1, history = hist,
                 failure = Some e \<rparr>
           | None \<Rightarrow>
          (case finalMessage s of
             Inl e \<Rightarrow>
               \<lparr> events = textEvents, requests = [hist], modelCalls = 1, history = hist,
                 failure = Some e \<rparr>
           | Inr (content, stop) \<Rightarrow>
               let evs = textEvents @ parsedEvents (parseResponse currentText);
                   hist1 = hist @ [AssistantMessage content]
               in if toolUseBlocks \<noteq> [] then
                    (case runTools env (finalInputs content toolUseBlocks) hist1 of
                       (toolEvents, hist2, Some e) \<Rightarrow>
                         \<lparr> events = evs @ toolEvents, requests = [hist], modelCalls = 1,
                           history = hist2, failure = Some e \<rparr>
                     | (toolEvents, hist2, None) \<Rightarrow>
                         if stop \<noteq> EndTurn then
                           (let next = iterate model parseResponse env left hist2 in
                            next \<lparr> events := evs @ toolEvents @ events next,
                                   requests := hist # requests next,
                                   modelCalls := Suc (modelCalls next) \<rparr>)
                         else \<lparr> events = evs @ toolEvents, requests = [hist], modelCalls = 1,
                                history = hist2, failure = None \<rparr>)
                  else \<lparr> events = evs, requests = [hist], modelCalls = 1, history = hist1,
                         failure = None \<rparr>)))"

definition doneEvent :: StreamEvent where
  "doneEvent = \<lparr> ev_type = EvDone, ev_content = Text ''Analysis complete'', ev_data = None \<rparr>"

definition chatStream ::
  "(message list \<Rightarrow> model_reply) \<Rightarrow> (string \<Rightarrow> parsed_response) \<Rightarrow> DataAnalyst \<Rightarrow> string \<Rightarrow> turn" where
  "chatStream model parseResponse analyst userMessage =
     (let t = iterate model parseResponse (analyst_tools analyst) (maxIterations analyst)
                (conversationHistory analyst @ [UserMessage userMessage])
      in if failure t = None then t \<lparr> events := events t @ [doneEvent] \<rparr> else t)"

section \<open>Example configurations\<close>

text \<open>
  The policy of the specification's examples: every table can be read but \<open>users\<close>.
  The example backend answers every query with the same two rows after 5 ms.
\<close>

definition usersHidden :: TablePermissionsConfig where
  "usersHidden =
     \<lparr> defaultAccess = Read,
       tables = [\<lparr> table = ''users'', schema = ''public'', accessLevel = NoAccess,
                  allowedColumns = None, blockedColumns = None, description = None \<rparr>],
       updatedAt = 0 \<rparr>"

definition catalogRows :: "row list" where
  "catalogRows = [[(''name'', JString ''users''), (''schema'', JString ''public'')],
                  [(''name'', JString ''orders''), (''schema'', JString ''public'')]]"

definition exampleTools :: tools where
  "exampleTools =
     \<lparr> rpc = (\<lambda>q. \<lparr> result = RpcData (DataArray catalogRows), latency = 5 \<rparr>),
       queryTimeout = 30000, maxRows = 1000, permissions = usersHidden \<rparr>"

text \<open>A policy whose entry is written with a capital letter.\<close>

definition capitalUsersHidden :: TablePermissionsConfig where
  "capitalUsersHidden =
     \<lparr> defaultAccess = Read,
       tables = [\<lparr> table = ''Users'', schema = ''public'', accessLevel = NoAccess,
                  allowedColumns = None, blockedColumns = None, description = None \<rparr>],
       updatedAt = 0 \<rparr>"

text \<open>A policy for \<open>people\<close>: \<open>ssn\<close> is blocked, and only \<open>name\<close> and \<open>email\<close> are allowed.\<close>

definition peopleColumns :: TablePermissionsConfig where
  "peopleColumns =
     \<lparr> defaultAccess = Read,
       tables = [\<lparr> table = ''people'', schema = ''public'', accessLevel = Read,
                  allowedColumns = Some [''name'', ''email''], blockedColumns = Some [''ssn''],
                  description = None \<rparr>],
       updatedAt = 0 \<rparr>"

text \<open>
  Tools under the \<open>people\<close> policy, with a backend that answers every query with the four
  columns of \<open>people\<close>; and tools under a policy that denies every table.
\<close>

definition peopleRows :: "row list" where
  "peopleRows = [[(''name'', JString ''name'')], [(''name'', JString ''email'')],
                 [(''name'', JString ''phone'')], [(''name'', JString ''ssn'')]]"

definition peopleTools :: tools where
  "peopleTools =
     \<lparr> rpc = (\<lambda>q. \<lparr> result = RpcData (DataArray peopleRows), latency = 5 \<rparr>),
       queryTimeout = 30000, maxRows = 1000, permissions = peopleColumns \<rparr>"

definition closedTools :: tools where
  "closedTools =
     \<lparr> rpc = (\<lambda>q. \<lparr> result = RpcData (DataArray []), latency = 5 \<rparr>),
       queryTimeout = 30000, maxRows = 1000,
       permissions = \<lparr> defaultAccess = NoAccess, tables = [], updatedAt = 0 \<rparr> \<rparr>"

text \<open>
  A store whose only array is the table list of \<open>capitalUsersHidden\<close>, the configuration
  object that holds it, and two permissions to upsert: one for \<open>users\<close> in lower case,
  one that replaces the entry of \<open>Users\<close>.
\<close>

definition capitalStore :: store where
  "capitalStore = [tables capitalUsersHidden]"

definition capitalObject :: ConfigObject where
  "capitalObject = \<lparr> obj_defaultAccess = Read, obj_tables = 0, obj_updatedAt = 0 \<rparr>"

definition lowerUsersRead :: TablePermission where
  "lowerUsersRead = \<lparr> table = ''users'', schema = ''public'', accessLevel = Read,
                       allowedColumns = None, blockedColumns = None, description = None \<rparr>"

definition capitalUsersRead :: TablePermission where
  "capitalUsersRead = \<lparr> table = ''Users'', schema = ''public'', accessLevel = Read,
                         allowedColumns = None, blockedColumns = None, description = None \<rparr>"

text \<open>
  Two model collaborators: one whose every call fails, and one that asks for
  \<open>list_tables\<close> in every response and never ends the turn. The example parser finds no
  block; the example analyst has the example tools and a cap of two iterations.
\<close>

definition failingModel :: "message list \<Rightarrow> model_reply" where
  "failingModel hist = CallFailed (ErrorObj ''overloaded'')"

definition askingModel :: "message list \<Rightarrow> model_reply" where
  "askingModel hist =
     Stream \<lparr> items = [TextDelta ''Looking.'', ToolUseStart ''t1'' ''list_tables'', BlockStop],
              broken = None,
              finalMessage = Inr ([TextBlock ''Looking.'', ToolUseBlock ''t1'' ''list_tables'' emptyInput],
                                  OtherStop) \<rparr>"

definition noBlocks :: "string \<Rightarrow> parsed_response" where
  "noBlocks currentText = \<lparr> insights = None, chartSuggestion = None, permissionDenied = None \<rparr>"

definition exampleAnalyst :: DataAnalyst where
  "exampleAnalyst = newDataAnalyst \<lparr> config_tools = exampleTools, config_maxIterations = Some 2 \<rparr>"

text \<open>
  The example tools with a timer of 3 ms, which the backend's 5 ms miss; and tools whose
  backend answers every query with an error.
\<close>

definition slowTools :: tools where
  "slowTools = exampleTools \<lparr> queryTimeout := 3 \<rparr>"

definition brokenTools :: tools where
  "brokenTools =
     \<lparr> rpc = (\<lambda>q. \<lparr> result = RpcError ''connection refused'', latency = 5 \<rparr>),
       queryTimeout = 30000, maxRows = 1000, permissions = usersHidden \<rparr>"

text \<open>A query whose table name follows \<open>FROM\<close> after a no-break space (U+00A0).\<close>

definition noBreakQuery :: string where
  "noBreakQuery = ''SELECT * FROM'' @ [CHR 0xA0] @ ''users''"

text \<open>
  Two texts with a no-break space: one before \<open>select\<close>, one between a semicolon and
  \<open>drop\<close>.
\<close>

definition noBreakSelect :: string where
  "noBreakSelect = [CHR 0xA0] @ ''select 1''"

definition noBreakDrop :: string where
  "noBreakDrop = ''select 1;'' @ [CHR 0xA0] @ ''drop table t''"

text \<open>A model whose stream delivers one text fragment and then breaks.\<close>

definition breakingModel :: "message list \<Rightarrow> model_reply" where
  "breakingModel hist =
     Stream \<lparr> items = [TextDelta ''Let me''], broken = Some (ErrorObj ''socket hang up''),
              finalMessage = Inl (ErrorObj ''stream ended'') \<rparr>"

text \<open>
  The query \<open>SELECT * FROM "orders" WHERE note = 'from users'\<close>: its one table is written
  as a quoted identifier, and the word \<open>from\<close> occurs in a string literal.
\<close>

definition literalFromQuery :: string where
  "literalFromQuery =
     ''SELECT * FROM '' @ [CHR 0x22] @ ''orders'' @ [CHR 0x22] @ '' WHERE note = ''
     @ [CHR 0x27] @ ''from users'' @ [CHR 0x27]"

text \<open>
  The query \<open>SELECT EXTRACT(YEAR FROM created_at) FROM "users"\<close>: its one table is written
  as a quoted identifier, and the word \<open>FROM\<close> occurs in a function call.
\<close>

definition extractYearQuery :: string where
  "extractYearQuery =
     ''SELECT EXTRACT(YEAR FROM created_at) FROM '' @ [CHR 0x22] @ ''users'' @ [CHR 0x22]"

text \<open>The query \<open>SELECT * FROM "users"\<close>, its table written as a quoted identifier.\<close>

definition quotedUsersQuery :: string where
  "quotedUsersQuery = ''SELECT * FROM '' @ [CHR 0x22] @ ''users'' @ [CHR 0x22]"

section \<open>Queries whose table references are quoted\<close>

text \<open>
  \<open>referencesQuoted keyword prev s\<close>: wherever the keyword stands in \<open>s\<close> as the start of a
  word (ignoring case) with white space after it, what follows the white space, if
  anything does, is a double quote. \<open>prev\<close> is the character before \<open>s\<close>.
\<close>

fun referencesQuoted :: "string \<Rightarrow> char option \<Rightarrow> string \<Rightarrow> bool" where
  "referencesQuoted keyword prev [] = True"
| "referencesQuoted keyword prev (c # cs) =
     ((if \<not> (case prev of None \<Rightarrow> False | Some p \<Rightarrow> isWordChar p)
          \<and> length keyword \<le> length (c # cs)
          \<and> toLowerCase (take (length keyword) (c # cs)) = toLowerCase keyword
          \<and> takeWhile isSpace (drop (length keyword) (c # cs)) \<noteq> []
       then (case dropWhile isSpace (drop (length keyword) (c # cs)) of
               [] \<Rightarrow> True
             | d # _ \<Rightarrow> d = CHR 0x22)
       else True)
      \<and> referencesQuoted keyword (Some c) cs)"

section \<open>Evaluation\<close>

text \<open>
  The character functions at the characters of ASCII text and at the no-break space, for
  the evaluation of the definitions on example texts.
\<close>

lemma upper_chars:
  "toUpperChar (CHR 0x09) = CHR 0x09"
  "toUpperChar (CHR 0x0A) = CHR 0x0A"
  "toUpperChar (CHR 0x0B) = CHR 0x0B"
  "toUpperChar (CHR 0x0C) = CHR 0x0C"
  "toUpperChar (CHR 0x0D) = CHR 0x0D"
  "toUpperChar (CHR 0x20) = CHR 0x20"
  "toUpperChar (CHR 0x21) = CHR 0x21"
  "toUpperChar (CHR 0x22) = CHR 0x22"
  "toUpperChar (CHR 0x23) = CHR 0x23"
  "toUpperChar (CHR 0x24) = CHR 0x24"
  "toUpperChar (CHR 0x25) = CHR 0x25"
  "toUpperChar (CHR 0x26) = CHR 0x26"
  "toUpperChar (CHR 0x27) = CHR 0x27"
  "toUpperChar (CHR 0x28) = CHR 0x28"
  "toUpperChar (CHR 0x29) = CHR 0x29"
  "toUpperChar (CHR 0x2A) = CHR 0x2A"
  "toUpperChar (CHR 0x2B) = CHR 0x2B"
  "toUpperChar (CHR 0x2C) = CHR 0x2C"
  "toUpperChar (CHR 0x2D) = CHR 0x2D"
  "toUpperChar (CHR 0x2E) = CHR 0x2E"
  "toUpperChar (CHR 0x2F) = CHR 0x2F"
  "toUpperChar (CHR 0x30) = CHR 0x30"
  "toUpperChar (CHR 0x31) = CHR 0x31"
  "toUpperChar (CHR 0x32) = CHR 0x32"
  "toUpperChar (CHR 0x33) = CHR 0x33"
  "toUpperChar (CHR 0x34) = CHR 0x34"
  "toUpperChar (CHR 0x35) = CHR 0x35"
  "toUpperChar (CHR 0x36) = CHR 0x36"
  "toUpperChar (CHR 0x37) = CHR 0x37"
  "toUpperChar (CHR 0x38) = CHR 0x38"
  "toUpperChar (CHR 0x39) = CHR 0x39"
  "toUpperChar (CHR 0x3A) = CHR 0x3A"
  "toUpperChar (CHR 0x3B) = CHR 0x3B"
  "toUpperChar (CHR 0x3C) = CHR 0x3C"
  "toUpperChar (CHR 0x3D) = CHR 0x3D"
  "toUpperChar (CHR 0x3E) = CHR 0x3E"
  "toUpperChar (CHR 0x3F) = CHR 0x3F"
  "toUpperChar (CHR 0x40) = CHR 0x40"
  "toUpperChar (CHR 0x41) = CHR 0x41"
  "toUpperChar (CHR 0x42) = CHR 0x42"
  "toUpperChar (CHR 0x43) = CHR 0x43"
  "toUpperChar (CHR 0x44) = CHR 0x44"
  "toUpperChar (CHR 0x45) = CHR 0x45"
  "toUpperChar (CHR 0x46) = CHR 0x46"
  "toUpperChar (CHR 0x47) = CHR 0x47"
  "toUpperChar (CHR 0x48) = CHR 0x48"
  "toUpperChar (CHR 0x49) = CHR 0x49"
  "toUpperChar (CHR 0x4A) = CHR 0x4A"
  "toUpperChar (CHR 0x4B) = CHR 0x4B"
  "toUpperChar (CHR 0x4C) = CHR 0x4C"
  "toUpperChar (CHR 0x4D) = CHR 0x4D"
  "toUpperChar (CHR 0x4E) = CHR 0x4E"
  "toUpperChar (CHR 0x4F) = CHR 0x4F"
  "toUpperChar (CHR 0x50) = CHR 0x50"
  "toUpperChar (CHR 0x51) = CHR 0x51"
  "toUpperChar (CHR 0x52) = CHR 0x52"
  "toUpperChar (CHR 0x53) = CHR 0x53"
  "toUpperChar (CHR 0x54) = CHR 0x54"
  "toUpperChar (CHR 0x55) = CHR 0x55"
  "toUpperChar (CHR 0x56) = CHR 0x56"
  "toUpperChar (CHR 0x57) = CHR 0x57"
  "toUpperChar (CHR 0x58) = CHR 0x58"
  "toUpperChar (CHR 0x59) = CHR 0x59"
  "toUpperChar (CHR 0x5A) = CHR 0x5A"
  "toUpperChar (CHR 0x5B) = CHR 0x5B"
  "toUpperChar (CHR 0x5C) = CHR 0x5C"
  "toUpperChar (CHR 0x5D) = CHR 0x5D"
  "toUpperChar (CHR 0x5E) = CHR 0x5E"
  "toUpperChar (CHR 0x5F) = CHR 0x5F"
  "toUpperChar (CHR 0x60) = CHR 0x60"
  "toUpperChar (CHR 0x61) = CHR 0x41"
  "toUpperChar (CHR 0x62) = CHR 0x42"
  "toUpperChar (CHR 0x63) = CHR 0x43"
  "toUpperChar (CHR 0x64) = CHR 0x44"
  "toUpperChar (CHR 0x65) = CHR 0x45"
  "toUpperChar (CHR 0x66) = CHR 0x46"
  "toUpperChar (CHR 0x67) = CHR 0x47"
  "toUpperChar (CHR 0x68) = CHR 0x48"
  "toUpperChar (CHR 0x69) = CHR 0x49"
  "toUpperChar (CHR 0x6A) = CHR 0x4A"
  "toUpperChar (CHR 0x6B) = CHR 0x4B"
  "toUpperChar (CHR 0x6C) = CHR 0x4C"
  "toUpperChar (CHR 0x6D) = CHR 0x4D"
  "toUpperChar (CHR 0x6E) = CHR 0x4E"
  "toUpperChar (CHR 0x6F) = CHR 0x4F"
  "toUpperChar (CHR 0x70) = CHR 0x50"
  "toUpperChar (CHR 0x71) = CHR 0x51"
  "toUpperChar (CHR 0x72) = CHR 0x52"
  "toUpperChar (CHR 0x73) = CHR 0x53"
  "toUpperChar (CHR 0x74) = CHR 0x54"
  "toUpperChar (CHR 0x75) = CHR 0x55"
  "toUpperChar (CHR 0x76) = CHR 0x56"
  "toUpperChar (CHR 0x77) = CHR 0x57"
  "toUpperChar (CHR 0x78) = CHR 0x58"
  "toUpperChar (CHR 0x79) = CHR 0x59"
  "toUpperChar (CHR 0x7A) = CHR 0x5A"
  "toUpperChar (CHR 0x7B) = CHR 0x7B"
  "toUpperChar (CHR 0x7C) = CHR 0x7C"
  "toUpperChar (CHR 0x7D) = CHR 0x7D"
  "toUpperChar (CHR 0x7E) = CHR 0x7E"
  "toUpperChar (CHR 0xA0) = CHR 0xA0"
  by (simp_all add: toUpperChar_def lowerLetters_def upperLetters_def lowerLatin_def upperLatin_def)

lemma lower_chars:
  "toLowerChar (CHR 0x09) = CHR 0x09"
  "toLowerChar (CHR 0x0A) = CHR 0x0A"
  "toLowerChar (CHR 0x0B) = CHR 0x0B"
  "toLowerChar (CHR 0x0C) = CHR 0x0C"
  "toLowerChar (CHR 0x0D) = CHR 0x0D"
  "toLowerChar (CHR 0x20) = CHR 0x20"
  "toLowerChar (CHR 0x21) = CHR 0x21"
  "toLowerChar (CHR 0x22) = CHR 0x22"
  "toLowerChar (CHR 0x23) = CHR 0x23"
  "toLowerChar (CHR 0x24) = CHR 0x24"
  "toLowerChar (CHR 0x25) = CHR 0x25"
  "toLowerChar (CHR 0x26) = CHR 0x26"
  "toLowerChar (CHR 0x27) = CHR 0x27"
  "toLowerChar (CHR 0x28) = CHR 0x28"
  "toLowerChar (CHR 0x29) = CHR 0x29"
  "toLowerChar (CHR 0x2A) = CHR 0x2A"
  "toLowerChar (CHR 0x2B) = CHR 0x2B"
  "toLowerChar (CHR 0x2C) = CHR 0x2C"
  "toLowerChar (CHR 0x2D) = CHR 0x2D"
  "toLowerChar (CHR 0x2E) = CHR 0x2E"
  "toLowerChar (CHR 0x2F) = CHR 0x2F"
  "toLowerChar (CHR 0x30) = CHR 0x30"
  "toLowerChar (CHR 0x31) = CHR 0x31"
  "toLowerChar (CHR 0x32) = CHR 0x32"
  "toLowerChar (CHR 0x33) = CHR 0x33"
  "toLowerChar (CHR 0x34) = CHR 0x34"
  "toLowerChar (CHR 0x35) = CHR 0x35"
  "toLowerChar (CHR 0x36) = CHR 0x36"
  "toLowerChar (CHR 0x37) = CHR 0x37"
  "toLowerChar (CHR 0x38) = CHR 0x38"
  "toLowerChar (CHR 0x39) = CHR 0x39"
  "toLowerChar (CHR 0x3A) = CHR 0x3A"
  "toLowerChar (CHR 0x3B) = CHR 0x3B"
  "toLowerChar (CHR 0x3C) = CHR 0x3C"
  "toLowerChar (CHR 0x3D) = CHR 0x3D"
  "toLowerChar (CHR 0x3E) = CHR 0x3E"
  "toLowerChar (CHR 0x3F) = CHR 0x3F"
  "toLowerChar (CHR 0x40) = CHR 0x40"
  "toLowerChar (CHR 0x41) = CHR 0x61"
  "toLowerChar (CHR 0x42) = CHR 0x62"
  "toLowerChar (CHR 0x43) = CHR 0x63"
  "toLowerChar (CHR 0x44) = CHR 0x64"
  "toLowerChar (CHR 0x45) = CHR 0x65"
  "toLowerChar (CHR 0x46) = CHR 0x66"
  "toLowerChar (CHR 0x47) = CHR 0x67"
  "toLowerChar (CHR 0x48) = CHR 0x68"
  "toLowerChar (CHR 0x49) = CHR 0x69"
  "toLowerChar (CHR 0x4A) = CHR 0x6A"
  "toLowerChar (CHR 0x4B) = CHR 0x6B"
  "toLowerChar (CHR 0x4C) = CHR 0x6C"
  "toLowerChar (CHR 0x4D) = CHR 0x6D"
  "toLowerChar (CHR 0x4E) = CHR 0x6E"
  "toLowerChar (CHR 0x4F) = CHR 0x6F"
  "toLowerChar (CHR 0x50) = CHR 0x70"
  "toLowerChar (CHR 0x51) = CHR 0x71"
  "toLowerChar (CHR 0x52) = CHR 0x72"
  "toLowerChar (CHR 0x53) = CHR 0x73"
  "toLowerChar (CHR 0x54) = CHR 0x74"
  "toLowerChar (CHR 0x55) = CHR 0x75"
  "toLowerChar (CHR 0x56) = CHR 0x76"
  "toLowerChar (CHR 0x57) = CHR 0x77"
  "toLowerChar (CHR 0x58) = CHR 0x78"
  "toLowerChar (CHR 0x59) = CHR 0x79"
  "toLowerChar (CHR 0x5A) = CHR 0x7A"
  "toLowerChar (CHR 0x5B) = CHR 0x5B"
  "toLowerChar (CHR 0x5C) = CHR 0x5C"
  "toLowerChar (CHR 0x5D) = CHR 0x5D"
  "toLowerChar (CHR 0x5E) = CHR 0x5E"
  "toLowerChar (CHR 0x5F) = CHR 0x5F"
  "toLowerChar (CHR 0x60) = CHR 0x60"
  "toLowerChar (CHR 0x61) = CHR 0x61"
  "toLowerChar (CHR 0x62) = CHR 0x62"
  "toLowerChar (CHR 0x63) = CHR 0x63"
  "toLowerChar (CHR 0x64) = CHR 0x64"
  "toLowerChar (CHR 0x65) = CHR 0x65"
  "toLowerChar (CHR 0x66) = CHR 0x66"
  "toLowerChar (CHR 0x67) = CHR 0x67"
  "toLowerChar (CHR 0x68) = CHR 0x68"
  "toLowerChar (CHR 0x69) = CHR 0x69"
  "toLowerChar (CHR 0x6A) = CHR 0x6A"
  "toLowerChar (CHR 0x6B) = CHR 0x6B"
  "toLowerChar (CHR 0x6C) = CHR 0x6C"
  "toLowerChar (CHR 0x6D) = CHR 0x6D"
  "toLowerChar (CHR 0x6E) = CHR 0x6E"
  "toLowerChar (CHR 0x6F) = CHR 0x6F"
  "toLowerChar (CHR 0x70) = CHR 0x70"
  "toLowerChar (CHR 0x71) = CHR 0x71"
  "toLowerChar (CHR 0x72) = CHR 0x72"
  "toLowerChar (CHR 0x73) = CHR 0x73"
  "toLowerChar (CHR 0x74) = CHR 0x74"
  "toLowerChar (CHR 0x75) = CHR 0x75"
  "toLowerChar (CHR 0x76) = CHR 0x76"
  "toLowerChar (CHR 0x77) = CHR 0x77"
  "toLowerChar (CHR 0x78) = CHR 0x78"
  "toLowerChar (CHR 0x79) = CHR 0x79"
  "toLowerChar (CHR 0x7A) = CHR 0x7A"
  "toLowerChar (CHR 0x7B) = CHR 0x7B"
  "toLowerChar (CHR 0x7C) = CHR 0x7C"
  "toLowerChar (CHR 0x7D) = CHR 0x7D"
  "toLowerChar (CHR 0x7E) = CHR 0x7E"
  "toLowerChar (CHR 0xA0) = CHR 0xA0"
  by (simp_all add: toLowerChar_def lowerLetters_def upperLetters_def lowerLatin_def upperLatin_def)

lemma upperOf_chars:
  "upperOf (CHR 0x09) = [CHR 0x09]"
  "upperOf (CHR 0x0A) = [CHR 0x0A]"
  "upperOf (CHR 0x0B) = [CHR 0x0B]"
  "upperOf (CHR 0x0C) = [CHR 0x0C]"
  "upperOf (CHR 0x0D) = [CHR 0x0D]"
  "upperOf (CHR 0x20) = [CHR 0x20]"
  "upperOf (CHR 0x21) = [CHR 0x21]"
  "upperOf (CHR 0x22) = [CHR 0x22]"
  "upperOf (CHR 0x23) = [CHR 0x23]"
  "upperOf (CHR 0x24) = [CHR 0x24]"
  "upperOf (CHR 0x25) = [CHR 0x25]"
  "upperOf (CHR 0x26) = [CHR 0x26]"
  "upperOf (CHR 0x27) = [CHR 0x27]"
  "upperOf (CHR 0x28) = [CHR 0x28]"
  "upperOf (CHR 0x29) = [CHR 0x29]"
  "upperOf (CHR 0x2A) = [CHR 0x2A]"
  "upperOf (CHR 0x2B) = [CHR 0x2B]"
  "upperOf (CHR 0x2C) = [CHR 0x2C]"
  "upperOf (CHR 0x2D) = [CHR 0x2D]"
  "upperOf (CHR 0x2E) = [CHR 0x2E]"
  "upperOf (CHR 0x2F) = [CHR 0x2F]"
  "upperOf (CHR 0x30) = [CHR 0x30]"
  "upperOf (CHR 0x31) = [CHR 0x31]"
  "upperOf (CHR 0x32) = [CHR 0x32]"
  "upperOf (CHR 0x33) = [CHR 0x33]"
  "upperOf (CHR 0x34) = [CHR 0x34]"
  "upperOf (CHR 0x35) = [CHR 0x35]"
  "upperOf (CHR 0x36) = [CHR 0x36]"
  "upperOf (CHR 0x37) = [CHR 0x37]"
  "upperOf (CHR 0x38) = [CHR 0x38]"
  "upperOf (CHR 0x39) = [CHR 0x39]"
  "upperOf (CHR 0x3A) = [CHR 0x3A]"
  "upperOf (CHR 0x3B) = [CHR 0x3B]"
  "upperOf (CHR 0x3C) = [CHR 0x3C]"
  "upperOf (CHR 0x3D) = [CHR 0x3D]"
  "upperOf (CHR 0x3E) = [CHR 0x3E]"
  "upperOf (CHR 0x3F) = [CHR 0x3F]"
  "upperOf (CHR 0x40) = [CHR 0x40]"
  "upperOf (CHR 0x41) = [CHR 0x41]"
  "upperOf (CHR 0x42) = [CHR 0x42]"
  "upperOf (CHR 0x43) = [CHR 0x43]"
  "upperOf (CHR 0x44) = [CHR 0x44]"
  "upperOf (CHR 0x45) = [CHR 0x45]"
  "upperOf (CHR 0x46) = [CHR 0x46]"
  "upperOf (CHR 0x47) = [CHR 0x47]"
  "upperOf (CHR 0x48) = [CHR 0x48]"
  "upperOf (CHR 0x49) = [CHR 0x49]"
  "upperOf (CHR 0x4A) = [CHR 0x4A]"
  "upperOf (CHR 0x4B) = [CHR 0x4B]"
  "upperOf (CHR 0x4C) = [CHR 0x4C]"
  "upperOf (CHR 0x4D) = [CHR 0x4D]"
  "upperOf (CHR 0x4E) = [CHR 0x4E]"
  "upperOf (CHR 0x4F) = [CHR 0x4F]"
  "upperOf (CHR 0x50) = [CHR 0x50]"
  "upperOf (CHR 0x51) = [CHR 0x51]"
  "upperOf (CHR 0x52) = [CHR 0x52]"
  "upperOf (CHR 0x53) = [CHR 0x53]"
  "upperOf (CHR 0x54) = [CHR 0x54]"
  "upperOf (CHR 0x55) = [CHR 0x55]"
  "upperOf (CHR 0x56) = [CHR 0x56]"
  "upperOf (CHR 0x57) = [CHR 0x57]"
  "upperOf (CHR 0x58) = [CHR 0x58]"
  "upperOf (CHR 0x59) = [CHR 0x59]"
  "upperOf (CHR 0x5A) = [CHR 0x5A]"
  "upperOf (CHR 0x5B) = [CHR 0x5B]"
  "upperOf (CHR 0x5C) = [CHR 0x5C]"
  "upperOf (CHR 0x5D) = [CHR 0x5D]"
  "upperOf (CHR 0x5E) = [CHR 0x5E]"
  "upperOf (CHR 0x5F) = [CHR 0x5F]"
  "upperOf (CHR 0x60) = [CHR 0x60]"
  "upperOf (CHR 0x61) = [CHR 0x41]"
  "upperOf (CHR 0x62) = [CHR 0x42]"
  "upperOf (CHR 0x63) = [CHR 0x43]"
  "upperOf (CHR 0x64) = [CHR 0x44]"
  "upperOf (CHR 0x65) = [CHR 0x45]"
  "upperOf (CHR 0x66) = [CHR 0x46]"
  "upperOf (CHR 0x67) = [CHR 0x47]"
  "upperOf (CHR 0x68) = [CHR 0x48]"
  "upperOf (CHR 0x69) = [CHR 0x49]"
  "upperOf (CHR 0x6A) = [CHR 0x4A]"
  "upperOf (CHR 0x6B) = [CHR 0x4B]"
  "upperOf (CHR 0x6C) = [CHR 0x4C]"
  "upperOf (CHR 0x6D) = [CHR 0x4D]"
  "upperOf (CHR 0x6E) = [CHR 0x4E]"
  "upperOf (CHR 0x6F) = [CHR 0x4F]"
  "upperOf (CHR 0x70) = [CHR 0x50]"
  "upperOf (CHR 0x71) = [CHR 0x51]"
  "upperOf (CHR 0x72) = [CHR 0x52]"
  "upperOf (CHR 0x73) = [CHR 0x53]"
  "upperOf (CHR 0x74) = [CHR 0x54]"
  "upperOf (CHR 0x75) = [CHR 0x55]"
  "upperOf (CHR 0x76) = [CHR 0x56]"
  "upperOf (CHR 0x77) = [CHR 0x57]"
  "upperOf (CHR 0x78) = [CHR 0x58]"
  "upperOf (CHR 0x79) = [CHR 0x59]"
  "upperOf (CHR 0x7A) = [CHR 0x5A]"
  "upperOf (CHR 0x7B) = [CHR 0x7B]"
  "upperOf (CHR 0x7C) = [CHR 0x7C]"
  "upperOf (CHR 0x7D) = [CHR 0x7D]"
  "upperOf (CHR 0x7E) = [CHR 0x7E]"
  "upperOf (CHR 0xA0) = [CHR 0xA0]"
  by (simp_all add: upperOf_def upper_chars)

lemma space_chars:
  "isSpace (CHR 0x09)"
  "isSpace (CHR 0x0A)"
  "isSpace (CHR 0x0B)"
  "isSpace (CHR 0x0C)"
  "isSpace (CHR 0x0D)"
  "isSpace (CHR 0x20)"
  "\<not> isSpace (CHR 0x21)"
  "\<not> isSpace (CHR 0x22)"
  "\<not> isSpace (CHR 0x23)"
  "\<not> isSpace (CHR 0x24)"
  "\<not> isSpace (CHR 0x25)"
  "\<not> isSpace (CHR 0x26)"
  "\<not> isSpace (CHR 0x27)"
  "\<not> isSpace (CHR 0x28)"
  "\<not> isSpace (CHR 0x29)"
  "\<not> isSpace (CHR 0x2A)"
  "\<not> isSpace (CHR 0x2B)"
  "\<not> isSpace (CHR 0x2C)"
  "\<not> isSpace (CHR 0x2D)"
  "\<not> isSpace (CHR 0x2E)"
  "\<not> isSpace (CHR 0x2F)"
  "\<not> isSpace (CHR 0x30)"
  "\<not> isSpace (CHR 0x31)"
  "\<not> isSpace (CHR 0x32)"
  "\<not> isSpace (CHR 0x33)"
  "\<not> isSpace (CHR 0x34)"
  "\<not> isSpace (CHR 0x35)"
  "\<not> isSpace (CHR 0x36)"
  "\<not> isSpace (CHR 0x37)"
  "\<not> isSpace (CHR 0x38)"
  "\<not> isSpace (CHR 0x39)"
  "\<not> isSpace (CHR 0x3A)"
  "\<not> isSpace (CHR 0x3B)"
  "\<not> isSpace (CHR 0x3C)"
  "\<not> isSpace (CHR 0x3D)"
  "\<not> isSpace (CHR 0x3E)"
  "\<not> isSpace (CHR 0x3F)"
  "\<not> isSpace (CHR 0x40)"
  "\<not> isSpace (CHR 0x41)"
  "\<not> isSpace (CHR 0x42)"
  "\<not> isSpace (CHR 0x43)"
  "\<not> isSpace (CHR 0x44)"
  "\<not> isSpace (CHR 0x45)"
  "\<not> isSpace (CHR 0x46)"
  "\<not> isSpace (CHR 0x47)"
  "\<not> isSpace (CHR 0x48)"
  "\<not> isSpace (CHR 0x49)"
  "\<not> isSpace (CHR 0x4A)"
  "\<not> isSpace (CHR 0x4B)"
  "\<not> isSpace (CHR 0x4C)"
  "\<not> isSpace (CHR 0x4D)"
  "\<not> isSpace (CHR 0x4E)"
  "\<not> isSpace (CHR 0x4F)"
  "\<not> isSpace (CHR 0x50)"
  "\<not> isSpace (CHR 0x51)"
  "\<not> isSpace (CHR 0x52)"
  "\<not> isSpace (CHR 0x53)"
  "\<not> isSpace (CHR 0x54)"
  "\<not> isSpace (CHR 0x55)"
  "\<not> isSpace (CHR 0x56)"
  "\<not> isSpace (CHR 0x57)"
  "\<not> isSpace (CHR 0x58)"
  "\<not> isSpace (CHR 0x59)"
  "\<not> isSpace (CHR 0x5A)"
  "\<not> isSpace (CHR 0x5B)"
  "\<not> isSpace (CHR 0x5C)"
  "\<not> isSpace (CHR 0x5D)"
  "\<not> isSpace (CHR 0x5E)"
  "\<not> isSpace (CHR 0x5F)"
  "\<not> isSpace (CHR 0x60)"
  "\<not> isSpace (CHR 0x61)"
  "\<not> isSpace (CHR 0x62)"
  "\<not> isSpace (CHR 0x63)"
  "\<not> isSpace (CHR 0x64)"
  "\<not> isSpace (CHR 0x65)"
  "\<not> isSpace (CHR 0x66)"
  "\<not> isSpace (CHR 0x67)"
  "\<not> isSpace (CHR 0x68)"
  "\<not> isSpace (CHR 0x69)"
  "\<not> isSpace (CHR 0x6A)"
  "\<not> isSpace (CHR 0x6B)"
  "\<not> isSpace (CHR 0x6C)"
  "\<not> isSpace (CHR 0x6D)"
  "\<not> isSpace (CHR 0x6E)"
  "\<not> isSpace (CHR 0x6F)"
  "\<not> isSpace (CHR 0x70)"
  "\<not> isSpace (CHR 0x71)"
  "\<not> isSpace (CHR 0x72)"
  "\<not> isSpace (CHR 0x73)"
  "\<not> isSpace (CHR 0x74)"
  "\<not> isSpace (CHR 0x75)"
  "\<not> isSpace (CHR 0x76)"
  "\<not> isSpace (CHR 0x77)"
  "\<not> isSpace (CHR 0x78)"
  "\<not> isSpace (CHR 0x79)"
  "\<not> isSpace (CHR 0x7A)"
  "\<not> isSpace (CHR 0x7B)"
  "\<not> isSpace (CHR 0x7C)"
  "\<not> isSpace (CHR 0x7D)"
  "\<not> isSpace (CHR 0x7E)"
  "isSpace (CHR 0xA0)"
  by (simp_all add: isSpace_def)

lemma word_chars:
  "\<not> isWordChar (CHR 0x09)"
  "\<not> isWordChar (CHR 0x0A)"
  "\<not> isWordChar (CHR 0x0B)"
  "\<not> isWordChar (CHR 0x0C)"
  "\<not> isWordChar (CHR 0x0D)"
  "\<not> isWordChar (CHR 0x20)"
  "\<not> isWordChar (CHR 0x21)"
  "\<not> isWordChar (CHR 0x22)"
  "\<not> isWordChar (CHR 0x23)"
  "\<not> isWordChar (CHR 0x24)"
  "\<not> isWordChar (CHR 0x25)"
  "\<not> isWordChar (CHR 0x26)"
  "\<not> isWordChar (CHR 0x27)"
  "\<not> isWordChar (CHR 0x28)"
  "\<not> isWordChar (CHR 0x29)"
  "\<not> isWordChar (CHR 0x2A)"
  "\<not> isWordChar (CHR 0x2B)"
  "\<not> isWordChar (CHR 0x2C)"
  "\<not> isWordChar (CHR 0x2D)"
  "\<not> isWordChar (CHR 0x2E)"
  "\<not> isWordChar (CHR 0x2F)"
  "isWordChar (CHR 0x30)"
  "isWordChar (CHR 0x31)"
  "isWordChar (CHR 0x32)"
  "isWordChar (CHR 0x33)"
  "isWordChar (CHR 0x34)"
  "isWordChar (CHR 0x35)"
  "isWordChar (CHR 0x36)"
  "isWordChar (CHR 0x37)"
  "isWordChar (CHR 0x38)"
  "isWordChar (CHR 0x39)"
  "\<not> isWordChar (CHR 0x3A)"
  "\<not> isWordChar (CHR 0x3B)"
  "\<not> isWordChar (CHR 0x3C)"
  "\<not> isWordChar (CHR 0x3D)"
  "\<not> isWordChar (CHR 0x3E)"
  "\<not> isWordChar (CHR 0x3F)"
  "\<not> isWordChar (CHR 0x40)"
  "isWordChar (CHR 0x41)"
  "isWordChar (CHR 0x42)"
  "isWordChar (CHR 0x43)"
  "isWordChar (CHR 0x44)"
  "isWordChar (CHR 0x45)"
  "isWordChar (CHR 0x46)"
  "isWordChar (CHR 0x47)"
  "isWordChar (CHR 0x48)"
  "isWordChar (CHR 0x49)"
  "isWordChar (CHR 0x4A)"
  "isWordChar (CHR 0x4B)"
  "isWordChar (CHR 0x4C)"
  "isWordChar (CHR 0x4D)"
  "isWordChar (CHR 0x4E)"
  "isWordChar (CHR 0x4F)"
  "isWordChar (CHR 0x50)"
  "isWordChar (CHR 0x51)"
  "isWordChar (CHR 0x52)"
  "isWordChar (CHR 0x53)"
  "isWordChar (CHR 0x54)"
  "isWordChar (CHR 0x55)"
  "isWordChar (CHR 0x56)"
  "isWordChar (CHR 0x57)"
  "isWordChar (CHR 0x58)"
  "isWordChar (CHR 0x59)"
  "isWordChar (CHR 0x5A)"
  "\<not> isWordChar (CHR 0x5B)"
  "\<not> isWordChar (CHR 0x5C)"
  "\<not> isWordChar (CHR 0x5D)"
  "\<not> isWordChar (CHR 0x5E)"
  "isWordChar (CHR 0x5F)"
  "\<not> isWordChar (CHR 0x60)"
  "isWordChar (CHR 0x61)"
  "isWordChar (CHR 0x62)"
  "isWordChar (CHR 0x63)"
  "isWordChar (CHR 0x64)"
  "isWordChar (CHR 0x65)"
  "isWordChar (CHR 0x66)"
  "isWordChar (CHR 0x67)"
  "isWordChar (CHR 0x68)"
  "isWordChar (CHR 0x69)"
  "isWordChar (CHR 0x6A)"
  "isWordChar (CHR 0x6B)"
  "isWordChar (CHR 0x6C)"
  "isWordChar (CHR 0x6D)"
  "isWordChar (CHR 0x6E)"
  "isWordChar (CHR 0x6F)"
  "isWordChar (CHR 0x70)"
  "isWordChar (CHR 0x71)"
  "isWordChar (CHR 0x72)"
  "isWordChar (CHR 0x73)"
  "isWordChar (CHR 0x74)"
  "isWordChar (CHR 0x75)"
  "isWordChar (CHR 0x76)"
  "isWordChar (CHR 0x77)"
  "isWordChar (CHR 0x78)"
  "isWordChar (CHR 0x79)"
  "isWordChar (CHR 0x7A)"
  "\<not> isWordChar (CHR 0x7B)"
  "\<not> isWordChar (CHR 0x7C)"
  "\<not> isWordChar (CHR 0x7D)"
  "\<not> isWordChar (CHR 0x7E)"
  "\<not> isWordChar (CHR 0xA0)"
  by (simp_all add: isWordChar_def lowerLetters_def upperLetters_def digitChars_def)

lemma ident_chars:
  "\<not> isIdentStart (CHR 0x09)"
  "\<not> isIdentStart (CHR 0x0A)"
  "\<not> isIdentStart (CHR 0x0B)"
  "\<not> isIdentStart (CHR 0x0C)"
  "\<not> isIdentStart (CHR 0x0D)"
  "\<not> isIdentStart (CHR 0x20)"
  "\<not> isIdentStart (CHR 0x21)"
  "\<not> isIdentStart (CHR 0x22)"
  "\<not> isIdentStart (CHR 0x23)"
  "\<not> isIdentStart (CHR 0x24)"
  "\<not> isIdentStart (CHR 0x25)"
  "\<not> isIdentStart (CHR 0x26)"
  "\<not> isIdentStart (CHR 0x27)"
  "\<not> isIdentStart (CHR 0x28)"
  "\<not> isIdentStart (CHR 0x29)"
  "\<not> isIdentStart (CHR 0x2A)"
  "\<not> isIdentStart (CHR 0x2B)"
  "\<not> isIdentStart (CHR 0x2C)"
  "\<not> isIdentStart (CHR 0x2D)"
  "\<not> isIdentStart (CHR 0x2E)"
  "\<not> isIdentStart (CHR 0x2F)"
  "\<not> isIdentStart (CHR 0x30)"
  "\<not> isIdentStart (CHR 0x31)"
  "\<not> isIdentStart (CHR 0x32)"
  "\<not> isIdentStart (CHR 0x33)"
  "\<not> isIdentStart (CHR 0x34)"
  "\<not> isIdentStart (CHR 0x35)"
  "\<not> isIdentStart (CHR 0x36)"
  "\<not> isIdentStart (CHR 0x37)"
  "\<not> isIdentStart (CHR 0x38)"
  "\<not> isIdentStart (CHR 0x39)"
  "\<not> isIdentStart (CHR 0x3A)"
  "\<not> isIdentStart (CHR 0x3B)"
  "\<not> isIdentStart (CHR 0x3C)"
  "\<not> isIdentStart (CHR 0x3D)"
  "\<not> isIdentStart (CHR 0x3E)"
  "\<not> isIdentStart (CHR 0x3F)"
  "\<not> isIdentStart (CHR 0x40)"
  "isIdentStart (CHR 0x41)"
  "isIdentStart (CHR 0x42)"
  "isIdentStart (CHR 0x43)"
  "isIdentStart (CHR 0x44)"
  "isIdentStart (CHR 0x45)"
  "isIdentStart (CHR 0x46)"
  "isIdentStart (CHR 0x47)"
  "isIdentStart (CHR 0x48)"
  "isIdentStart (CHR 0x49)"
  "isIdentStart (CHR 0x4A)"
  "isIdentStart (CHR 0x4B)"
  "isIdentStart (CHR 0x4C)"
  "isIdentStart (CHR 0x4D)"
  "isIdentStart (CHR 0x4E)"
  "isIdentStart (CHR 0x4F)"
  "isIdentStart (CHR 0x50)"
  "isIdentStart (CHR 0x51)"
  "isIdentStart (CHR 0x52)"
  "isIdentStart (CHR 0x53)"
  "isIdentStart (CHR 0x54)"
  "isIdentStart (CHR 0x55)"
  "isIdentStart (CHR 0x56)"
  "isIdentStart (CHR 0x57)"
  "isIdentStart (CHR 0x58)"
  "isIdentStart (CHR 0x59)"
  "isIdentStart (CHR 0x5A)"
  "\<not> isIdentStart (CHR 0x5B)"
  "\<not> isIdentStart (CHR 0x5C)"
  "\<not> isIdentStart (CHR 0x5D)"
  "\<not> isIdentStart (CHR 0x5E)"
  "isIdentStart (CHR 0x5F)"
  "\<not> isIdentStart (CHR 0x60)"
  "isIdentStart (CHR 0x61)"
  "isIdentStart (CHR 0x62)"
  "isIdentStart (CHR 0x63)"
  "isIdentStart (CHR 0x64)"
  "isIdentStart (CHR 0x65)"
  "isIdentStart (CHR 0x66)"
  "isIdentStart (CHR 0x67)"
  "isIdentStart (CHR 0x68)"
  "isIdentStart (CHR 0x69)"
  "isIdentStart (CHR 0x6A)"
  "isIdentStart (CHR 0x6B)"
  "isIdentStart (CHR 0x6C)"
  "isIdentStart (CHR 0x6D)"
  "isIdentStart (CHR 0x6E)"
  "isIdentStart (CHR 0x6F)"
  "isIdentStart (CHR 0x70)"
  "isIdentStart (CHR 0x71)"
  "isIdentStart (CHR 0x72)"
  "isIdentStart (CHR 0x73)"
  "isIdentStart (CHR 0x74)"
  "isIdentStart (CHR 0x75)"
  "isIdentStart (CHR 0x76)"
  "isIdentStart (CHR 0x77)"
  "isIdentStart (CHR 0x78)"
  "isIdentStart (CHR 0x79)"
  "isIdentStart (CHR 0x7A)"
  "\<not> isIdentStart (CHR 0x7B)"
  "\<not> isIdentStart (CHR 0x7C)"
  "\<not> isIdentStart (CHR 0x7D)"
  "\<not> isIdentStart (CHR 0x7E)"
  "\<not> isIdentStart (CHR 0xA0)"
  by (simp_all add: isIdentStart_def lowerLetters_def upperLetters_def)

lemmas char_class_defs = space_chars word_chars ident_chars digitChars_def

lemmas case_defs = toLowerCase_def toUpperCase_def upper_chars lower_chars upperOf_chars

lemmas string_defs = startsWith_def endsWith_def includesStr_def trim_def

lemmas validate_defs =
  validateSQL_def blockedPattern_def keywordHere_def BLOCKED_KEYWORDS_def
  commentWarnings_def laterWarnings_def WARNING_KEYWORDS_def

lemmas extract_defs = extractTablesFromSQL_def matchHere_def lastSegment_def pushNew_def

section \<open>Column access\<close>

lemma getTableAccess_Some: "\<exists>p. getTableAccess config t s = Some p"
  by (simp add: getTableAccess_def split: option.split)

text \<open>
  Claim C6. \<open>canAccessColumn\<close> is false when the table's resolved access level is none;
  otherwise false when the column is in \<open>blockedColumns\<close>; otherwise, when
  \<open>allowedColumns\<close> is non-empty, it is true exactly when the column is one of
  \<open>allowedColumns\<close>; otherwise true. An absent list counts as empty.
\<close>

theorem canAccessColumn_decision:
  "canAccessColumn config t c s =
     (let p = resolved config t s;
          blocked = listOrEmpty (blockedColumns p);
          allowed = listOrEmpty (allowedColumns p)
      in if accessLevel p = NoAccess then False
         else if c \<in> set blocked then False
         else if allowed \<noteq> [] then c \<in> set allowed
         else True)"
proof -
  obtain p where p: "getTableAccess config t s = Some p"
    using getTableAccess_Some by blast
  show ?thesis
    by (simp add: canAccessColumn_def resolved_def p listOrEmpty_def Let_def split: option.split)
qed

theorem canAccessColumn_decision_witness:
  "\<not> canAccessColumn peopleColumns ''people'' ''ssn'' ''public''
   \<and> canAccessColumn peopleColumns ''people'' ''email'' ''public''
   \<and> \<not> canAccessColumn peopleColumns ''people'' ''phone'' ''public''"
  unfolding canAccessColumn_decision
  by (simp add: resolved_def getTableAccess_def peopleColumns_def listOrEmpty_def)

section \<open>Listing tables\<close>

lemma accessibleRows_sound:
  "accessibleRows env rs = (fx, Inr kept) \<Longrightarrow> (n, s) \<in> set kept \<Longrightarrow> tools_canAccessTable env n s"
proof (induction rs arbitrary: fx kept)
  case Nil
  then show ?case by simp
next
  case (Cons r rs)
  then show ?case
    by (auto split: sum.splits prod.splits if_splits)
qed

lemma listTables_cases:
  "snd (listTables env schemaArg) = Inr found \<Longrightarrow>
     found = [] \<or> (\<exists>rs fx kept. accessibleRows env rs = (fx, Inr kept)
                    \<and> found = map (\<lambda>(n, s). \<lparr> ti_name = n, ti_schema = s, columns = [] \<rparr>) kept)"
  unfolding listTables_def Let_def
  by (simp split: sum.splits prod.splits) blast

lemma listTables_sound:
  assumes "snd (listTables env schemaArg) = Inr found" and "t \<in> set found"
  shows "tools_canAccessTable env (ti_name t) (ti_schema t)"
proof -
  from listTables_cases [OF assms(1)] assms(2)
  obtain rs fx kept where r: "accessibleRows env rs = (fx, Inr kept)"
    and f: "found = map (\<lambda>(n, s). \<lparr> ti_name = n, ti_schema = s, columns = [] \<rparr>) kept"
    by auto
  from assms(2) f obtain n s
    where "(n, s) \<in> set kept" and "t = \<lparr> ti_name = n, ti_schema = s, columns = [] \<rparr>"
    by auto
  with accessibleRows_sound [OF r] show ?thesis by simp
qed

text \<open>
  Claim C5. Whatever the backend answers, every entry of the list that \<open>listTables\<close>
  returns passes \<open>canAccessTable\<close>, so its resolved access level is not none; the same
  holds for every pair that \<open>filterAccessibleTables\<close> keeps, under the web module's
  \<open>canAccessTable\<close>.
\<close>

theorem listTables_never_restricted:
  "(\<forall>found t. snd (listTables env schemaArg) = Inr found \<longrightarrow> t \<in> set found \<longrightarrow>
       tools_canAccessTable env (ti_name t) (ti_schema t)
       \<and> accessLevel (getTablePermission env (ti_name t) (ti_schema t)) \<noteq> NoAccess)
   \<and> (\<forall>t s. (t, s) \<in> set (filterAccessibleTables config ts) \<longrightarrow>
          canAccessTable config t s \<and> accessLevel (resolved config t s) \<noteq> NoAccess)"
proof (intro conjI allI impI)
  fix found t
  assume "snd (listTables env schemaArg) = Inr found" and "t \<in> set found"
  then show "tools_canAccessTable env (ti_name t) (ti_schema t)"
    by (rule listTables_sound)
  then show "accessLevel (getTablePermission env (ti_name t) (ti_schema t)) \<noteq> NoAccess"
    by (simp add: tools_canAccessTable_def)
next
  fix t s
  assume "(t, s) \<in> set (filterAccessibleTables config ts)"
  then show c: "canAccessTable config t s"
    by (simp add: filterAccessibleTables_def)
  then show "accessLevel (resolved config t s) \<noteq> NoAccess"
    by (simp add: canAccessTable_def resolved_def split: option.splits)
qed

lemma exampleTools_fields:
  "permissions exampleTools = usersHidden"
  "maxRows exampleTools = 1000"
  "queryTimeout exampleTools = 30000"
  "rpc exampleTools q = \<lparr> result = RpcData (DataArray catalogRows), latency = 5 \<rparr>"
  by (simp_all add: exampleTools_def)

lemma example_access:
  "tools_canAccessTable exampleTools ''orders'' s"
  "\<not> tools_canAccessTable exampleTools ''users'' None"
  "\<not> tools_canAccessTable exampleTools ''users'' (Some ''public'')"
  by (simp_all add: tools_canAccessTable_def getTablePermission_def orPublic_def exampleTools_fields
        usersHidden_def case_defs)

lemma example_rows:
  "snd (accessibleRows exampleTools catalogRows) = Inr [(''orders'', Some ''public'')]"
  by (simp add: catalogRows_def rowTable_def field_def example_access split: prod.splits)

lemma listTables_example:
  "snd (listTables exampleTools None)
     = Inr [\<lparr> ti_name = ''orders'', ti_schema = Some ''public'', columns = [] \<rparr>]"
proof -
  have v: "validateSQLIdentifier (Some (orPublic None)) ''schema name'' = Inr ''public''"
    by (simp add: validateSQLIdentifier_def isValidSQLIdentifier_def orPublic_def char_class_defs)
  have q: "runQuery exampleTools q = Inr catalogRows" for q
    by (simp add: runQuery_def exampleTools_fields)
  obtain fx where "accessibleRows exampleTools catalogRows = (fx, Inr [(''orders'', Some ''public'')])"
    using example_rows by (cases "accessibleRows exampleTools catalogRows") auto
  then show ?thesis
    by (simp add: listTables_def v q Let_def)
qed

theorem listTables_never_restricted_witness:
  "snd (listTables exampleTools None)
     = Inr [\<lparr> ti_name = ''orders'', ti_schema = Some ''public'', columns = [] \<rparr>]
   \<and> tools_canAccessTable exampleTools ''orders'' (Some ''public'')
   \<and> filterAccessibleTables usersHidden [(''users'', ''public''), (''orders'', ''public'')]
       = [(''orders'', ''public'')]
   \<and> canAccessTable usersHidden ''orders'' ''public''"
proof -
  have kept: "filterAccessibleTables usersHidden [(''users'', ''public''), (''orders'', ''public'')]
       = [(''orders'', ''public'')]"
    by (simp add: filterAccessibleTables_def canAccessTable_def getTableAccess_def usersHidden_def)
  from listTables_never_restricted [of exampleTools None usersHidden
         "[(''users'', ''public''), (''orders'', ''public'')]"]
  show ?thesis
    using listTables_example kept by (simp add: example_access)
qed

section \<open>The guarded query executor\<close>

subsection \<open>Messages, sanitising and the row cap\<close>

lemma indexOf_prefix: "startsWith s t \<Longrightarrow> indexOf s t = Some 0"
  by (cases s) (auto simp: startsWith_def)

lemma indexOf_append: "indexOf (a @ t @ b) t \<noteq> None"
proof (induction a)
  case Nil
  then show ?case by (simp add: indexOf_prefix startsWith_def)
next
  case (Cons c a)
  then show ?case by auto
qed

lemma includesStr_append: "includesStr (a @ t @ b) t"
  by (simp add: includesStr_def indexOf_append)

lemma joinWith_member: "t \<in> set xs \<Longrightarrow> \<exists>a b. joinWith sep xs = a @ t @ b"
proof (induction sep xs rule: joinWith.induct)
  case (1 sep)
  then show ?case by simp
next
  case (2 sep x)
  then have "joinWith sep [x] = [] @ t @ []" by simp
  then show ?case by blast
next
  case (3 sep x y ys)
  show ?case
  proof (cases "t = x")
    case True
    then have "joinWith sep (x # y # ys) = [] @ t @ (sep @ joinWith sep (y # ys))" by simp
    then show ?thesis by blast
  next
    case False
    with 3 obtain a b where "joinWith sep (y # ys) = a @ t @ b" by auto
    then have "joinWith sep (x # y # ys) = (x @ sep @ a) @ t @ b" by simp
    then show ?thesis by blast
  qed
qed

lemma queryAccessDenied_names: 
  assumes "t \<in> set blocked" shows "includesStr (queryAccessDenied blocked) t"
proof -
  from joinWith_member [OF assms] obtain a b where j: "joinWith '', '' blocked = a @ t @ b" by blast
  have "\<exists>p q. queryAccessDenied blocked = p @ t @ q"
    unfolding queryAccessDenied_def j
    by (metis append.assoc)
  then show ?thesis using includesStr_append by metis
qed

lemma queryAccessDenied_prefix: "startsWith (queryAccessDenied blocked) ''ACCESS_DENIED''"
  by (simp add: queryAccessDenied_def startsWith_def)

lemma length_trim: "length (trim s) \<le> length s"
proof -
  have "length (trim s) \<le> length (dropWhile isSpace s)"
    unfolding trim_def using length_dropWhile_le [of isSpace "rev (dropWhile isSpace s)"] by simp
  also have "\<dots> \<le> length s" by (rule length_dropWhile_le)
  finally show ?thesis .
qed

lemma stripSemicolons_done:
  "length s \<le> n \<Longrightarrow> \<not> endsWith (stripSemicolons n s) '';''"
proof (induction n arbitrary: s)
  case 0
  then show ?case by (simp add: endsWith_def)
next
  case (Suc n)
  show ?case
  proof (cases "endsWith s '';''")
    case True
    then have "s \<noteq> []" by (auto simp: endsWith_def)
    then have "length (butlast s) < length s" by simp
    with Suc.prems length_trim [of "butlast s"] have "length (trim (butlast s)) \<le> n" by simp
    with Suc.IH True show ?thesis by simp
  next
    case False
    then show ?thesis by simp
  qed
qed

lemma sanitizeSQL_no_semicolon: "\<not> endsWith (sanitizeSQL sql) '';''"
  by (simp add: sanitizeSQL_def Let_def stripSemicolons_done)

lemma addDefaultLimit_capped: "includesStr (toUpperCase (addDefaultLimit sql limit)) ''LIMIT''"
proof (cases "includesStr (toUpperCase sql) ''LIMIT''")
  case True
  then show ?thesis by (simp add: addDefaultLimit_def)
next
  case False
  have u: "toUpperCase '' LIMIT '' = '' '' @ ''LIMIT'' @ '' ''"
    by (simp add: case_defs)
  have "toUpperCase (sql @ '' LIMIT '' @ showNat limit)
          = (toUpperCase sql @ '' '') @ ''LIMIT'' @ ('' '' @ toUpperCase (showNat limit))"
    using u by (simp add: toUpperCase_def)
  then have "includesStr (toUpperCase (sql @ '' LIMIT '' @ showNat limit)) ''LIMIT''"
    using includesStr_append by metis
  with False show ?thesis by (simp add: addDefaultLimit_def del: showNat.simps)
qed

lemma invalid_has_error: "\<not> valid (validateSQL sql) \<Longrightarrow> \<exists>rule. error (validateSQL sql) = Some rule"
  by (auto simp: validateSQL_def Let_def split: option.splits if_splits)

subsection \<open>The order of the checks\<close>


text \<open>
  Claim C1. \<open>executeSQL\<close> validates first: an invalid text fails with the validator's
  error in the message, with no effect at all (no permission check, no query). A valid
  text has its extracted tables checked next, each once and in order: if some table is
  not accessible the call fails with an \<open>ACCESS_DENIED\<close> message that contains the name
  of every blocked table, and no query is sent. Otherwise exactly one query is sent to
  the backend, after the checks: the text with its trailing semicolons stripped and the
  row cap appended when it has no \<open>LIMIT\<close>. That query races a timer of \<open>queryTimeout\<close>
  milliseconds. A reply that does not come before the timer fails the call with the
  timeout message, whatever the reply holds. A reply that comes in time decides the
  outcome: a backend error fails the call with \<open>Query failed\<close> and the backend's message,
  a rejected request fails it with what was thrown, and data are returned as the rows
  (an array as it is, a single value as one row, nothing as no row) with their number,
  the column names of the first row and the time the reply took.
\<close>

theorem executeSQL_order:
  "(let found = extractTablesFromSQL sql;
        checks = map (\<lambda>t. checkEffect env t None) found;
        blocked = filter (\<lambda>t. \<not> tools_canAccessTable env t None) found;
        limitedSQL = addDefaultLimit (sanitizeSQL sql) (maxRows env);
        reply = rpc env limitedSQL;
        answer = (\<lambda>rows. Inr \<lparr> data = rows, rowCount = length rows,
                                result_columns = (if length rows > 0 then map fst (hd rows) else []),
                                executionTime = latency reply \<rparr>)
    in (\<not> valid (validateSQL sql) \<longrightarrow>
          (\<exists>rule. error (validateSQL sql) = Some rule
             \<and> executeSQL env sql = ([], Inl (ErrorObj (''SQL validation failed: '' @ rule)))))
     \<and> (valid (validateSQL sql) \<and> blocked \<noteq> [] \<longrightarrow>
          (\<exists>message. executeSQL env sql = (checks, Inl (ErrorObj message))
             \<and> startsWith message ''ACCESS_DENIED''
             \<and> (\<forall>t \<in> set blocked. includesStr message t))
          \<and> (\<forall>q. Query q \<notin> set (fst (executeSQL env sql))))
     \<and> (valid (validateSQL sql) \<and> blocked = [] \<longrightarrow>
          fst (executeSQL env sql) = checks @ [Query limitedSQL]
          \<and> \<not> endsWith (sanitizeSQL sql) '';''
          \<and> includesStr (toUpperCase limitedSQL) ''LIMIT''
          \<and> (queryTimeout env \<le> latency reply \<longrightarrow>
                snd (executeSQL env sql)
                  = Inl (ErrorObj (''Query timeout after '' @ showNat (queryTimeout env) @ ''ms'')))
          \<and> (latency reply < queryTimeout env \<longrightarrow>
                (\<forall>m. result reply = RpcError m \<longrightarrow>
                   snd (executeSQL env sql) = Inl (ErrorObj (''Query failed: '' @ m)))
              \<and> (\<forall>e. result reply = RpcRejects e \<longrightarrow> snd (executeSQL env sql) = Inl e)
              \<and> (\<forall>rows. result reply = RpcData (DataArray rows) \<longrightarrow>
                   snd (executeSQL env sql) = answer rows)
              \<and> (\<forall>r. result reply = RpcData (DataRow r) \<longrightarrow>
                   snd (executeSQL env sql) = answer [r])
              \<and> (result reply = RpcData DataNull \<longrightarrow> snd (executeSQL env sql) = answer []))))"
proof -
  define found where "found = extractTablesFromSQL sql"
  define checks where "checks = map (\<lambda>t. checkEffect env t None) found"
  define blocked where "blocked = filter (\<lambda>t. \<not> tools_canAccessTable env t None) found"
  define limitedSQL where "limitedSQL = addDefaultLimit (sanitizeSQL sql) (maxRows env)"
  define reply where "reply = rpc env limitedSQL"
  define answer :: "row list \<Rightarrow> thrown + QueryResult"
    where "answer = (\<lambda>rows. Inr \<lparr> data = rows, rowCount = length rows,
                                result_columns = (if length rows > 0 then map fst (hd rows) else []),
                                executionTime = latency reply \<rparr>)"
  have access: "validateTableAccess env sql = (checks, \<lparr> allowed = (blocked = []), blockedTables = blocked \<rparr>)"
    by (simp add: validateTableAccess_def Let_def found_def checks_def blocked_def)
  have a: "\<exists>rule. error (validateSQL sql) = Some rule
             \<and> executeSQL env sql = ([], Inl (ErrorObj (''SQL validation failed: '' @ rule)))"
    if "\<not> valid (validateSQL sql)"
  proof -
    from invalid_has_error [OF that] obtain rule where r: "error (validateSQL sql) = Some rule" by blast
    with that have "executeSQL env sql = ([], Inl (ErrorObj (''SQL validation failed: '' @ rule)))"
      by (simp add: executeSQL_def Let_def validationFailed_def)
    with r show ?thesis by blast
  qed
  have b: "(\<exists>message. executeSQL env sql = (checks, Inl (ErrorObj message))
             \<and> startsWith message ''ACCESS_DENIED''
             \<and> (\<forall>t \<in> set blocked. includesStr message t))
          \<and> (\<forall>q. Query q \<notin> set (fst (executeSQL env sql)))"
    if "valid (validateSQL sql)" and "blocked \<noteq> []"
  proof -
    from that have e: "executeSQL env sql = (checks, Inl (ErrorObj (queryAccessDenied blocked)))"
      by (simp add: executeSQL_def Let_def access)
    have "Query q \<notin> set checks" for q
      by (auto simp: checks_def checkEffect_def)
    with e show ?thesis
      using queryAccessDenied_prefix queryAccessDenied_names by auto
  qed
  have sent: "executeSQL env sql
                = (checks @ [Query limitedSQL],
                   case raceQuery env limitedSQL of Inl e \<Rightarrow> Inl e | Inr rows \<Rightarrow> answer rows)"
    if "valid (validateSQL sql)" and "blocked = []"
    using that unfolding limitedSQL_def answer_def reply_def
    by (simp add: executeSQL_def Let_def access)
  have c: "fst (executeSQL env sql) = checks @ [Query limitedSQL]
          \<and> \<not> endsWith (sanitizeSQL sql) '';''
          \<and> includesStr (toUpperCase limitedSQL) ''LIMIT''"
    if "valid (validateSQL sql)" and "blocked = []"
    using sent [OF that] unfolding limitedSQL_def
    by (simp add: sanitizeSQL_no_semicolon addDefaultLimit_capped)
  have late: "snd (executeSQL env sql)
                = Inl (ErrorObj (''Query timeout after '' @ showNat (queryTimeout env) @ ''ms''))"
    if "valid (validateSQL sql)" and "blocked = []" and "queryTimeout env \<le> latency reply"
    using sent [OF that(1,2)] that(3) unfolding reply_def
    by (simp add: raceQuery_def queryTimedOut_def)
  have race: "raceQuery env limitedSQL = runQuery env limitedSQL"
    if "latency reply < queryTimeout env"
    using that unfolding reply_def by (simp add: raceQuery_def)
  have d1: "snd (executeSQL env sql) = Inl (ErrorObj (''Query failed: '' @ m))"
    if "valid (validateSQL sql)" and "blocked = []" and "latency reply < queryTimeout env"
      and "result reply = RpcError m" for m
    using sent [OF that(1,2)] race [OF that(3)] that(4) unfolding reply_def
    by (simp add: runQuery_def)
  have d2: "snd (executeSQL env sql) = Inl e"
    if "valid (validateSQL sql)" and "blocked = []" and "latency reply < queryTimeout env"
      and "result reply = RpcRejects e" for e
    using sent [OF that(1,2)] race [OF that(3)] that(4) unfolding reply_def
    by (simp add: runQuery_def)
  have d3: "snd (executeSQL env sql) = answer rows"
    if "valid (validateSQL sql)" and "blocked = []" and "latency reply < queryTimeout env"
      and "result reply = RpcData (DataArray rows)" for rows
    using sent [OF that(1,2)] race [OF that(3)] that(4) unfolding reply_def
    by (simp add: runQuery_def)
  have d4: "snd (executeSQL env sql) = answer [r]"
    if "valid (validateSQL sql)" and "blocked = []" and "latency reply < queryTimeout env"
      and "result reply = RpcData (DataRow r)" for r
    using sent [OF that(1,2)] race [OF that(3)] that(4) unfolding reply_def
    by (simp add: runQuery_def)
  have d5: "snd (executeSQL env sql) = answer []"
    if "valid (validateSQL sql)" and "blocked = []" and "latency reply < queryTimeout env"
      and "result reply = RpcData DataNull"
    using sent [OF that(1,2)] race [OF that(3)] that(4) unfolding reply_def
    by (simp add: runQuery_def)
  have "(\<not> valid (validateSQL sql) \<longrightarrow>
          (\<exists>rule. error (validateSQL sql) = Some rule
             \<and> executeSQL env sql = ([], Inl (ErrorObj (''SQL validation failed: '' @ rule)))))
     \<and> (valid (validateSQL sql) \<and> blocked \<noteq> [] \<longrightarrow>
          (\<exists>message. executeSQL env sql = (checks, Inl (ErrorObj message))
             \<and> startsWith message ''ACCESS_DENIED''
             \<and> (\<forall>t \<in> set blocked. includesStr message t))
          \<and> (\<forall>q. Query q \<notin> set (fst (executeSQL env sql))))
     \<and> (valid (validateSQL sql) \<and> blocked = [] \<longrightarrow>
          fst (executeSQL env sql) = checks @ [Query limitedSQL]
          \<and> \<not> endsWith (sanitizeSQL sql) '';''
          \<and> includesStr (toUpperCase limitedSQL) ''LIMIT''
          \<and> (queryTimeout env \<le> latency reply \<longrightarrow>
                snd (executeSQL env sql)
                  = Inl (ErrorObj (''Query timeout after '' @ showNat (queryTimeout env) @ ''ms'')))
          \<and> (latency reply < queryTimeout env \<longrightarrow>
                (\<forall>m. result reply = RpcError m \<longrightarrow>
                   snd (executeSQL env sql) = Inl (ErrorObj (''Query failed: '' @ m)))
              \<and> (\<forall>e. result reply = RpcRejects e \<longrightarrow> snd (executeSQL env sql) = Inl e)
              \<and> (\<forall>rows. result reply = RpcData (DataArray rows) \<longrightarrow>
                   snd (executeSQL env sql) = answer rows)
              \<and> (\<forall>r. result reply = RpcData (DataRow r) \<longrightarrow>
                   snd (executeSQL env sql) = answer [r])
              \<and> (result reply = RpcData DataNull \<longrightarrow> snd (executeSQL env sql) = answer [])))"
    apply (intro conjI allI impI)
    using a b c late d1 d2 d3 d4 d5 by blast+
  then show ?thesis
    unfolding Let_def found_def checks_def blocked_def limitedSQL_def reply_def answer_def
    by simp
qed


lemma validate_examples:
  "validateSQL ''DROP TABLE users''
     = \<lparr> valid = False, error = Some (blockedKeywordError ''DROP''), warnings = None \<rparr>"
  "valid (validateSQL ''SELECT * FROM users'')"
  "valid (validateSQL ''SELECT * FROM orders;'')"
  "valid (validateSQL noBreakQuery)"
  by (simp_all add: validate_defs string_defs case_defs char_class_defs Let_def noBreakQuery_def)

lemma extract_examples:
  "extractTablesFromSQL ''SELECT * FROM users'' = [''users'']"
  "extractTablesFromSQL ''SELECT * FROM orders;'' = [''orders'']"
  "extractTablesFromSQL noBreakQuery = [''users'']"
  by (simp_all add: extract_defs case_defs char_class_defs Let_def noBreakQuery_def)

lemma limit_example:
  "addDefaultLimit (sanitizeSQL ''SELECT * FROM orders;'') 1000 = ''SELECT * FROM orders LIMIT 1000''"
  by (simp add: addDefaultLimit_def sanitizeSQL_def string_defs case_defs char_class_defs Let_def)

lemma example_checks:
  "checkEffect exampleTools ''users'' None = PermissionCheck ''users'' NoAccess"
  "checkEffect exampleTools ''orders'' None = PermissionCheck ''orders'' Read"
  by (simp_all add: checkEffect_def getTablePermission_def orPublic_def exampleTools_fields
        usersHidden_def case_defs)

lemma slowTools_fields:
  "permissions slowTools = usersHidden"
  "maxRows slowTools = 1000"
  "queryTimeout slowTools = 3"
  "rpc slowTools q = \<lparr> result = RpcData (DataArray catalogRows), latency = 5 \<rparr>"
  by (simp_all add: slowTools_def exampleTools_def)

lemma slow_checks:
  "tools_canAccessTable slowTools ''orders'' None"
  "checkEffect slowTools ''orders'' None = PermissionCheck ''orders'' Read"
  by (simp_all add: tools_canAccessTable_def checkEffect_def getTablePermission_def orPublic_def
        slowTools_fields usersHidden_def case_defs)

lemma brokenTools_fields:
  "permissions brokenTools = usersHidden"
  "maxRows brokenTools = 1000"
  "queryTimeout brokenTools = 30000"
  "rpc brokenTools q = \<lparr> result = RpcError ''connection refused'', latency = 5 \<rparr>"
  by (simp_all add: brokenTools_def)

lemma broken_checks:
  "tools_canAccessTable brokenTools ''orders'' s"
  "checkEffect brokenTools ''orders'' None = PermissionCheck ''orders'' Read"
  by (simp_all add: tools_canAccessTable_def checkEffect_def getTablePermission_def orPublic_def
        brokenTools_fields usersHidden_def case_defs)

theorem executeSQL_order_witness:
  "executeSQL exampleTools ''DROP TABLE users''
     = ([], Inl (ErrorObj (''SQL validation failed: '' @ blockedKeywordError ''DROP'')))
   \<and> (\<exists>message. executeSQL exampleTools ''SELECT * FROM users''
                     = ([PermissionCheck ''users'' NoAccess], Inl (ErrorObj message))
                  \<and> includesStr message ''users'')
   \<and> (\<exists>message. executeSQL exampleTools noBreakQuery
                     = ([PermissionCheck ''users'' NoAccess], Inl (ErrorObj message))
                  \<and> includesStr message ''users'')
   \<and> executeSQL exampleTools ''SELECT * FROM orders;''
       = ([PermissionCheck ''orders'' Read, Query ''SELECT * FROM orders LIMIT 1000''],
          Inr \<lparr> data = catalogRows, rowCount = 2, result_columns = [''name'', ''schema''],
                executionTime = 5 \<rparr>)
   \<and> executeSQL slowTools ''SELECT * FROM orders;''
       = ([PermissionCheck ''orders'' Read, Query ''SELECT * FROM orders LIMIT 1000''],
          Inl (ErrorObj ''Query timeout after 3ms''))
   \<and> executeSQL brokenTools ''SELECT * FROM orders;''
       = ([PermissionCheck ''orders'' Read, Query ''SELECT * FROM orders LIMIT 1000''],
          Inl (ErrorObj ''Query failed: connection refused''))"
proof -
  have 1: "executeSQL exampleTools ''DROP TABLE users''
             = ([], Inl (ErrorObj (''SQL validation failed: '' @ blockedKeywordError ''DROP'')))"
    using executeSQL_order [of "''DROP TABLE users''" exampleTools]
    by (simp add: Let_def validate_examples)
  have 2: "\<exists>message. executeSQL exampleTools ''SELECT * FROM users''
                     = ([PermissionCheck ''users'' NoAccess], Inl (ErrorObj message))
                  \<and> includesStr message ''users''"
    using executeSQL_order [of "''SELECT * FROM users''" exampleTools]
    by (simp add: Let_def validate_examples extract_examples example_access example_checks) blast
  have 3: "\<exists>message. executeSQL exampleTools noBreakQuery
                     = ([PermissionCheck ''users'' NoAccess], Inl (ErrorObj message))
                  \<and> includesStr message ''users''"
    using executeSQL_order [of noBreakQuery exampleTools]
    by (simp add: Let_def validate_examples extract_examples example_access example_checks) blast
  have 4: "executeSQL exampleTools ''SELECT * FROM orders;''
       = ([PermissionCheck ''orders'' Read, Query ''SELECT * FROM orders LIMIT 1000''],
          Inr \<lparr> data = catalogRows, rowCount = 2, result_columns = [''name'', ''schema''],
                executionTime = 5 \<rparr>)"
    using executeSQL_order [of "''SELECT * FROM orders;''" exampleTools]
    by (simp add: Let_def validate_examples extract_examples example_access example_checks
          exampleTools_fields limit_example prod_eq_iff) (simp add: catalogRows_def)
  have 5: "executeSQL slowTools ''SELECT * FROM orders;''
       = ([PermissionCheck ''orders'' Read, Query ''SELECT * FROM orders LIMIT 1000''],
          Inl (ErrorObj ''Query timeout after 3ms''))"
    using executeSQL_order [of "''SELECT * FROM orders;''" slowTools]
    by (simp add: Let_def validate_examples extract_examples slow_checks
          slowTools_fields limit_example prod_eq_iff digitChars_def)
  have 6: "executeSQL brokenTools ''SELECT * FROM orders;''
       = ([PermissionCheck ''orders'' Read, Query ''SELECT * FROM orders LIMIT 1000''],
          Inl (ErrorObj ''Query failed: connection refused''))"
    using executeSQL_order [of "''SELECT * FROM orders;''" brokenTools]
    by (simp add: Let_def validate_examples extract_examples broken_checks
          brokenTools_fields limit_example prod_eq_iff)
  from 1 2 3 4 5 6 show ?thesis by blast
qed

section \<open>Quoted table references\<close>

lemma matchHere_quoted:
  assumes "referencesQuoted keyword prev (c # cs)"
  shows "matchHere keyword prev (c # cs) = None"
proof (cases "\<not> (case prev of None \<Rightarrow> False | Some p \<Rightarrow> isWordChar p)
          \<and> length keyword \<le> length (c # cs)
          \<and> toLowerCase (take (length keyword) (c # cs)) = toLowerCase keyword
          \<and> takeWhile isSpace (drop (length keyword) (c # cs)) \<noteq> []")
  case True
  with assms have after: "(case dropWhile isSpace (drop (length keyword) (c # cs)) of
               [] \<Rightarrow> True | d # _ \<Rightarrow> d = CHR 0x22)"
    by simp
  have q: "\<not> isIdentStart (CHR 0x22)"
    by (simp add: char_class_defs)
  show ?thesis
  proof (cases "dropWhile isSpace (drop (length keyword) (c # cs))")
    case Nil
    show ?thesis by (simp add: matchHere_def Let_def Nil del: dropWhile_eq_Nil_conv)
  next
    case (Cons d ds)
    with after have "d = CHR 0x22" by simp
    with q show ?thesis by (simp add: matchHere_def Let_def Cons)
  qed
next
  case False
  then consider
      (word) "case prev of None \<Rightarrow> False | Some p \<Rightarrow> isWordChar p"
    | (other) "\<not> (length keyword \<le> length (c # cs)
                \<and> toLowerCase (take (length keyword) (c # cs)) = toLowerCase keyword)"
    | (nospace) "takeWhile isSpace (drop (length keyword) (c # cs)) = []"
    by blast
  then show ?thesis
  proof cases
    case word
    then show ?thesis by (simp add: matchHere_def)
  next
    case other
    then show ?thesis by (simp add: matchHere_def)
  next
    case nospace
    then show ?thesis by (simp add: matchHere_def Let_def)
  qed
qed

lemma allMatches_quoted:
  "referencesQuoted keyword prev s \<Longrightarrow> allMatches keyword prev skip s = []"
proof (induction s arbitrary: prev skip)
  case Nil
  then show ?case by simp
next
  case (Cons c cs)
  from Cons.prems have rest: "referencesQuoted keyword (Some c) cs"
    by (simp split: if_splits)
  from Cons.prems have here: "matchHere keyword prev (c # cs) = None"
    by (rule matchHere_quoted)
  show ?case
    using Cons.IH [OF rest] here by simp
qed

lemma extract_quoted:
  assumes "referencesQuoted ''from'' None sql" and "referencesQuoted ''join'' None sql"
  shows "extractTablesFromSQL sql = []"
  using assms by (simp add: extractTablesFromSQL_def allMatches_quoted)

text \<open>
  Claim C10, as the code has it. The extractor does not parse the query: it looks at every
  place of the text where \<open>FROM\<close> or \<open>JOIN\<close> stands as the start of a word, in any letter
  case, with white space after it, also inside a string literal, a comment or a function
  call. When at every such place a double quote (or the end of the text) follows the white
  space, \<open>extractTablesFromSQL\<close> finds no table; \<open>validateTableAccess\<close> then allows the
  query, checking and blocking nothing, and \<open>executeSQL\<close> sends a valid query to the backend
  without any permission check, whatever the permissions are.
\<close>

theorem quoted_tables_unchecked:
  assumes "referencesQuoted ''from'' None sql" and "referencesQuoted ''join'' None sql"
  shows "extractTablesFromSQL sql = []
    \<and> validateTableAccess env sql = ([], \<lparr> allowed = True, blockedTables = [] \<rparr>)
    \<and> (valid (validateSQL sql) \<longrightarrow>
          fst (executeSQL env sql) = [Query (addDefaultLimit (sanitizeSQL sql) (maxRows env))])"
proof -
  have e: "extractTablesFromSQL sql = []"
    using assms by (rule extract_quoted)
  then have v: "validateTableAccess env sql = ([], \<lparr> allowed = True, blockedTables = [] \<rparr>)"
    by (simp add: validateTableAccess_def)
  then have "fst (executeSQL env sql) = [Query (addDefaultLimit (sanitizeSQL sql) (maxRows env))]"
    if "valid (validateSQL sql)"
    using that by (simp add: executeSQL_def Let_def)
  with e v show ?thesis by blast
qed

lemma quoted_example:
  "referencesQuoted ''from'' None quotedUsersQuery"
  "referencesQuoted ''join'' None quotedUsersQuery"
  "valid (validateSQL quotedUsersQuery)"
  by (simp_all add: quotedUsersQuery_def validate_defs string_defs case_defs char_class_defs Let_def)

lemma quoted_example_limit:
  "addDefaultLimit (sanitizeSQL quotedUsersQuery) 1000 = quotedUsersQuery @ '' LIMIT 1000''"
  by (simp add: quotedUsersQuery_def addDefaultLimit_def sanitizeSQL_def string_defs case_defs
        char_class_defs Let_def)

text \<open>
  Two valid queries whose only table is written as a quoted identifier, and on which the
  extractor finds a name all the same: the word after \<open>from\<close> in a string literal, which
  is then checked and denied, and the column after \<open>FROM\<close> in \<open>EXTRACT\<close>, which is then
  checked as if it were a table.
\<close>

lemma literal_examples:
  "valid (validateSQL literalFromQuery)"
  "extractTablesFromSQL literalFromQuery = [''users'']"
  "valid (validateSQL extractYearQuery)"
  "extractTablesFromSQL extractYearQuery = [''created_at'']"
  by (simp_all add: literalFromQuery_def extractYearQuery_def validate_defs extract_defs
        string_defs case_defs char_class_defs Let_def)

lemma created_at_check:
  "tools_canAccessTable exampleTools ''created_at'' None"
  "checkEffect exampleTools ''created_at'' None = PermissionCheck ''created_at'' Read"
  by (simp_all add: tools_canAccessTable_def checkEffect_def getTablePermission_def orPublic_def
        exampleTools_fields usersHidden_def case_defs)

theorem quoted_tables_counterexample:
  "valid (validateSQL literalFromQuery)
   \<and> extractTablesFromSQL literalFromQuery = [''users'']
   \<and> executeSQL exampleTools literalFromQuery
       = ([PermissionCheck ''users'' NoAccess], Inl (ErrorObj (queryAccessDenied [''users''])))
   \<and> valid (validateSQL extractYearQuery)
   \<and> extractTablesFromSQL extractYearQuery = [''created_at'']
   \<and> hd (fst (executeSQL exampleTools extractYearQuery)) = PermissionCheck ''created_at'' Read"
  by (simp add: executeSQL_def validateTableAccess_def Let_def literal_examples example_access
        example_checks created_at_check)

theorem quoted_tables_unchecked_witness:
  "\<not> tools_canAccessTable exampleTools ''users'' None
   \<and> extractTablesFromSQL quotedUsersQuery = []
   \<and> fst (executeSQL exampleTools quotedUsersQuery) = [Query (quotedUsersQuery @ '' LIMIT 1000'')]"
  using quoted_tables_unchecked [OF quoted_example(1) quoted_example(2), of exampleTools]
  by (simp add: quoted_example(3) quoted_example_limit exampleTools_fields example_access)

section \<open>The dispatch of a tool call\<close>

lemma handleToolCall_returns: "\<exists>r. snd (handleToolCall env toolName toolInput) = Inr r"
  by (cases "dispatch env toolName toolInput") (auto simp: handleToolCall_def split: sum.splits)

















section \<open>The schema of a table\<close>

lemma tableAccessDenied_names: "includesStr (tableAccessDenied t) t"
proof -
  have "\<exists>p q. tableAccessDenied t = p @ t @ q"
    unfolding tableAccessDenied_def quoted_def by (metis append.assoc)
  then show ?thesis using includesStr_append by metis
qed

lemma tableAccessDenied_prefix: "startsWith (tableAccessDenied t) ''ACCESS_DENIED''"
  by (simp add: tableAccessDenied_def startsWith_def)

lemma getTableSchema_invalid_table:
  "\<not> isValidSQLIdentifier tableName \<Longrightarrow>
     getTableSchema env tableName schemaArg
       = ([], Inl (ErrorObj (invalidIdentifierError ''table name'' tableName)))"
  by (simp add: getTableSchema_def validateSQLIdentifier_def)

lemma getTableSchema_invalid_schema:
  "isValidSQLIdentifier tableName \<Longrightarrow> \<not> isValidSQLIdentifier (Some (orPublic schemaArg)) \<Longrightarrow>
     getTableSchema env tableName schemaArg
       = ([], Inl (ErrorObj (invalidIdentifierError ''schema name'' (Some (orPublic schemaArg)))))"
  by (simp add: getTableSchema_def validateSQLIdentifier_def)

lemma getTableSchema_denied:
  assumes "isValidSQLIdentifier (Some t)" and "isValidSQLIdentifier (Some (orPublic schemaArg))"
    and "\<not> tools_canAccessTable env t (Some (orPublic schemaArg))"
  shows "getTableSchema env (Some t) schemaArg
       = ([checkEffect env t (Some (orPublic schemaArg))], Inl (ErrorObj (tableAccessDenied t)))"
  using assms by (simp add: getTableSchema_def validateSQLIdentifier_def Let_def)

lemma getTableSchema_allowed:
  assumes "isValidSQLIdentifier (Some t)" and "isValidSQLIdentifier (Some (orPublic schemaArg))"
    and "tools_canAccessTable env t (Some (orPublic schemaArg))"
  shows "length (fst (getTableSchema env (Some t) schemaArg)) \<ge> 2
    \<and> (\<forall>info. snd (getTableSchema env (Some t) schemaArg) = Inr info \<longrightarrow>
          (\<exists>pkData fkData columnsData.
             columns info = map (toColumnInfo pkData fkData)
               (filter (\<lambda>col. \<not> isBlockedColumn
                  (listOrEmpty (blockedColumns (getTablePermission env t (Some (orPublic schemaArg))))) col)
                  columnsData)))"
  using assms
  unfolding getTableSchema_def validateSQLIdentifier_def Let_def listOrEmpty_def
  by (simp split: sum.splits) blast

lemma toColumnInfo_name: "name (toColumnInfo pkData fkData col) = field col ''name''"
  by (simp add: toColumnInfo_def Let_def)


text \<open>
  Claim C4, as the code has it. \<open>getTableSchema\<close> validates both identifiers first: an
  invalid one fails with an invalid-identifier error, whatever the permissions. For valid
  identifiers it fails, before any query, with an \<open>ACCESS_DENIED\<close> error that contains the
  table name exactly when \<open>canAccessTable\<close> is false. A returned \<open>TableInfo\<close> belongs to an
  accessible table, and no column of it is in \<open>blockedColumns\<close> of the resolved
  permission; \<open>allowedColumns\<close> is not read.
\<close>

theorem getTableSchema_guarded:
  "(\<not> isValidSQLIdentifier tableName \<longrightarrow>
       getTableSchema env tableName schemaArg
         = ([], Inl (ErrorObj (invalidIdentifierError ''table name'' tableName))))
   \<and> (isValidSQLIdentifier tableName \<and> \<not> isValidSQLIdentifier (Some (orPublic schemaArg)) \<longrightarrow>
       getTableSchema env tableName schemaArg
         = ([], Inl (ErrorObj (invalidIdentifierError ''schema name'' (Some (orPublic schemaArg))))))
   \<and> (isValidSQLIdentifier tableName \<and> isValidSQLIdentifier (Some (orPublic schemaArg)) \<longrightarrow>
       (let t = the tableName; s = Some (orPublic schemaArg) in
        ((getTableSchema env tableName schemaArg
            = ([checkEffect env t s], Inl (ErrorObj (tableAccessDenied t))))
          = (\<not> tools_canAccessTable env t s))
        \<and> startsWith (tableAccessDenied t) ''ACCESS_DENIED''
        \<and> includesStr (tableAccessDenied t) t
        \<and> (\<forall>info. snd (getTableSchema env tableName schemaArg) = Inr info \<longrightarrow>
              tools_canAccessTable env t s
              \<and> (\<forall>c \<in> set (columns info).
                    \<forall>b \<in> set (listOrEmpty (blockedColumns (getTablePermission env t s))).
                      name c \<noteq> Some (JString b)))))"
proof (intro conjI impI)
  assume "\<not> isValidSQLIdentifier tableName"
  then show "getTableSchema env tableName schemaArg
         = ([], Inl (ErrorObj (invalidIdentifierError ''table name'' tableName)))"
    by (rule getTableSchema_invalid_table)
next
  assume "isValidSQLIdentifier tableName \<and> \<not> isValidSQLIdentifier (Some (orPublic schemaArg))"
  then show "getTableSchema env tableName schemaArg
         = ([], Inl (ErrorObj (invalidIdentifierError ''schema name'' (Some (orPublic schemaArg)))))"
    by (simp add: getTableSchema_invalid_schema)
next
  assume v: "isValidSQLIdentifier tableName \<and> isValidSQLIdentifier (Some (orPublic schemaArg))"
  then obtain t where t: "tableName = Some t"
    by (cases tableName) (auto simp: isValidSQLIdentifier_def)
  define s where "s = Some (orPublic schemaArg)"
  from v t have vt: "isValidSQLIdentifier (Some t)" and vs: "isValidSQLIdentifier (Some (orPublic schemaArg))"
    by simp_all
  have iff: "(getTableSchema env tableName schemaArg
            = ([checkEffect env t s], Inl (ErrorObj (tableAccessDenied t))))
          = (\<not> tools_canAccessTable env t s)"
  proof (cases "tools_canAccessTable env t s")
    case True
    with getTableSchema_allowed [OF vt vs] have "length (fst (getTableSchema env tableName schemaArg)) \<ge> 2"
      by (simp add: s_def t)
    then have "getTableSchema env tableName schemaArg
            \<noteq> ([checkEffect env t s], Inl (ErrorObj (tableAccessDenied t)))"
      by auto
    with True show ?thesis by simp
  next
    case False
    with getTableSchema_denied [OF vt vs] show ?thesis
      by (simp add: s_def t)
  qed
  have cols: "tools_canAccessTable env t s
              \<and> (\<forall>c \<in> set (columns info).
                    \<forall>b \<in> set (listOrEmpty (blockedColumns (getTablePermission env t s))).
                      name c \<noteq> Some (JString b))"
    if r: "snd (getTableSchema env tableName schemaArg) = Inr info" for info
  proof -
    have can: "tools_canAccessTable env t s"
    proof (rule ccontr)
      assume "\<not> tools_canAccessTable env t s"
      with getTableSchema_denied [OF vt vs] r show False
        by (simp add: s_def t)
    qed
    with getTableSchema_allowed [OF vt vs] r obtain pkData fkData columnsData where
      c: "columns info = map (toColumnInfo pkData fkData)
               (filter (\<lambda>col. \<not> isBlockedColumn
                  (listOrEmpty (blockedColumns (getTablePermission env t s))) col) columnsData)"
      unfolding s_def t by blast
    have "name c \<noteq> Some (JString b)"
      if "c \<in> set (columns info)"
        and "b \<in> set (listOrEmpty (blockedColumns (getTablePermission env t s)))" for c b
      using that unfolding c
      by (auto simp: toColumnInfo_name isBlockedColumn_def split: option.splits jsval.splits)
    with can show ?thesis by blast
  qed
  show "let t = the tableName; s = Some (orPublic schemaArg) in
        ((getTableSchema env tableName schemaArg
            = ([checkEffect env t s], Inl (ErrorObj (tableAccessDenied t))))
          = (\<not> tools_canAccessTable env t s))
        \<and> startsWith (tableAccessDenied t) ''ACCESS_DENIED''
        \<and> includesStr (tableAccessDenied t) t
        \<and> (\<forall>info. snd (getTableSchema env tableName schemaArg) = Inr info \<longrightarrow>
              tools_canAccessTable env t s
              \<and> (\<forall>c \<in> set (columns info).
                    \<forall>b \<in> set (listOrEmpty (blockedColumns (getTablePermission env t s))).
                      name c \<noteq> Some (JString b)))"
    unfolding Let_def
    using iff cols tableAccessDenied_prefix tableAccessDenied_names
    unfolding s_def t by simp
qed


lemma valid_identifier_examples:
  "isValidSQLIdentifier (Some ''users'')"
  "isValidSQLIdentifier (Some ''people'')"
  "isValidSQLIdentifier (Some (orPublic None))"
  "\<not> isValidSQLIdentifier (Some ''bad name'')"
  "isValidSQLIdentifier (Some ''public'')"
  by (simp_all add: isValidSQLIdentifier_def orPublic_def char_class_defs)

lemma peopleTools_fields:
  "permissions peopleTools = peopleColumns"
  "rpc peopleTools q = \<lparr> result = RpcData (DataArray peopleRows), latency = 5 \<rparr>"
  by (simp_all add: peopleTools_def)

lemma people_permission:
  "getTablePermission peopleTools ''people'' (Some ''public'') = hd (tables peopleColumns)"
  by (simp add: getTablePermission_def orPublic_def peopleTools_fields peopleColumns_def case_defs)

lemma people_columns:
  "\<exists>info. snd (getTableSchema peopleTools (Some ''people'') None) = Inr info
      \<and> map name (columns info) = [Some (JString ''name''), Some (JString ''email''), Some (JString ''phone'')]"
proof -
  have q: "runQuery peopleTools q = Inr peopleRows" for q
    by (simp add: runQuery_def peopleTools_fields)
  have p: "getTablePermission peopleTools ''people'' (Some (orPublic None)) = hd (tables peopleColumns)"
    using people_permission by (simp add: orPublic_def)
  have v: "validateSQLIdentifier (Some ''people'') ''table name'' = Inr ''people''"
          "validateSQLIdentifier (Some (orPublic None)) ''schema name'' = Inr (orPublic None)"
    using valid_identifier_examples by (simp_all add: validateSQLIdentifier_def)
  have f: "filter (\<lambda>col. \<not> isBlockedColumn [''ssn''] col) peopleRows
             = [[(''name'', JString ''name'')], [(''name'', JString ''email'')], [(''name'', JString ''phone'')]]"
    by (simp add: isBlockedColumn_def peopleRows_def field_def)
  show ?thesis
    unfolding getTableSchema_def Let_def v
    by (simp add: q p tools_canAccessTable_def peopleColumns_def f toColumnInfo_name field_def)
qed

lemma closed_denies: "\<not> tools_canAccessTable closedTools t s"
  by (simp add: tools_canAccessTable_def getTablePermission_def closedTools_def)

theorem getTableSchema_counterexample:
  "(\<exists>info. snd (getTableSchema peopleTools (Some ''people'') None) = Inr info
      \<and> map name (columns info) = [Some (JString ''name''), Some (JString ''email''), Some (JString ''phone'')])
   \<and> allowedColumns (getTablePermission peopleTools ''people'' (Some ''public'')) = Some [''name'', ''email'']
   \<and> \<not> tools_canAccessTable closedTools ''bad name'' (Some ''public'')
   \<and> getTableSchema closedTools (Some ''bad name'') None
       = ([], Inl (ErrorObj (invalidIdentifierError ''table name'' (Some ''bad name''))))
   \<and> \<not> startsWith (invalidIdentifierError ''table name'' (Some ''bad name'')) ''ACCESS_DENIED''"
proof -
  have "allowedColumns (getTablePermission peopleTools ''people'' (Some ''public'')) = Some [''name'', ''email'']"
    by (simp add: people_permission peopleColumns_def)
  moreover have "getTableSchema closedTools (Some ''bad name'') None
       = ([], Inl (ErrorObj (invalidIdentifierError ''table name'' (Some ''bad name''))))"
    using valid_identifier_examples(4) by (rule getTableSchema_invalid_table)
  moreover have "\<not> startsWith (invalidIdentifierError ''table name'' (Some ''bad name'')) ''ACCESS_DENIED''"
    by (simp add: invalidIdentifierError_def startsWith_def)
  ultimately show ?thesis
    using people_columns closed_denies by blast
qed

theorem getTableSchema_guarded_witness:
  "getTableSchema exampleTools (Some ''users'') None
     = ([PermissionCheck ''users'' NoAccess], Inl (ErrorObj (tableAccessDenied ''users'')))
   \<and> (\<exists>info. snd (getTableSchema peopleTools (Some ''people'') None) = Inr info
         \<and> Some (JString ''ssn'') \<notin> set (map name (columns info)))"
proof -
  have c: "checkEffect exampleTools ''users'' (Some (orPublic None)) = PermissionCheck ''users'' NoAccess"
    by (simp add: checkEffect_def getTablePermission_def orPublic_def exampleTools_fields
        usersHidden_def case_defs)
  have d: "\<not> tools_canAccessTable exampleTools ''users'' (Some (orPublic None))"
    using example_access(3) by (simp add: orPublic_def)
  have 1: "getTableSchema exampleTools (Some ''users'') None
     = ([PermissionCheck ''users'' NoAccess], Inl (ErrorObj (tableAccessDenied ''users'')))"
    using getTableSchema_guarded [where tableName = "Some ''users''" and schemaArg = None and env = exampleTools]
    by (simp add: valid_identifier_examples Let_def c d)
  from people_columns obtain info where
    i: "snd (getTableSchema peopleTools (Some ''people'') None) = Inr info"
    and n: "map name (columns info) = [Some (JString ''name''), Some (JString ''email''), Some (JString ''phone'')]"
    by auto
  have "Some (JString ''ssn'') \<notin> set (map name (columns info))"
    using getTableSchema_guarded [where tableName = "Some ''people''" and schemaArg = None and env = peopleTools] i
    by (auto simp: valid_identifier_examples Let_def people_permission
          orPublic_def peopleColumns_def listOrEmpty_def)
  with i 1 show ?thesis by blast
qed

section \<open>Resolving a permission\<close>

lemma getTablePermission_found:
  assumes "find (\<lambda>p. toLowerCase (table p) = toLowerCase t \<and> toLowerCase (schema p) = toLowerCase (orPublic s))
             (tables (permissions env)) = Some p"
  shows "getTablePermission env t s = p"
  using assms by (simp add: getTablePermission_def Let_def)

text \<open>
  The agent's resolution ignores letter case: when some configured entry matches the table
  and the schema up to case, the result is a configured entry that does (the first one);
  only when none matches is the permission synthesised from the default access.
\<close>

lemma getTablePermission_ignores_case:
  "(if \<exists>p \<in> set (tables (permissions env)).
         toLowerCase (table p) = toLowerCase t \<and> toLowerCase (schema p) = toLowerCase (orPublic s)
    then getTablePermission env t s \<in> set (tables (permissions env))
         \<and> toLowerCase (table (getTablePermission env t s)) = toLowerCase t
         \<and> toLowerCase (schema (getTablePermission env t s)) = toLowerCase (orPublic s)
    else getTablePermission env t s
         = \<lparr> table = t, schema = orPublic s, accessLevel = defaultAccess (permissions env),
             allowedColumns = None, blockedColumns = None, description = None \<rparr>)"
proof (cases "find (\<lambda>p. toLowerCase (table p) = toLowerCase t \<and> toLowerCase (schema p) = toLowerCase (orPublic s))
             (tables (permissions env))")
  case None
  then have "\<not> (\<exists>p \<in> set (tables (permissions env)).
         toLowerCase (table p) = toLowerCase t \<and> toLowerCase (schema p) = toLowerCase (orPublic s))"
    by (auto simp: find_None_iff)
  moreover from None have "getTablePermission env t s
         = \<lparr> table = t, schema = orPublic s, accessLevel = defaultAccess (permissions env),
             allowedColumns = None, blockedColumns = None, description = None \<rparr>"
    by (simp add: getTablePermission_def Let_def)
  ultimately show ?thesis by (simp only: if_False)
next
  case (Some p)
  then have "getTablePermission env t s = p"
    by (rule getTablePermission_found)
  with Some show ?thesis
    by (auto simp: find_Some_iff)
qed

lemma getTablePermission_same_level:
  assumes "toLowerCase t = toLowerCase t'" and "toLowerCase (orPublic s) = toLowerCase (orPublic s')"
  shows "accessLevel (getTablePermission env t s) = accessLevel (getTablePermission env t' s')"
  using assms by (simp add: getTablePermission_def Let_def split: option.splits)

text \<open>
  Claim C3 at a configuration whose only entry is \<open>Users\<close> with access none: the web
  module's \<open>getTableAccess\<close> compares names with \<open>===\<close>, finds no entry for \<open>users\<close> and
  returns the default access, under which the table can be accessed; the agent's
  \<open>getTablePermission\<close> finds the entry.
\<close>

theorem getTableAccess_case_sensitive:
  "getTableAccess capitalUsersHidden ''users'' ''public''
     = Some \<lparr> table = ''users'', schema = ''public'', accessLevel = Read,
              allowedColumns = None, blockedColumns = None, description = None \<rparr>
   \<and> canAccessTable capitalUsersHidden ''users'' ''public''
   \<and> accessLevel (getTablePermission (exampleTools \<lparr> permissions := capitalUsersHidden \<rparr>)
                    ''users'' (Some ''public'')) = NoAccess"
  by (simp add: getTableAccess_def canAccessTable_def getTablePermission_def orPublic_def
        capitalUsersHidden_def case_defs)

section \<open>Updating a permission\<close>

lemma findIndex_None: "findIndex P xs = None \<longleftrightarrow> (\<forall>x \<in> set xs. \<not> P x)"
  by (induction xs) auto

lemma findIndex_Some: "findIndex P xs = Some i \<Longrightarrow> i < length xs \<and> P (xs ! i)"
proof (induction xs arbitrary: i)
  case Nil
  then show ?case by simp
next
  case (Cons x xs)
  then show ?case by (cases "P x") auto
qed

lemma uniqueKeys_replace:
  assumes "uniqueKeys ts" and "i < length ts"
    and "table (ts ! i) = table p \<and> schema (ts ! i) = schema p"
  shows "uniqueKeys (ts[i := p])"
proof -
  have "map (\<lambda>t. (schema t, table t)) (ts[i := p]) = (map (\<lambda>t. (schema t, table t)) ts)[i := (schema p, table p)]"
    by (simp add: map_update)
  also have "\<dots> = map (\<lambda>t. (schema t, table t)) ts"
    using assms(2,3) by (simp add: list_update_same_conv)
  finally show ?thesis using assms(1) by (simp add: uniqueKeys_def)
qed

lemma uniqueKeys_append:
  assumes "uniqueKeys ts" and "\<forall>t \<in> set ts. \<not> (table t = table p \<and> schema t = schema p)"
  shows "uniqueKeys (ts @ [p])"
  using assms by (auto simp: uniqueKeys_def)

lemma find_unique:
  "uniqueKeys ts \<Longrightarrow> p \<in> set ts \<Longrightarrow>
     find (\<lambda>t. table t = table p \<and> schema t = schema p) ts = Some p"
proof (induction ts)
  case Nil
  then show ?case by simp
next
  case (Cons x xs)
  show ?case
  proof (cases "table x = table p \<and> schema x = schema p")
    case True
    have "p = x"
    proof (rule ccontr)
      assume "p \<noteq> x"
      with Cons.prems(2) have "p \<in> set xs" by simp
      then have "(schema p, table p) \<in> set (map (\<lambda>t. (schema t, table t)) xs)" by force
      with True Cons.prems(1) show False by (simp add: uniqueKeys_def)
    qed
    with True show ?thesis by simp
  next
    case False
    then have "p \<noteq> x" by auto
    with Cons.prems(2) have "p \<in> set xs" by simp
    moreover from Cons.prems(1) have "uniqueKeys xs" by (simp add: uniqueKeys_def)
    ultimately show ?thesis using Cons.IH False by auto
  qed
qed

lemma updateTablePermission_tables:
  assumes "obj_tables config < length h"
  shows "tables (readConfig (fst (updateTablePermission now h config permission))
                            (snd (updateTablePermission now h config permission)))
     = (case findIndex (\<lambda>t. table t = table permission \<and> schema t = schema permission)
               (h ! obj_tables config) of
          Some i \<Rightarrow> (h ! obj_tables config)[i := permission]
        | None \<Rightarrow> (h ! obj_tables config) @ [permission])"
  by (simp add: updateTablePermission_def readConfig_def Let_def split: option.splits)

lemma updateTablePermission_store:
  assumes "a < length h"
  shows "fst (updateTablePermission now h config permission) ! a = h ! a"
  using assms
  by (simp add: updateTablePermission_def Let_def nth_append split: option.splits)

text \<open>
  What \<open>updateTablePermission\<close> does when keys are compared with \<open>===\<close>, as it compares
  them. For a configuration whose entries have pairwise different (schema, table) keys it
  returns a configuration whose table list is the old one with the entry of the
  permission's key replaced in place, or with the permission appended when no entry has
  that key; the keys of the new list are again pairwise different, the web module's
  \<open>getTableAccess\<close> resolves the key to the permission, the timestamp is the current time,
  and no array of the store has changed: the argument reads as before.
\<close>

lemma updateTablePermission_upsert:
  assumes "obj_tables config < length h" and "uniqueKeys (h ! obj_tables config)"
  shows "(let (h', config') = updateTablePermission now h config permission;
              old = h ! obj_tables config;
              new = tables (readConfig h' config')
          in new = (case findIndex (\<lambda>t. table t = table permission \<and> schema t = schema permission) old of
                      Some i \<Rightarrow> old[i := permission]
                    | None \<Rightarrow> old @ [permission])
           \<and> uniqueKeys new
           \<and> getTableAccess (readConfig h' config') (table permission) (schema permission) = Some permission
           \<and> updatedAt (readConfig h' config') = now
           \<and> defaultAccess (readConfig h' config') = defaultAccess (readConfig h config)
           \<and> (\<forall>a < length h. h' ! a = h ! a)
           \<and> readConfig h' config = readConfig h config)"
proof -
  obtain h' config' where r: "updateTablePermission now h config permission = (h', config')"
    by (cases "updateTablePermission now h config permission")
  let ?old = "h ! obj_tables config"
  let ?new = "tables (readConfig h' config')"
  let ?i = "findIndex (\<lambda>t. table t = table permission \<and> schema t = schema permission) ?old"
  have new: "?new = (case ?i of Some i \<Rightarrow> ?old[i := permission] | None \<Rightarrow> ?old @ [permission])"
    using updateTablePermission_tables [OF assms(1), of now permission]
    by (simp add: r)
  have unique: "uniqueKeys ?new" and member: "permission \<in> set ?new"
  proof -
    show "uniqueKeys ?new"
    proof (cases ?i)
      case None
      then have "\<forall>t \<in> set ?old. \<not> (table t = table permission \<and> schema t = schema permission)"
        by (simp add: findIndex_None)
      with assms(2) have "uniqueKeys (?old @ [permission])"
        by (rule uniqueKeys_append)
      then show ?thesis
        unfolding new None by simp
    next
      case (Some i)
      from findIndex_Some [OF Some] assms(2) show ?thesis
        unfolding new by (simp add: Some uniqueKeys_replace)
    qed
    show "permission \<in> set ?new"
    proof (cases ?i)
      case None
      then show ?thesis unfolding new by simp
    next
      case (Some i)
      from findIndex_Some [OF Some] show ?thesis
        unfolding new by (simp add: Some set_update_memI)
    qed
  qed
  have resolve: "getTableAccess (readConfig h' config') (table permission) (schema permission) = Some permission"
    using find_unique [OF unique member]
    by (simp add: getTableAccess_def)
  have stamp: "updatedAt (readConfig h' config') = now"
    and level: "defaultAccess (readConfig h' config') = defaultAccess (readConfig h config)"
    using r by (auto simp: updateTablePermission_def readConfig_def Let_def)
  have store: "h' ! a = h ! a" if "a < length h" for a
    using updateTablePermission_store [OF that, of now config permission] by (simp add: r)
  then have same: "readConfig h' config = readConfig h config"
    using assms(1) by (simp add: readConfig_def)
  show ?thesis
    unfolding r Let_def prod.case
    using new unique resolve stamp level store same
    by blast
qed

lemma store_examples:
  "obj_tables capitalObject < length capitalStore"
  "uniqueKeys (capitalStore ! obj_tables capitalObject)"
  "uniqueKeysIgnoringCase (capitalStore ! obj_tables capitalObject)"
  by (simp_all add: capitalObject_def capitalStore_def capitalUsersHidden_def uniqueKeys_def
        uniqueKeysIgnoringCase_def)

lemma updateTablePermission_upsert_example:
  "tables (readConfig (fst (updateTablePermission 7 capitalStore capitalObject capitalUsersRead))
                      (snd (updateTablePermission 7 capitalStore capitalObject capitalUsersRead)))
     = [capitalUsersRead]
   \<and> updatedAt (readConfig (fst (updateTablePermission 7 capitalStore capitalObject capitalUsersRead))
                           (snd (updateTablePermission 7 capitalStore capitalObject capitalUsersRead))) = 7
   \<and> readConfig (fst (updateTablePermission 7 capitalStore capitalObject capitalUsersRead)) capitalObject
     = capitalUsersHidden"
proof -
  have i: "findIndex (\<lambda>t. table t = table capitalUsersRead \<and> schema t = schema capitalUsersRead)
             (capitalStore ! obj_tables capitalObject) = Some 0"
    by (simp add: capitalStore_def capitalObject_def capitalUsersHidden_def capitalUsersRead_def)
  have c: "readConfig capitalStore capitalObject = capitalUsersHidden"
    by (simp add: readConfig_def capitalStore_def capitalObject_def capitalUsersHidden_def)
  have t: "(capitalStore ! obj_tables capitalObject)[0 := capitalUsersRead] = [capitalUsersRead]"
    by (simp add: capitalStore_def capitalObject_def capitalUsersHidden_def)
  show ?thesis
    using updateTablePermission_upsert [OF store_examples(1) store_examples(2), of 7 capitalUsersRead]
    by (simp add: Let_def i c t split: prod.splits)
qed

lemma upsert_lower_example:
  "readConfig (fst (updateTablePermission 7 capitalStore capitalObject lowerUsersRead))
              (snd (updateTablePermission 7 capitalStore capitalObject lowerUsersRead))
     = \<lparr> defaultAccess = Read, tables = tables capitalUsersHidden @ [lowerUsersRead], updatedAt = 7 \<rparr>"
  by (simp add: updateTablePermission_def readConfig_def Let_def capitalStore_def capitalObject_def
        capitalUsersHidden_def lowerUsersRead_def)

text \<open>
  Claim C9 at a configuration whose only entry is \<open>Users\<close> with access none, which has one
  entry per key also when letter case is ignored. \<open>updateTablePermission\<close> looks for the
  entry of \<open>users\<close> with \<open>===\<close>, finds none and appends: the result holds \<open>Users\<close> and
  \<open>users\<close>, two entries with the same key up to letter case. The two resolutions then
  disagree on the result: the web module's \<open>getTableAccess\<close> gives the new entry and
  \<open>users\<close> can be read, the agent's \<open>getTablePermission\<close>, which ignores case, still gives
  the entry of \<open>Users\<close> with access none. The argument is not mutated.
\<close>

theorem updateTablePermission_case_sensitive:
  "uniqueKeysIgnoringCase (tables (readConfig capitalStore capitalObject))
   \<and> tables (readConfig (fst (updateTablePermission 7 capitalStore capitalObject lowerUsersRead))
                        (snd (updateTablePermission 7 capitalStore capitalObject lowerUsersRead)))
       = [\<lparr> table = ''Users'', schema = ''public'', accessLevel = NoAccess,
            allowedColumns = None, blockedColumns = None, description = None \<rparr>,
          \<lparr> table = ''users'', schema = ''public'', accessLevel = Read,
            allowedColumns = None, blockedColumns = None, description = None \<rparr>]
   \<and> \<not> uniqueKeysIgnoringCase
        (tables (readConfig (fst (updateTablePermission 7 capitalStore capitalObject lowerUsersRead))
                            (snd (updateTablePermission 7 capitalStore capitalObject lowerUsersRead))))
   \<and> canAccessTable
        (readConfig (fst (updateTablePermission 7 capitalStore capitalObject lowerUsersRead))
                    (snd (updateTablePermission 7 capitalStore capitalObject lowerUsersRead)))
        ''users'' ''public''
   \<and> accessLevel
        (getTablePermission
           (exampleTools \<lparr> permissions :=
              readConfig (fst (updateTablePermission 7 capitalStore capitalObject lowerUsersRead))
                         (snd (updateTablePermission 7 capitalStore capitalObject lowerUsersRead)) \<rparr>)
           ''users'' (Some ''public'')) = NoAccess
   \<and> readConfig (fst (updateTablePermission 7 capitalStore capitalObject lowerUsersRead)) capitalObject
       = readConfig capitalStore capitalObject"
proof -
  have before: "uniqueKeysIgnoringCase (tables (readConfig capitalStore capitalObject))"
    using store_examples(3) by (simp add: readConfig_def)
  have same: "readConfig (fst (updateTablePermission 7 capitalStore capitalObject lowerUsersRead)) capitalObject
       = readConfig capitalStore capitalObject"
    by (simp add: updateTablePermission_def readConfig_def Let_def capitalStore_def capitalObject_def
          capitalUsersHidden_def lowerUsersRead_def)
  have after: "\<not> uniqueKeysIgnoringCase (tables capitalUsersHidden @ [lowerUsersRead])"
    by (simp add: uniqueKeysIgnoringCase_def capitalUsersHidden_def lowerUsersRead_def case_defs)
  have web: "canAccessTable
        \<lparr> defaultAccess = Read, tables = tables capitalUsersHidden @ [lowerUsersRead], updatedAt = 7 \<rparr>
        ''users'' ''public''"
    by (simp add: canAccessTable_def getTableAccess_def capitalUsersHidden_def lowerUsersRead_def)
  have agent: "accessLevel
        (getTablePermission
           (exampleTools \<lparr> permissions :=
              \<lparr> defaultAccess = Read, tables = tables capitalUsersHidden @ [lowerUsersRead],
                updatedAt = 7 \<rparr> \<rparr>)
           ''users'' (Some ''public'')) = NoAccess"
    by (simp add: getTablePermission_def orPublic_def capitalUsersHidden_def lowerUsersRead_def
          case_defs)
  have entries: "tables capitalUsersHidden @ [lowerUsersRead]
       = [\<lparr> table = ''Users'', schema = ''public'', accessLevel = NoAccess,
            allowedColumns = None, blockedColumns = None, description = None \<rparr>,
          \<lparr> table = ''users'', schema = ''public'', accessLevel = Read,
            allowedColumns = None, blockedColumns = None, description = None \<rparr>]"
    by (simp add: capitalUsersHidden_def lowerUsersRead_def)
  from before same after web agent entries show ?thesis
    unfolding upsert_lower_example by simp
qed

section \<open>The turn of the orchestrator\<close>

lemma consume_types: "ev_type ` set (fst (consume xs)) \<subseteq> {EvText}"
proof (induction xs)
  case Nil
  then show ?case by simp
next
  case (Cons x xs)
  then show ?case
    by (cases "consume xs"; cases x) (auto split: if_splits)
qed

lemma parsedEvents_types:
  "ev_type ` set (parsedEvents parsed) \<subseteq> {EvInsights, EvChart, EvPermissionDenied}"
  by (auto simp: parsedEvents_def split: option.splits)

lemma runTools_types:
  "ev_type ` set (fst (runTools env blocks hist)) \<subseteq> {EvToolCall, EvSql, EvToolResult, EvData}"
proof (induction blocks arbitrary: hist)
  case Nil
  then show ?case by simp
next
  case (Cons b blocks)
  obtain i n inp where b: "b = (i, n, inp)" by (cases b)
  from handleToolCall_returns obtain r where r: "snd (handleToolCall env n inp) = Inr r" by blast
  obtain evs hist' f where rest: "runTools env blocks (hist @ [ToolResultMessage i r]) = (evs, hist', f)"
    by (cases "runTools env blocks (hist @ [ToolResultMessage i r])")
  from Cons.IH [of "hist @ [ToolResultMessage i r]"] rest
  have "ev_type ` set evs \<subseteq> {EvToolCall, EvSql, EvToolResult, EvData}" by simp
  then show ?case
    by (auto simp: b r rest Let_def split: envelope.splits payload.splits)
qed

lemma runTools_no_failure: "snd (snd (runTools env blocks hist)) = None"
proof (induction blocks arbitrary: hist)
  case Nil
  then show ?case by simp
next
  case (Cons b blocks)
  obtain i n inp where b: "b = (i, n, inp)" by (cases b)
  from handleToolCall_returns obtain r where r: "snd (handleToolCall env n inp) = Inr r" by blast
  obtain evs hist' f where rest: "runTools env blocks (hist @ [ToolResultMessage i r]) = (evs, hist', f)"
    by (cases "runTools env blocks (hist @ [ToolResultMessage i r])")
  from Cons.IH [of "hist @ [ToolResultMessage i r]"] rest have "f = None" by simp
  then show ?case
    by (simp add: b r rest Let_def)
qed


text \<open>
  The invariant of the loop: at most as many requests as iterations are left, and no
  \<open>done\<close> and no \<open>error\<close> event inside the loop.
\<close>

lemma iterate_invariant:
  "modelCalls (iterate model parseResponse env n hist) \<le> n
   \<and> ev_type ` set (events (iterate model parseResponse env n hist))
        \<subseteq> {EvText, EvInsights, EvChart, EvPermissionDenied, EvToolCall, EvSql, EvToolResult, EvData}"
proof (induction n arbitrary: hist)
  case 0
  show ?case by simp
next
  case (Suc n)
  show ?case
  proof (cases "model hist")
    case (CallFailed e)
    then show ?thesis by auto
  next
    case (Stream s)
    obtain textEvents currentText toolUseBlocks
      where c: "consume (items s) = (textEvents, currentText, toolUseBlocks)"
      by (cases "consume (items s)")
    from consume_types [of "items s"] c
    have plain: "ev_type ` set textEvents \<subseteq> {EvText}" by simp
    show ?thesis
    proof (cases "broken s")
      case (Some e)
      with Stream c plain show ?thesis by auto
    next
      case None
      note unbroken = None
      show ?thesis
      proof (cases "finalMessage s")
        case (Inl e)
        with Stream c plain unbroken show ?thesis by auto
      next
        case (Inr final)
        obtain content stop where final: "final = (content, stop)" by (cases final)
        let ?evs = "textEvents @ parsedEvents (parseResponse currentText)"
        have evs: "ev_type ` set ?evs \<subseteq> {EvText, EvInsights, EvChart, EvPermissionDenied}"
          using plain parsedEvents_types [of "parseResponse currentText"] by auto
        show ?thesis
        proof (cases "toolUseBlocks = []")
          case True
          with Stream c unbroken Inr final evs show ?thesis by auto
        next
          case False
          let ?hist1 = "hist @ [AssistantMessage content]"
          obtain toolEvents hist2 f
            where t: "runTools env (finalInputs content toolUseBlocks) ?hist1 = (toolEvents, hist2, f)"
            by (cases "runTools env (finalInputs content toolUseBlocks) ?hist1")
          from runTools_no_failure [of env "finalInputs content toolUseBlocks" ?hist1] t
          have f: "f = None" by simp
          from runTools_types [of env "finalInputs content toolUseBlocks" ?hist1] t
          have tools: "ev_type ` set toolEvents \<subseteq> {EvToolCall, EvSql, EvToolResult, EvData}" by simp
          show ?thesis
          proof (cases "stop = EndTurn")
            case True
            with Stream c unbroken Inr final False t f evs tools show ?thesis by auto
          next
            case continue: False
            let ?next = "iterate model parseResponse env n hist2"
            have step: "iterate model parseResponse env (Suc n) hist
                = ?next \<lparr> events := ?evs @ toolEvents @ events ?next,
                           requests := hist # requests ?next,
                           modelCalls := Suc (modelCalls ?next) \<rparr>"
              using Stream c unbroken Inr final False t f continue by (simp add: Let_def)
            from Suc.IH [of hist2] evs tools show ?thesis
              unfolding step by auto
          qed
        qed
      qed
    qed
  qed
qed

text \<open>
  The requests of a turn: the first one sends the history the loop starts with, every
  request but the last one was answered without a failure, and the turn throws exactly
  what the last request threw.
\<close>

lemma iterate_requests:
  "modelCalls (iterate model parseResponse env n hist)
     = length (requests (iterate model parseResponse env n hist))
   \<and> (\<forall>h \<in> set (butlast (requests (iterate model parseResponse env n hist))).
         replyFailure (model h) = None)
   \<and> failure (iterate model parseResponse env n hist)
       = (if requests (iterate model parseResponse env n hist) = [] then None
          else replyFailure (model (last (requests (iterate model parseResponse env n hist)))))
   \<and> (0 < n \<longrightarrow> requests (iterate model parseResponse env n hist) \<noteq> []
                 \<and> hd (requests (iterate model parseResponse env n hist)) = hist)"
proof (induction n arbitrary: hist)
  case 0
  show ?case by simp
next
  case (Suc n)
  show ?case
  proof (cases "model hist")
    case (CallFailed e)
    then show ?thesis by (simp add: replyFailure_def)
  next
    case (Stream s)
    obtain textEvents currentText toolUseBlocks
      where c: "consume (items s) = (textEvents, currentText, toolUseBlocks)"
      by (cases "consume (items s)")
    show ?thesis
    proof (cases "broken s")
      case (Some e)
      with Stream c show ?thesis by (simp add: replyFailure_def)
    next
      case None
      note unbroken = None
      show ?thesis
      proof (cases "finalMessage s")
        case (Inl e)
        with Stream c unbroken show ?thesis by (simp add: replyFailure_def)
      next
        case (Inr final)
        obtain content stop where final: "final = (content, stop)" by (cases final)
        have r: "replyFailure (model hist) = None"
          using Stream unbroken Inr by (simp add: replyFailure_def)
        show ?thesis
        proof (cases "toolUseBlocks = []")
          case True
          with Stream c unbroken Inr final r show ?thesis by (simp add: Let_def)
        next
          case False
          let ?hist1 = "hist @ [AssistantMessage content]"
          obtain toolEvents hist2 f
            where t: "runTools env (finalInputs content toolUseBlocks) ?hist1 = (toolEvents, hist2, f)"
            by (cases "runTools env (finalInputs content toolUseBlocks) ?hist1")
          from runTools_no_failure [of env "finalInputs content toolUseBlocks" ?hist1] t
          have f: "f = None" by simp
          show ?thesis
          proof (cases "stop = EndTurn")
            case True
            with Stream c unbroken Inr final False t f r show ?thesis by (simp add: Let_def)
          next
            case continue: False
            let ?next = "iterate model parseResponse env n hist2"
            have step: "iterate model parseResponse env (Suc n) hist
                = ?next \<lparr> events := textEvents @ parsedEvents (parseResponse currentText)
                                      @ toolEvents @ events ?next,
                           requests := hist # requests ?next,
                           modelCalls := Suc (modelCalls ?next) \<rparr>"
              using Stream c unbroken Inr final False t f continue by (simp add: Let_def)
            from Suc.IH [of hist2] r show ?thesis
              unfolding step by auto
          qed
        qed
      qed
    qed
  qed
qed

text \<open>Nothing but the model collaborator makes a turn fail.\<close>

lemma iterate_no_failure:
  assumes ok: "\<forall>h. \<exists>s c r. model h = Stream s \<and> broken s = None \<and> finalMessage s = Inr (c, r)"
  shows "failure (iterate model parseResponse env n hist) = None"
proof (induction n arbitrary: hist)
  case 0
  show ?case by simp
next
  case (Suc n)
  from ok obtain s content stop
    where s: "model hist = Stream s" "broken s = None" "finalMessage s = Inr (content, stop)"
    by blast
  obtain textEvents currentText toolUseBlocks
    where c: "consume (items s) = (textEvents, currentText, toolUseBlocks)"
    by (cases "consume (items s)")
  let ?hist1 = "hist @ [AssistantMessage content]"
  obtain toolEvents hist2 f
    where t: "runTools env (finalInputs content toolUseBlocks) ?hist1 = (toolEvents, hist2, f)"
    by (cases "runTools env (finalInputs content toolUseBlocks) ?hist1")
  from runTools_no_failure [of env "finalInputs content toolUseBlocks" ?hist1] t
  have f: "f = None" by simp
  show ?case
    using s c t f Suc.IH [of hist2] by (simp add: Let_def)
qed

text \<open>A request that throws ends the turn with the events yielded so far.\<close>

lemma iterate_call_fails:
  "model hist = CallFailed e \<Longrightarrow>
     iterate model parseResponse env (Suc n) hist
       = \<lparr> events = [], requests = [hist], modelCalls = 1, history = hist, failure = Some e \<rparr>"
  by simp

lemma iterate_stream_breaks:
  "model hist = Stream s \<Longrightarrow> broken s = Some e \<Longrightarrow>
     iterate model parseResponse env (Suc n) hist
       = \<lparr> events = fst (consume (items s)), requests = [hist], modelCalls = 1, history = hist,
           failure = Some e \<rparr>"
  by (cases "consume (items s)") simp

lemma iterate_finalMessage_fails:
  "model hist = Stream s \<Longrightarrow> broken s = None \<Longrightarrow> finalMessage s = Inl e \<Longrightarrow>
     iterate model parseResponse env (Suc n) hist
       = \<lparr> events = fst (consume (items s)), requests = [hist], modelCalls = 1, history = hist,
           failure = Some e \<rparr>"
  by (cases "consume (items s)") simp

text \<open>
  Claim C8, as the code has it. A turn makes at most \<open>maxIterations\<close> requests to the
  model (ten, when the configuration gives no number); the first one sends the
  conversation with the user's message, and every request but the last one is answered
  without a failure. The turn throws exactly what its last request threw, be it the call,
  the stream while it is read or \<open>finalMessage()\<close>, and nothing when that request threw
  nothing or when no request was made. When the turn does not throw it ends normally,
  also when the cap stops it, and its events are events of the loop followed by one
  \<open>done\<close> event, the only one. When it throws, the events already yielded stay and
  \<open>chatStream\<close> emits no \<open>done\<close> event; it never emits an \<open>error\<close> event. For the first
  request the three failures are spelled out: a call that throws leaves no event, a
  stream that breaks and a final message that fails leave the text events of the stream.
\<close>

theorem chatStream_done:
  "(let t = chatStream model parseResponse analyst userMessage;
        hist = conversationHistory analyst @ [UserMessage userMessage] in
      modelCalls t \<le> maxIterations analyst
    \<and> (failure t = None \<longrightarrow>
         (\<exists>es. events t = es @ [doneEvent] \<and> EvDone \<notin> ev_type ` set es))
    \<and> (failure t \<noteq> None \<longrightarrow> EvDone \<notin> ev_type ` set (events t))
    \<and> EvError \<notin> ev_type ` set (events t)
    \<and> ((\<forall>h. \<exists>s c r. model h = Stream s \<and> broken s = None \<and> finalMessage s = Inr (c, r))
         \<longrightarrow> failure t = None)
    \<and> (\<forall>e. maxIterations analyst > 0 \<and> model hist = CallFailed e
         \<longrightarrow> failure t = Some e \<and> events t = [])
    \<and> (\<forall>s e. maxIterations analyst > 0 \<and> model hist = Stream s \<and> broken s = Some e
         \<longrightarrow> failure t = Some e \<and> events t = fst (consume (items s)))
    \<and> (\<forall>s e. maxIterations analyst > 0 \<and> model hist = Stream s \<and> broken s = None
              \<and> finalMessage s = Inl e
         \<longrightarrow> failure t = Some e \<and> events t = fst (consume (items s)))
    \<and> modelCalls t = length (requests t)
    \<and> (maxIterations analyst > 0 \<longrightarrow> requests t \<noteq> [] \<and> hd (requests t) = hist)
    \<and> (\<forall>h \<in> set (butlast (requests t)). replyFailure (model h) = None)
    \<and> failure t = (if requests t = [] then None
                    else replyFailure (model (last (requests t))))
    \<and> (config_maxIterations config = None \<longrightarrow> maxIterations (newDataAnalyst config) = 10))"
proof -
  let ?hist = "conversationHistory analyst @ [UserMessage userMessage]"
  let ?loop = "iterate model parseResponse (analyst_tools analyst) (maxIterations analyst) ?hist"
  let ?t = "chatStream model parseResponse analyst userMessage"
  have t: "?t = (if failure ?loop = None then ?loop \<lparr> events := events ?loop @ [doneEvent] \<rparr> else ?loop)"
    by (simp add: chatStream_def Let_def)
  from iterate_invariant [of model parseResponse "analyst_tools analyst" "maxIterations analyst" ?hist]
  have calls: "modelCalls ?loop \<le> maxIterations analyst"
    and types: "EvDone \<notin> ev_type ` set (events ?loop)" "EvError \<notin> ev_type ` set (events ?loop)"
    by auto
  have same: "requests ?t = requests ?loop" "failure ?t = failure ?loop"
    "modelCalls ?t = modelCalls ?loop"
    by (simp_all add: t)
  note reqs = iterate_requests [of model parseResponse "analyst_tools analyst"
      "maxIterations analyst" ?hist, folded same]
  have d: "ev_type doneEvent = EvDone"
    by (simp add: doneEvent_def)
  have 1: "modelCalls ?t \<le> maxIterations analyst"
    using calls by (simp add: t)
  have 2: "\<exists>es. events ?t = es @ [doneEvent] \<and> EvDone \<notin> ev_type ` set es" if "failure ?t = None"
  proof -
    from that have "failure ?loop = None" by (simp add: t split: if_splits)
    then have "events ?t = events ?loop @ [doneEvent]" by (simp add: t)
    with types(1) show ?thesis by blast
  qed
  have 3: "EvDone \<notin> ev_type ` set (events ?t)" if "failure ?t \<noteq> None"
  proof -
    from that have "failure ?loop \<noteq> None" by (simp add: t split: if_splits)
    then have "?t = ?loop" by (simp add: t)
    with types(1) show ?thesis by simp
  qed
  have 4: "EvError \<notin> ev_type ` set (events ?t)"
    using types(2) d by (auto simp: t)
  have 5: "failure ?t = None"
    if "\<forall>h. \<exists>s c r. model h = Stream s \<and> broken s = None \<and> finalMessage s = Inr (c, r)"
    using iterate_no_failure [OF that] by (simp add: t)
  have 6: "failure ?t = Some e \<and> events ?t = []"
    if "maxIterations analyst > 0 \<and> model ?hist = CallFailed e" for e
  proof -
    from that obtain n where "maxIterations analyst = Suc n" by (cases "maxIterations analyst") auto
    with that show ?thesis by (simp add: t)
  qed
  have 7: "failure ?t = Some e \<and> events ?t = fst (consume (items s))"
    if "maxIterations analyst > 0 \<and> model ?hist = Stream s \<and> broken s = Some e" for s e
  proof -
    from that obtain n where "maxIterations analyst = Suc n" by (cases "maxIterations analyst") auto
    with that show ?thesis by (simp add: t iterate_stream_breaks del: iterate.simps)
  qed
  have 8: "failure ?t = Some e \<and> events ?t = fst (consume (items s))"
    if "maxIterations analyst > 0 \<and> model ?hist = Stream s \<and> broken s = None
        \<and> finalMessage s = Inl e" for s e
  proof -
    from that obtain n where "maxIterations analyst = Suc n" by (cases "maxIterations analyst") auto
    with that show ?thesis by (simp add: t iterate_finalMessage_fails del: iterate.simps)
  qed
  have 9: "modelCalls ?t = length (requests ?t)"
    using reqs by blast
  have 10: "requests ?t \<noteq> [] \<and> hd (requests ?t) = ?hist" if "maxIterations analyst > 0"
    using reqs that by blast
  have 11: "\<forall>h \<in> set (butlast (requests ?t)). replyFailure (model h) = None"
    using reqs by blast
  have 12: "failure ?t = (if requests ?t = [] then None
                          else replyFailure (model (last (requests ?t))))"
    using reqs by blast
  have 13: "maxIterations (newDataAnalyst config) = 10" if "config_maxIterations config = None"
    using that by (simp add: newDataAnalyst_def)
  show ?thesis
    unfolding Let_def
    apply (intro conjI allI impI)
    using 1 2 3 4 5 6 7 8 9 10 11 12 13 by blast+
qed

lemma exampleAnalyst_fields:
  "maxIterations exampleAnalyst = 2"
  "analyst_tools exampleAnalyst = exampleTools"
  "conversationHistory exampleAnalyst = []"
  by (simp_all add: exampleAnalyst_def newDataAnalyst_def)

text \<open>
  Two turns that end without a \<open>done\<close> event: the call to the model throws, and the
  stream breaks after its first text fragment.
\<close>

theorem chatStream_counterexample:
  "failure (chatStream failingModel noBlocks exampleAnalyst ''hello'') = Some (ErrorObj ''overloaded'')
   \<and> events (chatStream failingModel noBlocks exampleAnalyst ''hello'') = []
   \<and> doneEvent \<notin> set (events (chatStream failingModel noBlocks exampleAnalyst ''hello''))
   \<and> failure (chatStream breakingModel noBlocks exampleAnalyst ''hello'')
       = Some (ErrorObj ''socket hang up'')
   \<and> events (chatStream breakingModel noBlocks exampleAnalyst ''hello'')
       = [\<lparr> ev_type = EvText, ev_content = Text ''Let me'', ev_data = None \<rparr>]
   \<and> doneEvent \<notin> set (events (chatStream breakingModel noBlocks exampleAnalyst ''hello''))"
  by (simp add: chatStream_def exampleAnalyst_fields failingModel_def breakingModel_def
      numeral_2_eq_2 doneEvent_def)

text \<open>A model that asks for a tool in every response runs the loop up to the cap.\<close>

lemma askingModel_runs_to_cap:
  "modelCalls (iterate askingModel parseResponse env n hist) = n"
proof (induction n arbitrary: hist)
  case 0
  show ?case by simp
next
  case (Suc n)
  let ?content = "[TextBlock ''Looking.'', ToolUseBlock ''t1'' ''list_tables'' emptyInput]"
  let ?blocks = "[(''t1'', ''list_tables'', emptyInput)]"
  have c: "consume [TextDelta ''Looking.'', ToolUseStart ''t1'' ''list_tables'', BlockStop]
             = ([\<lparr> ev_type = EvText, ev_content = Text ''Looking.'', ev_data = None \<rparr>], ''Looking.'', ?blocks)"
    by simp
  have i: "finalInputs ?content ?blocks = ?blocks"
    by (simp add: finalInputs_def)
  obtain toolEvents hist2 f
    where t: "runTools env ?blocks (hist @ [AssistantMessage ?content]) = (toolEvents, hist2, f)"
    by (cases "runTools env ?blocks (hist @ [AssistantMessage ?content])")
  from runTools_no_failure [of env ?blocks "hist @ [AssistantMessage ?content]"] t
  have f: "f = None" by simp
  show ?case
    using Suc.IH [of hist2]
    by (simp add: askingModel_def c i t f Let_def del: consume.simps runTools.simps)
qed

theorem chatStream_done_witness:
  "modelCalls (chatStream askingModel noBlocks exampleAnalyst ''hello'') = 2
   \<and> failure (chatStream askingModel noBlocks exampleAnalyst ''hello'') = None
   \<and> (\<exists>es. events (chatStream askingModel noBlocks exampleAnalyst ''hello'') = es @ [doneEvent]
             \<and> EvDone \<notin> ev_type ` set es)
   \<and> failure (chatStream breakingModel noBlocks exampleAnalyst ''hello'')
       = Some (ErrorObj ''socket hang up'')
   \<and> events (chatStream breakingModel noBlocks exampleAnalyst ''hello'')
       = [\<lparr> ev_type = EvText, ev_content = Text ''Let me'', ev_data = None \<rparr>]
   \<and> EvDone \<notin> ev_type ` set (events (chatStream breakingModel noBlocks exampleAnalyst ''hello''))
   \<and> maxIterations (newDataAnalyst \<lparr> config_tools = exampleTools, config_maxIterations = None \<rparr>) = 10"
proof -
  have ok: "\<forall>h. \<exists>s c r. askingModel h = Stream s \<and> broken s = None \<and> finalMessage s = Inr (c, r)"
    by (simp add: askingModel_def)
  have cap: "modelCalls (chatStream askingModel noBlocks exampleAnalyst ''hello'') = 2"
    by (simp add: chatStream_def Let_def askingModel_runs_to_cap exampleAnalyst_fields)
  note asking = chatStream_done [of askingModel noBlocks exampleAnalyst "''hello''"
      "\<lparr> config_tools = exampleTools, config_maxIterations = None \<rparr>", unfolded Let_def]
  have a: "(\<forall>h. \<exists>s c r. askingModel h = Stream s \<and> broken s = None \<and> finalMessage s = Inr (c, r))
             \<longrightarrow> failure (chatStream askingModel noBlocks exampleAnalyst ''hello'') = None"
    using asking by - (elim conjE, assumption)
  have b: "failure (chatStream askingModel noBlocks exampleAnalyst ''hello'') = None \<longrightarrow>
         (\<exists>es. events (chatStream askingModel noBlocks exampleAnalyst ''hello'') = es @ [doneEvent]
             \<and> EvDone \<notin> ev_type ` set es)"
    using asking by - (elim conjE, assumption)
  have ten: "config_maxIterations \<lparr> config_tools = exampleTools, config_maxIterations = None \<rparr> = None
      \<longrightarrow> maxIterations (newDataAnalyst \<lparr> config_tools = exampleTools, config_maxIterations = None \<rparr>) = 10"
    using asking by - (elim conjE, assumption)
  from a ok have none: "failure (chatStream askingModel noBlocks exampleAnalyst ''hello'') = None" ..
  let ?s = "\<lparr> items = [TextDelta ''Let me''], broken = Some (ErrorObj ''socket hang up''),
              finalMessage = Inl (ErrorObj ''stream ended'') \<rparr>"
  note breaking = chatStream_done [of breakingModel noBlocks exampleAnalyst "''hello''"
      "\<lparr> config_tools = exampleTools, config_maxIterations = None \<rparr>", unfolded Let_def]
  have br: "\<forall>s e. maxIterations exampleAnalyst > 0
              \<and> breakingModel (conversationHistory exampleAnalyst @ [UserMessage ''hello'']) = Stream s
              \<and> broken s = Some e
            \<longrightarrow> failure (chatStream breakingModel noBlocks exampleAnalyst ''hello'') = Some e
                \<and> events (chatStream breakingModel noBlocks exampleAnalyst ''hello'')
                    = fst (consume (items s))"
    using breaking by - (elim conjE, assumption)
  have nd: "failure (chatStream breakingModel noBlocks exampleAnalyst ''hello'') \<noteq> None
            \<longrightarrow> EvDone \<notin> ev_type ` set (events (chatStream breakingModel noBlocks exampleAnalyst ''hello''))"
    using breaking by - (elim conjE, assumption)
  from br [rule_format, of ?s "ErrorObj ''socket hang up''"]
  have broke: "failure (chatStream breakingModel noBlocks exampleAnalyst ''hello'')
                 = Some (ErrorObj ''socket hang up'')"
    "events (chatStream breakingModel noBlocks exampleAnalyst ''hello'')
       = [\<lparr> ev_type = EvText, ev_content = Text ''Let me'', ev_data = None \<rparr>]"
    by (simp_all add: breakingModel_def exampleAnalyst_fields)
  from nd broke(1) have "EvDone \<notin> ev_type ` set (events (chatStream breakingModel noBlocks exampleAnalyst ''hello''))"
    by simp
  with b cap none broke ten show ?thesis by simp
qed

section \<open>The SQL safety validator\<close>

lemma toUpperChar_idem: "toUpperChar (toUpperChar c) = toUpperChar c"
  by (simp add: toUpperChar_def lowerLetters_def upperLetters_def lowerLatin_def upperLatin_def)

lemma set_trim: "set (trim s) \<subseteq> set s"
proof -
  have "set (trim s) \<subseteq> set (rev (dropWhile isSpace s))"
    unfolding trim_def using set_dropWhileD by fastforce
  also have "\<dots> \<subseteq> set s"
    using set_dropWhileD by fastforce
  finally show ?thesis .
qed

lemma normalized_upper:
  assumes "c \<in> set (trim (toUpperCase sql))" shows "toUpperChar c = c"
proof -
  from assms set_trim have "c \<in> set (toUpperCase sql)" by blast
  then obtain d where "c \<in> set (upperOf d)" by (auto simp: toUpperCase_def)
  then have "c = CHR ''S'' \<or> c = toUpperChar d"
    by (auto simp: upperOf_def split: if_splits)
  moreover have "toUpperChar CHR ''S'' = CHR ''S''"
    by (simp add: toUpperChar_def lowerLetters_def upperLetters_def lowerLatin_def upperLatin_def)
  ultimately show ?thesis by (auto simp: toUpperChar_idem)
qed

lemma blocked_keywords_upper:
  "k \<in> set BLOCKED_KEYWORDS \<Longrightarrow> map toUpperChar k = k \<and> k \<noteq> [] \<and> \<not> isSpace (hd k)"
  by (auto simp: BLOCKED_KEYWORDS_def upper_chars space_chars)


lemma keywordHere_iff:
  assumes up: "\<forall>c \<in> set s. toUpperChar c = c" and k: "map toUpperChar k = k"
  shows "keywordHere k s \<longleftrightarrow>
           take (length k) s = k \<and> (drop (length k) s = [] \<or> \<not> isWordChar (s ! length k))"
proof -
  have "\<forall>c \<in> set (take (length k) s). toUpperChar c = c"
    using up by (meson in_set_takeD)
  then have 1: "map toUpperChar (take (length k) s) = take (length k) s"
    by (simp add: map_idI)
  have 2: "length k \<le> length s" if "take (length k) s = k"
  proof -
    from that have "length (take (length k) s) = length k" by simp
    then show ?thesis by simp
  qed
  have 3: "(case drop (length k) s of [] \<Rightarrow> True | c # _ \<Rightarrow> \<not> isWordChar c)
            \<longleftrightarrow> (drop (length k) s = [] \<or> \<not> isWordChar (s ! length k))"
  proof (cases "drop (length k) s")
    case Nil
    then show ?thesis by simp
  next
    case (Cons c cs)
    then have "s ! length k = c" by (rule nth_via_drop)
    with Cons show ?thesis by simp
  qed
  show ?thesis
    unfolding keywordHere_def 1 k 3 using 2 by blast
qed

lemma keywordAfterSemicolon_iff:
  "keywordAfterSemicolon k s \<longleftrightarrow>
     (\<exists>j < length s. s ! j = CHR '';'' \<and> keywordHere k (dropWhile isSpace (drop (Suc j) s)))"
proof (induction s)
  case Nil
  then show ?case by simp
next
  case (Cons c cs)
  have "(\<exists>j < length (c # cs). (c # cs) ! j = CHR '';''
            \<and> keywordHere k (dropWhile isSpace (drop (Suc j) (c # cs))))
        \<longleftrightarrow> (c = CHR '';'' \<and> keywordHere k (dropWhile isSpace cs))
            \<or> (\<exists>j < length cs. cs ! j = CHR '';'' \<and> keywordHere k (dropWhile isSpace (drop (Suc j) cs)))"
    by (auto simp: less_Suc_eq_0_disj)
  with Cons.IH show ?case by simp
qed

lemma dropWhile_skip:
  assumes "j < i" and "i \<le> length s" and "\<forall>k. j < k \<and> k < i \<longrightarrow> P (s ! k)"
    and "i < length s \<longrightarrow> \<not> P (s ! i)"
  shows "dropWhile P (drop (Suc j) s) = drop i s"
proof -
  let ?m = "i - Suc j"
  have split: "drop (Suc j) s = take ?m (drop (Suc j) s) @ drop i s"
    using assms(1) by (metis Suc_leI append_take_drop_id drop_drop le_add_diff_inverse2)
  have "P x" if "x \<in> set (take ?m (drop (Suc j) s))" for x
  proof -
    from that obtain q where q: "q < length (take ?m (drop (Suc j) s))"
      and x: "x = take ?m (drop (Suc j) s) ! q"
      by (auto simp: in_set_conv_nth)
    from q have q1: "q < ?m" and q2: "Suc j + q < length s" by auto
    from x q1 q2 have "x = s ! (Suc j + q)" by simp
    moreover from q1 assms(1) have "j < Suc j + q \<and> Suc j + q < i" by auto
    ultimately show ?thesis using assms(3) by blast
  qed
  then have "dropWhile P (drop (Suc j) s) = dropWhile P (drop i s)"
    by (subst split) (simp add: dropWhile_append)
  also have "\<dots> = drop i s"
  proof (cases "drop i s")
    case Nil
    then show ?thesis by simp
  next
    case (Cons c cs)
    then have "i < length s" by (metis drop_all list.distinct(1) not_le)
    moreover from Cons have "s ! i = c" by (rule nth_via_drop)
    ultimately show ?thesis using assms(4) Cons by simp
  qed
  finally show ?thesis .
qed

lemma dropWhile_index:
  assumes "j < length s"
  shows "\<exists>i. j < i \<and> i \<le> length s \<and> dropWhile P (drop (Suc j) s) = drop i s
             \<and> (\<forall>k. j < k \<and> k < i \<longrightarrow> P (s ! k))"
proof -
  let ?rest = "drop (Suc j) s"
  let ?n = "length (takeWhile P ?rest)"
  let ?i = "Suc j + ?n"
  have n: "?n \<le> length ?rest" by (rule length_takeWhile_le)
  with assms have 1: "j < ?i" and 2: "?i \<le> length s" by auto
  have 3: "dropWhile P ?rest = drop ?i s"
    by (simp add: dropWhile_eq_drop add.commute)
  have 4: "P (s ! k)" if "j < k \<and> k < ?i" for k
  proof -
    from that have q: "k - Suc j < ?n" by auto
    then have "P (takeWhile P ?rest ! (k - Suc j))"
      by (meson nth_mem set_takeWhileD)
    with q have "P (?rest ! (k - Suc j))" by (simp add: takeWhile_nth)
    moreover from that assms have "?rest ! (k - Suc j) = s ! k" using 2 by simp
    ultimately show ?thesis by simp
  qed
  from 1 2 3 4 show ?thesis by blast
qed


text \<open>
  On an upper-case text, the regular expression of a blocked keyword matches exactly when
  the keyword is a statement-leading token.
\<close>

lemma blockedPattern_iff:
  assumes up: "\<forall>c \<in> set s. toUpperChar c = c" and k: "k \<in> set BLOCKED_KEYWORDS"
  shows "blockedPattern k s \<longleftrightarrow> leadingToken k s"
proof -
  from blocked_keywords_upper [OF k]
  have ku: "map toUpperChar k = k" and kne: "k \<noteq> []" and kns: "\<not> isSpace (hd k)" by simp_all
  have here: "keywordHere k (drop i s) \<longleftrightarrow>
      take (length k) (drop i s) = k
      \<and> (drop (i + length k) s = [] \<or> \<not> isWordChar (s ! (i + length k)))"
    if "i \<le> length s" for i
  proof -
    have "\<forall>c \<in> set (drop i s). toUpperChar c = c"
      using up by (meson in_set_dropD)
    from keywordHere_iff [OF this ku] that show ?thesis
      by (simp add: add.commute)
  qed
  show ?thesis
  proof
    assume "blockedPattern k s"
    then consider (start) "keywordHere k s" | (later) "keywordAfterSemicolon k s"
      by (auto simp: blockedPattern_def)
    then show "leadingToken k s"
    proof cases
      case start
      with here [of 0] show ?thesis
        by (auto simp: leadingToken_def)
    next
      case later
      then obtain j where j: "j < length s" "s ! j = CHR '';''"
        and kw: "keywordHere k (dropWhile isSpace (drop (Suc j) s))"
        by (auto simp: keywordAfterSemicolon_iff)
      from dropWhile_index [OF j(1), of isSpace] obtain i where
        i: "j < i" "i \<le> length s" "dropWhile isSpace (drop (Suc j) s) = drop i s"
           "\<forall>k. j < k \<and> k < i \<longrightarrow> isSpace (s ! k)"
        by blast
      from kw i(3) here [OF i(2)]
      have token: "take (length k) (drop i s) = k
            \<and> (drop (i + length k) s = [] \<or> \<not> isWordChar (s ! (i + length k)))"
        by simp
      have "i \<in> {0..length s}"
        using i(2) by simp
      moreover have "\<exists>j \<in> {0..<i}. s ! j = CHR '';'' \<and> (\<forall>k \<in> {j<..<i}. isSpace (s ! k))"
        using j(2) i(1,4) by (intro bexI [of _ j]) auto
      ultimately show ?thesis
        unfolding leadingToken_def using token by blast
    qed
  next
    assume "leadingToken k s"
    then obtain i where i0: "i \<in> {0..length s}"
      and before0: "i = 0 \<or> (\<exists>j \<in> {0..<i}. s ! j = CHR '';'' \<and> (\<forall>k \<in> {j<..<i}. isSpace (s ! k)))"
      and at: "take (length k) (drop i s) = k"
              "drop (i + length k) s = [] \<or> \<not> isWordChar (s ! (i + length k))"
      unfolding leadingToken_def by blast
    from i0 have i: "i \<le> length s" by simp
    from before0
    have before: "i = 0 \<or> (\<exists>j < i. s ! j = CHR '';'' \<and> (\<forall>k. j < k \<and> k < i \<longrightarrow> isSpace (s ! k)))"
      by auto
    from at here [OF i] have kw: "keywordHere k (drop i s)" by simp
    show "blockedPattern k s"
    proof (cases "i = 0")
      case True
      with kw show ?thesis by (simp add: blockedPattern_def)
    next
      case False
      with before obtain j where j: "j < i" "s ! j = CHR '';''"
        "\<forall>k. j < k \<and> k < i \<longrightarrow> isSpace (s ! k)"
        by blast
      from at(1) kne have "drop i s \<noteq> []" by auto
      then have lt: "i < length s" by simp
      from at(1) kne have "hd (drop i s) = hd k"
        by (metis hd_take length_greater_0_conv)
      with lt kns have "\<not> isSpace (s ! i)"
        by (simp add: hd_drop_conv_nth)
      with dropWhile_skip [OF j(1) i j(3)]
      have "dropWhile isSpace (drop (Suc j) s) = drop i s" by simp
      with kw j lt have "keywordAfterSemicolon k s"
        unfolding keywordAfterSemicolon_iff by (metis less_trans)
      then show ?thesis by (simp add: blockedPattern_def)
    qed
  qed
qed

lemma indexOf_char:
  "indexOf s [c] = (if c \<in> set s then Some (length (takeWhile (\<lambda>x. x \<noteq> c) s)) else None)"
  by (induction s) (auto simp: startsWith_def)

lemma takeWhile_first:
  "c \<in> set s \<Longrightarrow>
     length (takeWhile (\<lambda>x. x \<noteq> c) s) < length s \<and> s ! length (takeWhile (\<lambda>x. x \<noteq> c) s) = c"
  by (induction s) auto

lemma semicolon_rule:
  "(includesStr s '';'' \<and> (case indexOf s '';'' of None \<Rightarrow> False | Some i \<Rightarrow> int i < int (length s) - 1))
     \<longleftrightarrow> semicolonBeforeFinal s"
proof (cases "CHR '';'' \<in> set s")
  case False
  then have "\<forall>i < length s. s ! i \<noteq> CHR '';''" by (metis nth_mem)
  then have "\<not> semicolonBeforeFinal s"
    by (auto simp: semicolonBeforeFinal_def)
  with False show ?thesis
    by (simp add: includesStr_def indexOf_char)
next
  case True
  let ?i = "length (takeWhile (\<lambda>x. x \<noteq> CHR '';'') s)"
  from takeWhile_first [OF True] have first: "?i < length s" "s ! ?i = CHR '';''"
    by simp_all
  have least: "?i \<le> i" if "i < length s" "s ! i = CHR '';''" for i
  proof (rule ccontr)
    assume "\<not> ?i \<le> i"
    then have "i < ?i" by simp
    then have "takeWhile (\<lambda>x. x \<noteq> CHR '';'') s ! i \<in> set (takeWhile (\<lambda>x. x \<noteq> CHR '';'') s)"
      by simp
    from set_takeWhileD [OF this] have "takeWhile (\<lambda>x. x \<noteq> CHR '';'') s ! i \<noteq> CHR '';''"
      by simp
    with \<open>i < ?i\<close> that(2) show False by (simp add: takeWhile_nth)
  qed
  have "semicolonBeforeFinal s \<longleftrightarrow> ?i + 1 < length s"
  proof
    assume "semicolonBeforeFinal s"
    then obtain i where b: "i < length s - 1" and c: "s ! i = CHR '';''"
      by (auto simp: semicolonBeforeFinal_def)
    from b have "i < length s" by simp
    from least [OF this c] b show "?i + 1 < length s" by linarith
  next
    assume "?i + 1 < length s"
    with first(2) show "semicolonBeforeFinal s"
      unfolding semicolonBeforeFinal_def by (metis atLeastLessThan_iff less_diff_conv zero_le)
  qed
  with True show ?thesis
    by (simp add: includesStr_def indexOf_char) linarith
qed

lemma begins_rule:
  "(startsWith s ''SELECT'' \<or> startsWith s ''WITH'') \<longleftrightarrow> beginsWithSelectOrWith s"
proof -
  have "length ''SELECT'' = 6" and "length ''WITH'' = 4" by simp_all
  then show ?thesis
    by (simp only: startsWith_def beginsWithSelectOrWith_def)
qed


text \<open>
  Claim C2. With \<open>n\<close> the upper-cased, trimmed text: \<open>validateSQL\<close> accepts exactly when
  no blocked keyword is a statement-leading token of \<open>n\<close>, no semicolon stands before the
  final character of \<open>n\<close>, and \<open>n\<close> begins with \<open>SELECT\<close> or \<open>WITH\<close>. The warnings play no
  part in it. A rejection names the first rule violated, in this order: the keyword that
  leads a statement, the multiple statements, the missing \<open>SELECT\<close> or \<open>WITH\<close>.
\<close>

theorem validateSQL_rules:
  "(let n = trim (toUpperCase sql); r = validateSQL sql in
      (valid r \<longleftrightarrow>
         (\<forall>k \<in> set BLOCKED_KEYWORDS. \<not> leadingToken k n)
         \<and> \<not> semicolonBeforeFinal n \<and> beginsWithSelectOrWith n)
    \<and> ((\<exists>k \<in> set BLOCKED_KEYWORDS. leadingToken k n) \<longrightarrow>
          (\<exists>k \<in> set BLOCKED_KEYWORDS. leadingToken k n \<and> error r = Some (blockedKeywordError k)))
    \<and> ((\<forall>k \<in> set BLOCKED_KEYWORDS. \<not> leadingToken k n) \<and> semicolonBeforeFinal n \<longrightarrow>
          error r = Some multipleStatementsError)
    \<and> ((\<forall>k \<in> set BLOCKED_KEYWORDS. \<not> leadingToken k n) \<and> \<not> semicolonBeforeFinal n
          \<and> \<not> beginsWithSelectOrWith n \<longrightarrow> error r = Some mustStartError)
    \<and> (valid r \<longrightarrow> error r = None))"
proof -
  define n where "n = trim (toUpperCase sql)"
  have up: "\<forall>c \<in> set n. toUpperChar c = c"
    unfolding n_def using normalized_upper by blast
  have token: "blockedPattern k n \<longleftrightarrow> leadingToken k n" if "k \<in> set BLOCKED_KEYWORDS" for k
    using blockedPattern_iff [OF up that] .
  let ?found = "find (\<lambda>keyword. blockedPattern keyword n) BLOCKED_KEYWORDS"
  have v: "validateSQL sql =
     (case ?found of
        Some keyword \<Rightarrow> \<lparr> valid = False, error = Some (blockedKeywordError keyword), warnings = None \<rparr>
      | None \<Rightarrow>
          if semicolonBeforeFinal n
          then \<lparr> valid = False, error = Some multipleStatementsError, warnings = None \<rparr>
          else if \<not> beginsWithSelectOrWith n
          then \<lparr> valid = False, error = Some mustStartError, warnings = None \<rparr>
          else \<lparr> valid = True, error = None,
                 warnings = (if length (commentWarnings n @ laterWarnings n) > 0
                             then Some (commentWarnings n @ laterWarnings n) else None) \<rparr>)"
    unfolding validateSQL_def Let_def n_def [symmetric]
      semicolon_rule [of n] begins_rule [of n, symmetric]
    by (simp split: option.splits)
  show ?thesis
  proof (cases ?found)
    case None
    then have "\<forall>k \<in> set BLOCKED_KEYWORDS. \<not> blockedPattern k n"
      by (simp add: find_None_iff)
    with token have none: "\<forall>k \<in> set BLOCKED_KEYWORDS. \<not> leadingToken k n"
      by blast
    from none show ?thesis
      unfolding Let_def n_def [symmetric] v None by simp
  next
    case (Some k)
    then have "k \<in> set BLOCKED_KEYWORDS" and "blockedPattern k n"
      by (auto simp: find_Some_iff)
    with token have some: "k \<in> set BLOCKED_KEYWORDS \<and> leadingToken k n"
      by blast
    then show ?thesis
      unfolding Let_def n_def [symmetric] v Some by auto
  qed
qed

lemma normalize_example:
  "trim (toUpperCase ''select 1;'') = ''SELECT 1;''"
  "trim (toUpperCase noBreakSelect) = ''SELECT 1''"
  by (simp_all add: string_defs case_defs char_class_defs noBreakSelect_def)

lemma validate_more_examples:
  "valid (validateSQL ''select 1;'')"
  "validateSQL ''select 1; drop table t''
     = \<lparr> valid = False, error = Some (blockedKeywordError ''DROP''), warnings = None \<rparr>"
  "valid (validateSQL noBreakSelect)"
  "validateSQL noBreakDrop
     = \<lparr> valid = False, error = Some (blockedKeywordError ''DROP''), warnings = None \<rparr>"
  by (simp_all add: validate_defs string_defs case_defs char_class_defs Let_def
        noBreakSelect_def noBreakDrop_def)

theorem validateSQL_rules_witness:
  "valid (validateSQL ''select 1;'')
   \<and> \<not> (\<exists>k \<in> set BLOCKED_KEYWORDS. leadingToken k ''SELECT 1;'')
   \<and> \<not> semicolonBeforeFinal ''SELECT 1;''
   \<and> beginsWithSelectOrWith ''SELECT 1;''
   \<and> error (validateSQL ''select 1; drop table t'') = Some (blockedKeywordError ''DROP'')
   \<and> valid (validateSQL noBreakSelect)
   \<and> \<not> (\<exists>k \<in> set BLOCKED_KEYWORDS. leadingToken k ''SELECT 1'')
   \<and> beginsWithSelectOrWith ''SELECT 1''
   \<and> error (validateSQL noBreakDrop) = Some (blockedKeywordError ''DROP'')"
  using validateSQL_rules [of "''select 1;''"] validateSQL_rules [of noBreakSelect]
  by (simp add: Let_def normalize_example validate_more_examples)

end
